(* ===== verification/Prelude.thy ===== *)
theory Prelude
  imports Main "HOL-Library.Word" "HOL-Library.Multiset" "HOL-Library.Sublist"
begin

unbundle bit_operations_syntax

text \<open>
  The vocabulary every component shares: bytes and byte strings, the outcome of a Rust
  computation (a value, an \<^verbatim>\<open>Err\<close>, or a panic), the \<^verbatim>\<open>?\<close> operator, slices with their bounds
  checks, \<^verbatim>\<open>usize\<close> arithmetic on a given target, and big-endian integers.
\<close>

section \<open>Bytes\<close>

type_synonym byte = "8 word"
type_synonym bytes = "byte list"

definition ascii :: "string \<Rightarrow> bytes" where
  "ascii s = map (of_char :: char \<Rightarrow> byte) s"

lemma ascii_simps [simp]:
  "ascii '''' = []" "ascii (c # cs) = of_char c # ascii cs"
  by (simp_all add: ascii_def)

lemma length_ascii [simp]: "length (ascii s) = length s"
  by (simp add: ascii_def)

section \<open>Outcomes: values, errors and panics\<close>

text \<open>
  \<^verbatim>\<open>Result<A, E>\<close> has two constructors; a Rust call can also panic (slice index out of range,
  overflow with checks enabled, a failed \<^verbatim>\<open>expect\<close>). The three ways a call can end:
\<close>

datatype ('a, 'e) outcome = Ok 'a | Err 'e | Panic

fun map_err :: "('e \<Rightarrow> 'f) \<Rightarrow> ('a, 'e) outcome \<Rightarrow> ('a, 'f) outcome" where
  "map_err f (Ok a) = Ok a"
| "map_err f (Err e) = Err (f e)"
| "map_err f Panic = Panic"

text \<open>The \<^verbatim>\<open>?\<close> operator, for a pure call and for a call that also returns the new state.\<close>

fun and_then :: "('a, 'e) outcome \<Rightarrow> ('a \<Rightarrow> ('b, 'e) outcome) \<Rightarrow> ('b, 'e) outcome" where
  "and_then (Ok a) k = k a"
| "and_then (Err e) k = Err e"
| "and_then Panic k = Panic"

fun try_then :: "('a, 'e) outcome \<times> 's \<Rightarrow> ('a \<Rightarrow> 's \<Rightarrow> ('b, 'e) outcome \<times> 's) \<Rightarrow> ('b, 'e) outcome \<times> 's" where
  "try_then (Ok a, s) k = k a s"
| "try_then (Err e, s) k = (Err e, s)"
| "try_then (Panic, s) k = (Panic, s)"

text \<open>\<^verbatim>\<open>expect\<close>/\<^verbatim>\<open>unwrap\<close>: an \<^verbatim>\<open>Err\<close> becomes a panic.\<close>

fun expect_ok :: "('a, 'e) outcome \<Rightarrow> ('a, 'f) outcome" where
  "expect_ok (Ok a) = Ok a"
| "expect_ok (Err e) = Panic"
| "expect_ok Panic = Panic"

named_theorems outcome_splits \<open>case splits for the control flow of the model\<close>

lemmas [outcome_splits] = outcome.splits if_splits option.splits prod.splits

lemma map_err_eq_Ok [simp]: "map_err f r = Ok a \<longleftrightarrow> r = Ok a"
  by (cases r) auto

lemma map_err_eq_Panic [simp]: "map_err f r = Panic \<longleftrightarrow> r = Panic"
  by (cases r) auto

lemma map_err_eq_Err: "map_err f r = Err e \<longleftrightarrow> (\<exists>e'. r = Err e' \<and> e = f e')"
  by (cases r) auto

lemma and_then_eq_Ok: "and_then r k = Ok b \<longleftrightarrow> (\<exists>a. r = Ok a \<and> k a = Ok b)"
  by (cases r) auto

lemma and_then_eq_Panic: "and_then r k = Panic \<longleftrightarrow> r = Panic \<or> (\<exists>a. r = Ok a \<and> k a = Panic)"
  by (cases r) auto

section \<open>Slices\<close>

text \<open>
  \<^verbatim>\<open>&xs[a..b]\<close> and \<^verbatim>\<open>xs[a..b].copy_from_slice(src)\<close> panic when the range is not in bounds (and
  \<^verbatim>\<open>copy_from_slice\<close> when the lengths differ).
\<close>

definition slice :: "'a list \<Rightarrow> nat \<Rightarrow> nat \<Rightarrow> ('a list, 'e) outcome" where
  "slice xs a b = (if a \<le> b \<and> b \<le> length xs then Ok (take (b - a) (drop a xs)) else Panic)"

definition copy_range :: "'a list \<Rightarrow> nat \<Rightarrow> nat \<Rightarrow> 'a list \<Rightarrow> ('a list, 'e) outcome" where
  "copy_range dst a b src =
     (if a \<le> b \<and> b \<le> length dst \<and> length src = b - a
      then Ok (take a dst @ src @ drop b dst) else Panic)"

text \<open>\<^verbatim>\<open>buf[a..b].copy_from_slice(src)\<close> and then the rest of a function that writes into \<^verbatim>\<open>buf\<close>.\<close>

definition copy_then :: "'a list \<Rightarrow> nat \<Rightarrow> nat \<Rightarrow> 'a list \<Rightarrow> ('a list \<Rightarrow> ('b, 'e) outcome \<times> 'a list) \<Rightarrow>
    ('b, 'e) outcome \<times> 'a list" where
  "copy_then buf a b src k =
     (case copy_range buf a b src of
        Ok buf' \<Rightarrow> k buf'
      | Err e \<Rightarrow> (Err e, buf)
      | Panic \<Rightarrow> (Panic, buf))"

text \<open>The buffer after a copy whose range is in bounds.\<close>

definition written :: "'a list \<Rightarrow> nat \<Rightarrow> 'a list \<Rightarrow> 'a list" where
  "written buf p src = take p buf @ src @ drop (p + length src) buf"

definition index :: "'a list \<Rightarrow> nat \<Rightarrow> ('a, 'e) outcome" where
  "index xs i = (if i < length xs then Ok (xs ! i) else Panic)"

definition assign :: "'a list \<Rightarrow> nat \<Rightarrow> 'a \<Rightarrow> ('a list, 'e) outcome" where
  "assign xs i x = (if i < length xs then Ok (xs[i := x]) else Panic)"

lemma slice_ok [simp]: "a \<le> b \<Longrightarrow> b \<le> length xs \<Longrightarrow> slice xs a b = Ok (take (b - a) (drop a xs))"
  by (simp add: slice_def)

lemma slice_eq_Ok: "slice xs a b = Ok ys \<longleftrightarrow> a \<le> b \<and> b \<le> length xs \<and> ys = take (b - a) (drop a xs)"
  by (auto simp: slice_def)

lemma slice_not_Err [simp]: "slice xs a b \<noteq> Err e"
  by (simp add: slice_def)

lemma copy_range_ok [simp]:
  "a \<le> b \<Longrightarrow> b \<le> length dst \<Longrightarrow> length src = b - a \<Longrightarrow>
     copy_range dst a b src = Ok (take a dst @ src @ drop b dst)"
  by (simp add: copy_range_def)

lemma copy_range_eq_Ok:
  "copy_range dst a b src = Ok ys \<longleftrightarrow>
     a \<le> b \<and> b \<le> length dst \<and> length src = b - a \<and> ys = take a dst @ src @ drop b dst"
  by (auto simp: copy_range_def)

lemma copy_range_not_Err [simp]: "copy_range dst a b src \<noteq> Err e"
  by (simp add: copy_range_def)

lemma copy_then_ok [simp]:
  "b \<le> length buf \<Longrightarrow> length src = b - a \<Longrightarrow> a \<le> b \<Longrightarrow>
     copy_then buf a b src k = k (written buf a src)"
  by (simp add: copy_then_def written_def)

lemma length_written [simp]: "p + length src \<le> length buf \<Longrightarrow> length (written buf p src) = length buf"
  by (simp add: written_def)

lemma take_written [simp]: "p \<le> length buf \<Longrightarrow> take (p + length src) (written buf p src) = take p buf @ src"
  by (simp add: written_def)

lemma written_written:
  "p + length xs + length ys \<le> length buf \<Longrightarrow>
     written (written buf p xs) (p + length xs) ys = written buf p (xs @ ys)"
  by (simp add: written_def add.commute add.left_commute)

lemma written_0: "written buf 0 src = src @ drop (length src) buf"
  by (simp add: written_def)

lemma index_ok [simp]: "i < length xs \<Longrightarrow> index xs i = Ok (xs ! i)"
  by (simp add: index_def)

lemma index_not_Err [simp]: "index xs i \<noteq> Err e"
  by (simp add: index_def)

lemma assign_ok [simp]: "i < length xs \<Longrightarrow> assign xs i x = Ok (xs[i := x])"
  by (simp add: assign_def)

lemma take_drop_append_range [simp]:
  "a \<le> length xs \<Longrightarrow> length ys = n \<Longrightarrow> take n (drop a (take a xs @ ys @ zs)) = ys"
  by simp

section \<open>Targets\<close>

text \<open>
  \<^verbatim>\<open>usize\<close> is 64 bits wide on hosted targets and 32 bits on the Cortex-M targets the crate is
  built for. \<^verbatim>\<open>+\<close> on \<^verbatim>\<open>usize\<close> panics on overflow when overflow checks are compiled in (debug
  profile) and wraps otherwise (release profile). A narrowing \<^verbatim>\<open>as usize\<close> truncates.
\<close>

record target =
  usize_bits :: nat
  overflow_checks :: bool

definition usize_add :: "target \<Rightarrow> nat \<Rightarrow> nat \<Rightarrow> (nat, 'e) outcome" where
  "usize_add T a b =
     (if a + b < 2 ^ usize_bits T then Ok (a + b)
      else if overflow_checks T then Panic
      else Ok ((a + b) mod 2 ^ usize_bits T))"

definition as_usize :: "target \<Rightarrow> nat \<Rightarrow> nat" where
  "as_usize T n = n mod 2 ^ usize_bits T"

lemma usize_add_ok [simp]: "a + b < 2 ^ usize_bits T \<Longrightarrow> usize_add T a b = Ok (a + b)"
  by (simp add: usize_add_def)

lemma usize_add_not_Err [simp]: "usize_add T a b \<noteq> Err e"
  by (simp add: usize_add_def)

lemma as_usize_id [simp]: "n < 2 ^ usize_bits T \<Longrightarrow> as_usize T n = n"
  by (simp add: as_usize_def)

text \<open>Code equations on binary integers, so that concrete runs on real word sizes can be evaluated.\<close>

lemma as_usize_code [code]: "as_usize T n = nat (int n mod 2 ^ usize_bits T)"
  by (simp add: as_usize_def nat_mod_distrib nat_power_eq)

lemma usize_add_code [code]:
  "usize_add T a b =
     (if int a + int b < 2 ^ usize_bits T then Ok (a + b)
      else if overflow_checks T then Panic
      else Ok (nat ((int a + int b) mod 2 ^ usize_bits T)))"
proof -
  have "int a + int b < 2 ^ usize_bits T \<longleftrightarrow> a + b < 2 ^ usize_bits T"
    by (metis of_nat_add of_nat_less_iff of_nat_numeral of_nat_power)
  then show ?thesis
    by (simp add: usize_add_def nat_mod_distrib nat_power_eq nat_add_distrib)
qed

section \<open>Big-endian integers\<close>

text \<open>\<^verbatim>\<open>to_be_bytes\<close> of a \<^verbatim>\<open>k\<close>-byte integer and \<^verbatim>\<open>from_be_bytes\<close>, as a natural number.\<close>

fun be_bytes :: "nat \<Rightarrow> nat \<Rightarrow> bytes" where
  "be_bytes 0 n = []"
| "be_bytes (Suc k) n = be_bytes k (n div 256) @ [of_nat n]"

definition be_nat :: "bytes \<Rightarrow> nat" where
  "be_nat bs = foldl (\<lambda>acc b. acc * 256 + unat b) 0 bs"

lemma unat_byte_less [simp]: "unat (b :: byte) < 256"
  using unsigned_less [of b, where 'a = nat] by simp

lemma unat_byte_le [simp]: "unat (b :: byte) \<le> 255"
  using unat_byte_less [of b] by linarith

lemma be_nat_Nil [simp]: "be_nat [] = 0"
  by (simp add: be_nat_def)

lemma be_nat_snoc [simp]: "be_nat (bs @ [b]) = be_nat bs * 256 + unat b"
  by (simp add: be_nat_def)

lemma length_be_bytes [simp]: "length (be_bytes k n) = k"
  by (induction k arbitrary: n) auto

lemma be_bytes_numeral:
  "be_bytes (numeral k) n = be_bytes (pred_numeral k) (n div 256) @ [of_nat n]"
  by (subst numeral_eq_Suc) (rule be_bytes.simps(2))

lemma unat_of_nat_byte [simp]: "unat (of_nat n :: byte) = n mod 256"
  by (simp add: unat_of_nat)

lemma be_nat_be_bytes [simp]: "be_nat (be_bytes k n) = n mod 256 ^ k"
proof (induction k arbitrary: n)
  case 0
  then show ?case by simp
next
  case (Suc k)
  have "be_nat (be_bytes (Suc k) n) = (n div 256 mod 256 ^ k) * 256 + n mod 256"
    by (simp add: Suc.IH)
  also have "\<dots> = n mod (256 * 256 ^ k)"
    by (simp add: mod_mult2_eq mult.commute add.commute)
  finally show ?case by simp
qed

lemma be_nat_less: "be_nat bs < 256 ^ length bs"
proof (induction bs rule: rev_induct)
  case Nil
  then show ?case by simp
next
  case (snoc b bs)
  have "be_nat (bs @ [b]) < (be_nat bs + 1) * 256"
    using unat_byte_less [of b] by simp
  also have "(be_nat bs + 1) * 256 \<le> 256 ^ length bs * 256"
    using snoc.IH by (intro mult_le_mono1) simp
  finally show ?case by (simp add: mult.commute)
qed

section \<open>Lists\<close>

text \<open>\<^verbatim>\<open>iter().position(p)\<close>: the index of the first element that satisfies \<^verbatim>\<open>p\<close>.\<close>

fun position :: "('a \<Rightarrow> bool) \<Rightarrow> 'a list \<Rightarrow> nat option" where
  "position p [] = None"
| "position p (x # xs) = (if p x then Some 0 else map_option Suc (position p xs))"

lemma position_None: "position p xs = None \<longleftrightarrow> (\<forall>x\<in>set xs. \<not> p x)"
  by (induction xs) auto

lemma position_SomeD: "position p xs = Some i \<Longrightarrow> i < length xs \<and> p (xs ! i) \<and> (\<forall>j<i. \<not> p (xs ! j))"
proof (induction xs arbitrary: i)
  case Nil
  then show ?case by simp
next
  case (Cons x xs)
  then show ?case
    by (cases "p x") (auto simp: nth_Cons split: nat.splits)
qed

text \<open>Access past a known number of leading elements.\<close>

lemma drop_numeral_plus [simp]: "drop (numeral k + n) (x # xs) = drop (pred_numeral k + n) xs"
  by (simp add: numeral_eq_Suc)

lemma nth_numeral_plus [simp]: "(x # xs) ! (numeral k + n) = xs ! (pred_numeral k + n)"
  by (simp add: numeral_eq_Suc)

text \<open>A length-prefixed field: one byte with the length, then that many bytes.\<close>

lemma length_prefixed_split:
  assumes "pos < length body" and "pos + 1 + unat (body ! pos) \<le> length body"
    and "x = take (unat (body ! pos)) (drop (pos + 1) (body :: bytes))"
  shows "drop pos body = of_nat (length x) # x @ drop (pos + 1 + length x) body \<and> length x < 256"
proof -
  have len: "length x = unat (body ! pos)"
    using assms(2,3) by simp
  have "drop pos body = body ! pos # drop (pos + 1) body"
    using assms(1) by (simp add: Cons_nth_drop_Suc)
  also have "drop (pos + 1) body = x @ drop (pos + 1 + length x) body"
    using assms(3) len append_take_drop_id [of "unat (body ! pos)" "drop (pos + 1) body"]
    by (simp add: add.commute)
  finally show ?thesis
    using unat_byte_less [of "body ! pos"] len by simp
qed

text \<open>\<^verbatim>\<open>a.starts_with(b)\<close> on slices.\<close>

definition starts_with :: "'a list \<Rightarrow> 'a list \<Rightarrow> bool" where
  "starts_with xs p \<longleftrightarrow> take (length p) xs = p"

lemma starts_with_iff_prefix: "starts_with xs p \<longleftrightarrow> prefix p xs"
  by (metis append_eq_conv_conj append_take_drop_id prefix_def starts_with_def)

end
