(* ===== verification/Frame.thy ===== *)
theory Frame
  imports Prelude
begin

unbundle bit_operations_syntax

text \<open>
  ZMTP frames (\<^verbatim>\<open>src/frame.rs\<close>): the two header encoders and the streaming decoder. The decoder's
  state is the Rust struct \<^verbatim>\<open>FrameDecoder\<close>: the stage it is in, its body buffer and the write
  position in that buffer. \<^verbatim>\<open>feed\<close> is the Rust loop, one recursive call per iteration.
\<close>

section \<open>Encoding frame headers\<close>

definition MAX_FRAME_HEADER :: nat where
  "MAX_FRAME_HEADER = 9"

datatype FrameError = BufferTooSmall | ReservedFlagBits

definition encode_message_frame ::
    "bytes \<Rightarrow> nat \<Rightarrow> bool \<Rightarrow> (nat, FrameError) outcome \<times> bytes" where
  "encode_message_frame buf body_len has_more =
     (let more_bit = (if has_more then 1 else 0 :: byte) in
      if body_len \<le> 255 then
        if length buf < 2 then (Err FrameError.BufferTooSmall, buf)
        else (Ok 2, buf[0 := more_bit, 1 := of_nat body_len])
      else
        if length buf < 9 then (Err FrameError.BufferTooSmall, buf)
        else
          let buf = buf[0 := 0x02 OR more_bit] in
          copy_then buf 1 9 (be_bytes 8 body_len) (\<lambda>buf. (Ok 9, buf)))"

definition encode_command_frame :: "bytes \<Rightarrow> nat \<Rightarrow> (nat, FrameError) outcome \<times> bytes" where
  "encode_command_frame buf body_len =
     (if body_len \<le> 255 then
        if length buf < 2 then (Err FrameError.BufferTooSmall, buf)
        else (Ok 2, buf[0 := 0x04, 1 := of_nat body_len])
      else
        if length buf < 9 then (Err FrameError.BufferTooSmall, buf)
        else
          let buf = buf[0 := 0x06] in
          copy_then buf 1 9 (be_bytes 8 body_len) (\<lambda>buf. (Ok 9, buf)))"

section \<open>The streaming decoder\<close>

datatype DecodeError = ReservedFlagBits | BodyTooLarge | Truncated

record DecodedFrame =
  df_more :: bool
  df_is_command :: bool
  df_body :: bytes

text \<open>\<^verbatim>\<open>NeedSize has_more is_command long size_buf size_pos\<close> and \<^verbatim>\<open>NeedBody has_more is_command remaining\<close>.\<close>

datatype DecoderState =
    NeedFlags
  | NeedSize bool bool bool bytes nat
  | NeedBody bool bool nat
  | Poisoned

record FrameDecoder =
  fd_state :: DecoderState
  fd_buf :: bytes
  fd_pos :: nat

definition new_decoder :: "nat \<Rightarrow> FrameDecoder" where
  "new_decoder CAP = \<lparr>fd_state = NeedFlags, fd_buf = replicate CAP 0, fd_pos = 0\<rparr>"

definition reset :: "FrameDecoder \<Rightarrow> FrameDecoder" where
  "reset d = d\<lparr>fd_state := NeedFlags, fd_pos := 0\<rparr>"

text \<open>The inner \<^verbatim>\<open>while\<close> loop of the \<^verbatim>\<open>NeedSize\<close> stage.\<close>

function read_size :: "nat \<Rightarrow> bytes \<Rightarrow> bytes \<Rightarrow> nat \<Rightarrow> nat \<Rightarrow> bytes \<times> nat \<times> nat" where
  "read_size size_needed input size_buf size_pos pos =
     (if size_pos < size_needed \<and> pos < length input
      then read_size size_needed input (size_buf[size_pos := input ! pos]) (size_pos + 1) (pos + 1)
      else (size_buf, size_pos, pos))"
  by pat_completeness auto
termination
  by (relation "measure (\<lambda>(n, _, _, sp, _). n - sp)") auto

declare read_size.simps [simp del]

fun state_rank :: "DecoderState \<Rightarrow> nat" where
  "state_rank NeedFlags = 3"
| "state_rank (NeedSize _ _ _ _ _) = 2"
| "state_rank (NeedBody _ _ _) = 1"
| "state_rank Poisoned = 0"

function feed_loop :: "target \<Rightarrow> nat \<Rightarrow> bytes \<Rightarrow> nat \<Rightarrow> FrameDecoder \<Rightarrow>
    (nat \<times> DecodedFrame option, DecodeError) outcome \<times> FrameDecoder" where
  "feed_loop T CAP input pos d =
     (if length input \<le> pos then (Ok (pos, None), d)
      else case fd_state d of
        Poisoned \<Rightarrow> (Err DecodeError.ReservedFlagBits, d)
      | NeedFlags \<Rightarrow>
          let flags = input ! pos; pos = pos + 1 in
          if flags AND 0xF8 \<noteq> 0 then
            (Err DecodeError.ReservedFlagBits, d\<lparr>fd_state := Poisoned\<rparr>)
          else
            let has_more = (flags AND 0x01 \<noteq> 0);
                long = (flags AND 0x02 \<noteq> 0);
                is_command = (flags AND 0x04 \<noteq> 0) in
            if is_command \<and> has_more then
              (Err DecodeError.ReservedFlagBits, d\<lparr>fd_state := Poisoned\<rparr>)
            else
              feed_loop T CAP input pos
                (d\<lparr>fd_state := NeedSize has_more is_command long (replicate 8 0) 0\<rparr>)
      | NeedSize has_more is_command long size_buf size_pos \<Rightarrow>
          let size_needed = (if long then 8 else 1) in
          (case read_size size_needed input size_buf size_pos pos of (size_buf, size_pos, pos) \<Rightarrow>
             let d = d\<lparr>fd_state := NeedSize has_more is_command long size_buf size_pos\<rparr> in
             if size_pos < size_needed then (Ok (pos, None), d)
             else
               let body_len = (if long then as_usize T (be_nat size_buf) else unat (size_buf ! 0)) in
               if CAP < body_len then (Err BodyTooLarge, d\<lparr>fd_state := Poisoned\<rparr>)
               else if body_len = 0 then
                 (Ok (pos, Some \<lparr>df_more = has_more, df_is_command = is_command, df_body = []\<rparr>),
                  d\<lparr>fd_pos := 0, fd_state := NeedFlags\<rparr>)
               else
                 feed_loop T CAP input pos
                   (d\<lparr>fd_pos := 0, fd_state := NeedBody has_more is_command body_len\<rparr>))
      | NeedBody has_more is_command remaining \<Rightarrow>
          let available = length input - pos;
              to_copy = min available remaining in
          (case and_then (slice input pos (pos + to_copy))
                  (copy_range (fd_buf d) (fd_pos d) (fd_pos d + to_copy)) of
             Panic \<Rightarrow> (Panic, d)
           | Err e \<Rightarrow> (Err e, d)
           | Ok buf \<Rightarrow>
               let buf_pos = fd_pos d + to_copy;
                   remaining = remaining - to_copy;
                   pos = pos + to_copy in
               if remaining = 0 then
                 (case slice buf 0 buf_pos of
                    Panic \<Rightarrow> (Panic, d)
                  | Err e \<Rightarrow> (Err e, d)
                  | Ok body \<Rightarrow>
                      (Ok (pos, Some \<lparr>df_more = has_more, df_is_command = is_command, df_body = body\<rparr>),
                       d\<lparr>fd_buf := buf, fd_state := NeedFlags, fd_pos := 0\<rparr>))
               else
                 (Ok (pos, None),
                  d\<lparr>fd_buf := buf, fd_pos := buf_pos,
                    fd_state := NeedBody has_more is_command remaining\<rparr>)))"
  by pat_completeness auto
termination
  by (relation "measure (\<lambda>(_, _, _, _, d). state_rank (fd_state d))") auto

declare feed_loop.simps [simp del]

definition feed :: "target \<Rightarrow> nat \<Rightarrow> FrameDecoder \<Rightarrow> bytes \<Rightarrow>
    (nat \<times> DecodedFrame option, DecodeError) outcome \<times> FrameDecoder" where
  "feed T CAP d input = feed_loop T CAP input 0 d"

section \<open>The decoder's invariant\<close>

text \<open>
  The buffer keeps its size; in \<^verbatim>\<open>NeedSize\<close> fewer size bytes have arrived than are needed; in
  \<^verbatim>\<open>NeedBody\<close> at least one byte is missing and the rest of the body fits the buffer.
\<close>

definition fd_inv :: "nat \<Rightarrow> FrameDecoder \<Rightarrow> bool" where
  "fd_inv CAP d \<longleftrightarrow> length (fd_buf d) = CAP \<and>
     (case fd_state d of
        NeedSize has_more is_command long size_buf size_pos \<Rightarrow>
          length size_buf = 8 \<and> size_pos < (if long then 8 else 1)
      | NeedBody has_more is_command remaining \<Rightarrow>
          0 < remaining \<and> fd_pos d + remaining \<le> CAP
      | _ \<Rightarrow> True)"

lemma fd_inv_new [simp]: "fd_inv CAP (new_decoder CAP)"
  by (simp add: fd_inv_def new_decoder_def)

lemma fd_inv_reset [simp]: "fd_inv CAP d \<Longrightarrow> fd_inv CAP (reset d)"
  by (simp add: fd_inv_def reset_def)

lemma new_decoder_state [simp]: "fd_state (new_decoder CAP) = NeedFlags"
  by (simp add: new_decoder_def)

subsection \<open>Reading the size bytes\<close>

lemma read_size_props:
  assumes "read_size n input sb sp pos = (sb', sp', pos')" and "pos \<le> length input" and "sp \<le> n"
  shows "length sb' = length sb \<and> sp \<le> sp' \<and> sp' \<le> n \<and> pos \<le> pos' \<and> pos' \<le> length input \<and>
    (sp' < n \<longrightarrow> pos' = length input)"
  using assms
proof (induction n input sb sp pos arbitrary: sb' sp' pos' rule: read_size.induct)
  case (1 n input sb sp pos)
  show ?case
  proof (cases "sp < n \<and> pos < length input")
    case True
    with "1.prems" have
      "read_size n input (sb[sp := input ! pos]) (sp + 1) (pos + 1) = (sb', sp', pos')"
      by (simp add: read_size.simps [of n input sb sp pos])
    from "1.IH" [OF True this] True show ?thesis by simp
  next
    case False
    with "1.prems" show ?thesis by (auto simp: read_size.simps [of n input sb sp pos])
  qed
qed

lemma read_size_append:
  assumes "read_size n a sb sp pos = (sb', sp', pos')" and "pos \<le> length a" and "sp \<le> n"
  shows "read_size n (a @ b) sb sp pos =
    (if sp' < n then read_size n (a @ b) sb' sp' pos' else (sb', sp', pos'))"
  using assms
proof (induction n a sb sp pos arbitrary: sb' sp' pos' rule: read_size.induct)
  case (1 n a sb sp pos)
  show ?case
  proof (cases "sp < n \<and> pos < length a")
    case True
    with "1.prems" have
      "read_size n a (sb[sp := a ! pos]) (sp + 1) (pos + 1) = (sb', sp', pos')"
      by (simp add: read_size.simps [of n a sb sp pos])
    from "1.IH" [OF True this] True show ?thesis
      by (simp add: read_size.simps [of n "a @ b" sb sp pos] nth_append)
  next
    case False
    with "1.prems" have "sb' = sb" "sp' = sp" "pos' = pos"
      by (auto simp: read_size.simps [of n a sb sp pos])
    then show ?thesis
      by (auto simp: read_size.simps [of n "a @ b" sb sp pos])
  qed
qed

lemma read_size_shift:
  "read_size n (a @ b) sb sp (length a + pos) =
     (case read_size n b sb sp pos of (sb', sp', pos') \<Rightarrow> (sb', sp', length a + pos'))"
proof (induction n b sb sp pos rule: read_size.induct)
  case (1 n b sb sp pos)
  show ?case
  proof (cases "sp < n \<and> pos < length b")
    case True
    with "1.IH" show ?thesis
      by (simp add: read_size.simps [of n b sb sp pos]
          read_size.simps [of n "a @ b" sb sp "length a + pos"] nth_append)
  next
    case False
    then show ?thesis
      by (auto simp: read_size.simps [of n b sb sp pos]
          read_size.simps [of n "a @ b" sb sp "length a + pos"])
  qed
qed

subsection \<open>One iteration per stage\<close>

lemma feed_loop_end: "length input \<le> pos \<Longrightarrow> feed_loop T CAP input pos d = (Ok (pos, None), d)"
  by (simp add: feed_loop.simps)

lemma feed_loop_poisoned:
  "pos < length input \<Longrightarrow> fd_state d = Poisoned \<Longrightarrow>
     feed_loop T CAP input pos d = (Err DecodeError.ReservedFlagBits, d)"
  by (simp add: feed_loop.simps)

text \<open>What the loop does with the flags byte: the two rejections, else the \<^verbatim>\<open>NeedSize\<close> stage.\<close>

definition flags_ok :: "byte \<Rightarrow> bool" where
  "flags_ok f \<longleftrightarrow> f AND 0xF8 = 0 \<and> \<not> (f AND 0x04 \<noteq> 0 \<and> f AND 0x01 \<noteq> 0)"

lemma feed_loop_flags:
  assumes "pos < length input" and "fd_state d = NeedFlags"
  shows "feed_loop T CAP input pos d =
    (if flags_ok (input ! pos) then
       feed_loop T CAP input (pos + 1)
         (d\<lparr>fd_state := NeedSize (input ! pos AND 0x01 \<noteq> 0) (input ! pos AND 0x04 \<noteq> 0)
            (input ! pos AND 0x02 \<noteq> 0) (replicate 8 0) 0\<rparr>)
     else (Err DecodeError.ReservedFlagBits, d\<lparr>fd_state := Poisoned\<rparr>))"
  using assms by (simp add: feed_loop.simps [of T CAP input pos d] flags_ok_def Let_def)

text \<open>What the loop does once all size bytes are there.\<close>

definition size_done :: "target \<Rightarrow> nat \<Rightarrow> bytes \<Rightarrow> nat \<Rightarrow> bool \<Rightarrow> bool \<Rightarrow> bool \<Rightarrow> bytes \<Rightarrow> FrameDecoder \<Rightarrow>
    (nat \<times> DecodedFrame option, DecodeError) outcome \<times> FrameDecoder" where
  "size_done T CAP input pos has_more is_command long sb d =
     (let body_len = (if long then as_usize T (be_nat sb) else unat (sb ! 0)) in
      if CAP < body_len then (Err BodyTooLarge, d\<lparr>fd_state := Poisoned\<rparr>)
      else if body_len = 0 then
        (Ok (pos, Some \<lparr>df_more = has_more, df_is_command = is_command, df_body = []\<rparr>),
         d\<lparr>fd_pos := 0, fd_state := NeedFlags\<rparr>)
      else feed_loop T CAP input pos (d\<lparr>fd_pos := 0, fd_state := NeedBody has_more is_command body_len\<rparr>))"

lemma size_done_state [simp]:
  "size_done T CAP input pos m c l sb (d\<lparr>fd_state := st\<rparr>) = size_done T CAP input pos m c l sb d"
  by (simp add: size_done_def Let_def)

lemma feed_loop_size:
  assumes "pos < length input" and "fd_state d = NeedSize has_more is_command long sb sp"
    and "read_size (if long then 8 else 1) input sb sp pos = (sb', sp', pos')"
  shows "feed_loop T CAP input pos d =
    (if sp' < (if long then 8 else 1)
     then (Ok (pos', None), d\<lparr>fd_state := NeedSize has_more is_command long sb' sp'\<rparr>)
     else size_done T CAP input pos' has_more is_command long sb' d)"
  using assms by (simp add: feed_loop.simps [of T CAP input pos d] size_done_def Let_def)

lemma feed_loop_body:
  assumes "pos < length input" and "fd_state d = NeedBody has_more is_command r"
    and inv: "fd_inv CAP d" and n: "n = min (length input - pos) r"
  shows "feed_loop T CAP input pos d =
    (let buf = written (fd_buf d) (fd_pos d) (take n (drop pos input)) in
     if n = r then
       (Ok (pos + n, Some \<lparr>df_more = has_more, df_is_command = is_command,
                           df_body = take (fd_pos d + n) buf\<rparr>),
        d\<lparr>fd_buf := buf, fd_state := NeedFlags, fd_pos := 0\<rparr>)
     else (Ok (pos + n, None),
        d\<lparr>fd_buf := buf, fd_pos := fd_pos d + n, fd_state := NeedBody has_more is_command (r - n)\<rparr>))"
proof -
  have "fd_pos d + r \<le> length (fd_buf d)" and "0 < r" "length (fd_buf d) = CAP"
    using inv assms(2) by (auto simp: fd_inv_def)
  moreover have "n \<le> r" "n \<le> length input - pos" using n by auto
  ultimately show ?thesis
    using assms(1,2) n
    by (simp add: feed_loop.simps [of T CAP input pos d] Let_def written_def min_def)
qed

subsection \<open>What one call of the loop guarantees\<close>

text \<open>
  From a state that satisfies the invariant the loop never panics and keeps the invariant; a
  complete frame leaves the decoder idle, an incomplete one means that all input was consumed, an
  error poisons the decoder.
\<close>

definition feed_post :: "nat \<Rightarrow> bytes \<Rightarrow> nat \<Rightarrow>
    (nat \<times> DecodedFrame option, DecodeError) outcome \<times> FrameDecoder \<Rightarrow> bool" where
  "feed_post CAP input pos res \<longleftrightarrow> fd_inv CAP (snd res) \<and>
     (case fst res of
        Panic \<Rightarrow> False
      | Err e \<Rightarrow> fd_state (snd res) = Poisoned
      | Ok (n, None) \<Rightarrow> n = length input
      | Ok (n, Some f) \<Rightarrow> n \<le> length input \<and> pos < n \<and> fd_state (snd res) = NeedFlags \<and>
          length (df_body f) \<le> CAP)"

lemma feed_post_simps [simp]:
  "feed_post CAP input pos (Err e, d) \<longleftrightarrow> fd_inv CAP d \<and> fd_state d = Poisoned"
  "feed_post CAP input pos (Ok (n, None), d) \<longleftrightarrow> fd_inv CAP d \<and> n = length input"
  "feed_post CAP input pos (Ok (n, Some f), d) \<longleftrightarrow>
     fd_inv CAP d \<and> n \<le> length input \<and> pos < n \<and> fd_state d = NeedFlags \<and> length (df_body f) \<le> CAP"
  "\<not> feed_post CAP input pos (Panic, d)"
  by (simp_all add: feed_post_def)

lemma fd_inv_updates [simp]:
  "fd_inv CAP (d\<lparr>fd_state := NeedFlags\<rparr>) \<longleftrightarrow> length (fd_buf d) = CAP"
  "fd_inv CAP (d\<lparr>fd_state := Poisoned\<rparr>) \<longleftrightarrow> length (fd_buf d) = CAP"
  "fd_inv CAP (d\<lparr>fd_state := NeedSize m c l sb sp\<rparr>) \<longleftrightarrow>
     length (fd_buf d) = CAP \<and> length sb = 8 \<and> sp < (if l then 8 else 1)"
  "fd_inv CAP (d\<lparr>fd_state := NeedBody m c r\<rparr>) \<longleftrightarrow>
     length (fd_buf d) = CAP \<and> 0 < r \<and> fd_pos d + r \<le> CAP"
  by (auto simp: fd_inv_def)

lemma fd_inv_length: "fd_inv CAP d \<Longrightarrow> length (fd_buf d) = CAP"
  by (simp add: fd_inv_def)

lemma feed_post_later: "feed_post CAP input q res \<Longrightarrow> p \<le> q \<Longrightarrow> feed_post CAP input p res"
  by (auto simp: feed_post_def split: outcome_splits)

lemma size_done_post:
  assumes "fd_inv CAP d" and "pos \<le> length input" and "q < pos"
    and IH: "\<And>d'. fd_inv CAP d' \<Longrightarrow> state_rank (fd_state d') = 1 \<Longrightarrow> feed_post CAP input pos (feed_loop T CAP input pos d')"
  shows "feed_post CAP input q (size_done T CAP input pos has_more is_command long sb d)"
proof -
  define bl where "bl = (if long then as_usize T (be_nat sb) else unat (sb ! 0))"
  have "feed_post CAP input q (feed_loop T CAP input pos (d\<lparr>fd_pos := 0, fd_state := NeedBody has_more is_command bl\<rparr>))"
    if "bl \<le> CAP" "bl \<noteq> 0"
    by (rule feed_post_later [OF IH]) (use assms that in \<open>auto dest: fd_inv_length\<close>)
  then show ?thesis
    using assms(1-3) unfolding size_done_def bl_def [symmetric] Let_def
    by (auto dest: fd_inv_length)
qed

lemma feed_loop_post:
  "fd_inv CAP d \<Longrightarrow> pos \<le> length input \<Longrightarrow> feed_post CAP input pos (feed_loop T CAP input pos d)"
proof (induction d arbitrary: pos rule: measure_induct_rule [where f = "\<lambda>d. state_rank (fd_state d)"])
  case (less d)
  show ?case
  proof (cases "pos < length input")
    case False
    with less.prems show ?thesis by (simp add: feed_loop_end)
  next
    case pos: True
    show ?thesis
    proof (cases "fd_state d")
      case Poisoned
      with pos less.prems show ?thesis by (simp add: feed_loop_poisoned)
    next
      case NeedFlags
      have "feed_post CAP input pos (feed_loop T CAP input (pos + 1)
          (d\<lparr>fd_state := NeedSize m c l (replicate 8 0) 0\<rparr>))" for m c l
        by (rule feed_post_later [OF less.IH]) (use NeedFlags less.prems pos in \<open>auto dest: fd_inv_length\<close>)
      with less.prems show ?thesis
        by (simp add: feed_loop_flags [OF pos NeedFlags] fd_inv_length)
    next
      case (NeedSize m c l sb sp)
      obtain sb' sp' pos' where rs: "read_size (if l then 8 else 1) input sb sp pos = (sb', sp', pos')"
        by (cases "read_size (if l then 8 else 1) input sb sp pos")
      have props: "length sb' = length sb" "sp' \<le> (if l then 8 else 1)" "pos \<le> pos'" "pos' \<le> length input"
        "sp' < (if l then 8 else 1) \<longrightarrow> pos' = length input" and sp: "sp < (if l then 8 else 1)" "length sb = 8"
        using read_size_props [OF rs] less.prems NeedSize by (auto simp: fd_inv_def)
      have "pos < pos'" if "\<not> sp' < (if l then 8 else 1)"
        using rs that sp pos read_size_props [of "if l then 8 else 1" input "sb[sp := input ! pos]" "sp + 1" "pos + 1" sb' sp' pos']
        by (simp add: read_size.simps [of _ input sb sp pos] split: if_splits)
      moreover have "feed_post CAP input pos' (feed_loop T CAP input pos' d')"
        if "fd_inv CAP d'" "state_rank (fd_state d') = 1" for d'
        by (rule less.IH) (use NeedSize that props in auto)
      ultimately have "feed_post CAP input pos (size_done T CAP input pos' m c l sb' d)"
        if "\<not> sp' < (if l then 8 else 1)"
        using that size_done_post [OF less.prems(1) props(4)] by blast
      then show ?thesis
        using props less.prems sp
        by (simp add: feed_loop_size [OF pos NeedSize rs] fd_inv_length)
    next
      case (NeedBody m c r)
      define n where "n = min (length input - pos) r"
      have "fd_pos d + r \<le> CAP" "0 < r" "length (fd_buf d) = CAP"
        using less.prems NeedBody by (auto simp: fd_inv_def)
      with pos show ?thesis
        by (simp add: feed_loop_body [OF pos NeedBody less.prems(1) n_def] Let_def)
           (auto simp: n_def fd_inv_def)
    qed
  qed
qed

end
