(* ===== verification/Frame_Stream.thy ===== *)
theory Frame_Stream
  imports Frame
begin

unbundle bit_operations_syntax

text \<open>
  What the frame decoder of theory Frame computes: feeding a stream in pieces is feeding it
  whole, the result is that of a stateless grammar of frames, the two header encoders and the
  decoder are inverse, and an error poisons the decoder until it is reset.
\<close>

section \<open>Feeding in pieces\<close>

text \<open>
  If a piece of input completes no frame, the loop on a longer input gets to the state the piece
  left and goes on from there.
\<close>

lemma size_done_append:
  assumes "\<And>d'. state_rank (fd_state d') = 1 \<Longrightarrow> fd_inv CAP d' \<Longrightarrow>
      feed_loop T CAP a pos d' = (Ok (n, None), d'') \<Longrightarrow>
      feed_loop T CAP (a @ b) pos d' = feed_loop T CAP (a @ b) n d''"
    and "size_done T CAP a pos m c l sb d = (Ok (n, None), d'')" and "fd_inv CAP d"
  shows "size_done T CAP (a @ b) pos m c l sb d = feed_loop T CAP (a @ b) n d''"
  using assms by (auto simp: size_done_def Let_def fd_inv_length split: if_splits)

lemma feed_loop_append:
  "fd_inv CAP d \<Longrightarrow> pos \<le> length a \<Longrightarrow> feed_loop T CAP a pos d = (Ok (n, None), d') \<Longrightarrow>
     feed_loop T CAP (a @ b) pos d = feed_loop T CAP (a @ b) n d'"
proof (induction d arbitrary: pos rule: measure_induct_rule [where f = "\<lambda>d. state_rank (fd_state d)"])
  case (less d)
  show ?case
  proof (cases "pos < length a")
    case False
    with less.prems show ?thesis by (simp add: feed_loop_end)
  next
    case pos: True
    then have pos': "pos < length (a @ b)" and nth: "(a @ b) ! pos = a ! pos"
      by (auto simp: nth_append)
    show ?thesis
    proof (cases "fd_state d")
      case Poisoned
      with pos less.prems show ?thesis by (simp add: feed_loop_poisoned)
    next
      case NeedFlags
      have "feed_loop T CAP (a @ b) (pos + 1) (d\<lparr>fd_state := NeedSize m c l (replicate 8 0) 0\<rparr>)
          = feed_loop T CAP (a @ b) n d'"
        if "feed_loop T CAP a (pos + 1) (d\<lparr>fd_state := NeedSize m c l (replicate 8 0) 0\<rparr>) = (Ok (n, None), d')"
        for m c l
        by (rule less.IH) (use that NeedFlags less.prems pos in \<open>auto dest: fd_inv_length\<close>)
      with less.prems(3) show ?thesis
        by (simp add: feed_loop_flags [OF pos NeedFlags] feed_loop_flags [OF pos' NeedFlags] nth
            split: if_splits)
    next
      case (NeedSize m c l sb sp)
      obtain sb' sp' p' where rs: "read_size (if l then 8 else 1) a sb sp pos = (sb', sp', p')"
        by (cases "read_size (if l then 8 else 1) a sb sp pos")
      have props: "sp' \<le> (if l then 8 else 1)" "pos \<le> p'" "p' \<le> length a"
        "sp' < (if l then 8 else 1) \<Longrightarrow> p' = length a" and sp: "sp \<le> (if l then 8 else 1)"
        using read_size_props [OF rs] less.prems NeedSize by (auto simp: fd_inv_def)
      note app = read_size_append [OF rs _ sp, of b]
      show ?thesis
      proof (cases "sp' < (if l then 8 else 1)")
        case short: True
        with less.prems(3) props have d': "d' = d\<lparr>fd_state := NeedSize m c l sb' sp'\<rparr>" "n = length a"
          by (auto simp: feed_loop_size [OF pos NeedSize rs])
        obtain sb2 sp2 p2 where rs2: "read_size (if l then 8 else 1) (a @ b) sb' sp' (length a) = (sb2, sp2, p2)"
          by (cases "read_size (if l then 8 else 1) (a @ b) sb' sp' (length a)")
        with app short props pos have rs3: "read_size (if l then 8 else 1) (a @ b) sb sp pos = (sb2, sp2, p2)"
          by auto
        show ?thesis
        proof (cases "b = []")
          case True
          with less.prems(3) d' show ?thesis by (simp add: feed_loop_end)
        next
          case False
          then have "length a < length (a @ b)" by simp
          from feed_loop_size [OF this _ rs2, of d' m c T CAP] short
          show ?thesis
            by (simp add: feed_loop_size [OF pos' NeedSize rs3] d')
        qed
      next
        case enough: False
        with app pos have rs3: "read_size (if l then 8 else 1) (a @ b) sb sp pos = (sb', sp', p')"
          by simp
        from less.prems(3) enough have "size_done T CAP a p' m c l sb' d = (Ok (n, None), d')"
          by (simp add: feed_loop_size [OF pos NeedSize rs])
        with less.prems props NeedSize
        have "size_done T CAP (a @ b) p' m c l sb' d = feed_loop T CAP (a @ b) n d'"
          by (intro size_done_append) (auto intro: less.IH)
        with enough show ?thesis
          by (simp add: feed_loop_size [OF pos' NeedSize rs3])
      qed
    next
      case (NeedBody m c r)
      define k where "k = min (length a - pos) r"
      define k' where "k' = min (length (a @ b) - pos) r"
      note st = feed_loop_body [OF pos NeedBody less.prems(1) k_def, of T]
      note st' = feed_loop_body [OF pos' NeedBody less.prems(1) k'_def, of T]
      have bnd: "fd_pos d + r \<le> length (fd_buf d)" "0 < r" "length (fd_buf d) = CAP"
        using less.prems NeedBody by (auto simp: fd_inv_def)
      from less.prems(3) st have kr: "k \<noteq> r" and n: "n = pos + k"
        and d': "d' = d\<lparr>fd_buf := written (fd_buf d) (fd_pos d) (take k (drop pos a)),
            fd_pos := fd_pos d + k, fd_state := NeedBody m c (r - k)\<rparr>"
        by (auto simp: Let_def split: if_splits)
      with pos have k: "k = length a - pos" "k < r" "n = length a" by (auto simp: k_def)
      show ?thesis
      proof (cases "b = []")
        case True
        with less.prems(3) k show ?thesis by (simp add: feed_loop_end)
      next
        case False
        then have n': "n < length (a @ b)" using k by simp
        define j where "j = min (length (a @ b) - n) (r - k)"
        have nb: "fd_state d' = NeedBody m c (r - k)" by (simp add: d')
        have inv': "fd_inv CAP d'"
          using feed_loop_post [OF less.prems(1,2), of T] less.prems(3) by simp
        have k'j: "k' = k + j" using k pos by (auto simp: k'_def j_def)
        have "take k' (drop pos (a @ b)) = take k (drop pos a) @ take j (drop n (a @ b))"
          using k pos by (simp add: k'j)
        moreover have "length (take k (drop pos a)) = k" "length (take j (drop n (a @ b))) = j"
          using k pos by (auto simp: j_def)
        ultimately have wr: "written (fd_buf d') (fd_pos d') (take j (drop n (a @ b)))
            = written (fd_buf d) (fd_pos d) (take k' (drop pos (a @ b)))"
          using written_written [of "fd_pos d" "take k (drop pos a)" "take j (drop n (a @ b))" "fd_buf d"]
            bnd k by (simp add: d' j_def)
        define w where "w = written (fd_buf d) (fd_pos d) (take k' (drop pos (a @ b)))"
        have e: "fd_pos d' + j = fd_pos d + k'" "(j = r - k) = (k' = r)" "r - k - j = r - k'" "n + j = pos + k'"
          using k pos k'j n by (auto simp: d')
        show ?thesis
          unfolding feed_loop_body [OF n' nb inv' j_def, of T] st' wr Let_def e w_def [symmetric]
          by (simp add: d')
      qed
    qed
  qed
qed

text \<open>The loop reads its input from \<^verbatim>\<open>pos\<close> on only.\<close>

fun shift_result :: "nat \<Rightarrow> (nat \<times> DecodedFrame option, DecodeError) outcome \<times> FrameDecoder \<Rightarrow>
    (nat \<times> DecodedFrame option, DecodeError) outcome \<times> FrameDecoder" where
  "shift_result k (Ok (n, f), d) = (Ok (k + n, f), d)"
| "shift_result k (r, d) = (r, d)"

lemma size_done_shift:
  assumes "\<And>d'. state_rank (fd_state d') = 1 \<Longrightarrow> fd_inv CAP d' \<Longrightarrow>
      feed_loop T CAP (a @ b) (length a + pos) d' = shift_result (length a) (feed_loop T CAP b pos d')"
    and "fd_inv CAP d"
  shows "size_done T CAP (a @ b) (length a + pos) m c l sb d
    = shift_result (length a) (size_done T CAP b pos m c l sb d)"
  using assms by (simp add: size_done_def Let_def fd_inv_length)

lemma feed_loop_shift:
  "fd_inv CAP d \<Longrightarrow> pos \<le> length b \<Longrightarrow>
     feed_loop T CAP (a @ b) (length a + pos) d = shift_result (length a) (feed_loop T CAP b pos d)"
proof (induction d arbitrary: pos rule: measure_induct_rule [where f = "\<lambda>d. state_rank (fd_state d)"])
  case (less d)
  show ?case
  proof (cases "pos < length b")
    case False
    with less.prems show ?thesis by (simp add: feed_loop_end)
  next
    case pos: True
    then have pos': "length a + pos < length (a @ b)" by simp
    show ?thesis
    proof (cases "fd_state d")
      case Poisoned
      with pos show ?thesis by (simp add: feed_loop_poisoned)
    next
      case NeedFlags
      have "feed_loop T CAP (a @ b) (length a + (pos + 1)) (d\<lparr>fd_state := NeedSize m c l (replicate 8 0) 0\<rparr>)
          = shift_result (length a) (feed_loop T CAP b (pos + 1) (d\<lparr>fd_state := NeedSize m c l (replicate 8 0) 0\<rparr>))"
        for m c l
        by (rule less.IH) (use NeedFlags less.prems pos in \<open>auto dest: fd_inv_length\<close>)
      then show ?thesis
        by (simp add: feed_loop_flags [OF pos NeedFlags] feed_loop_flags [OF pos' NeedFlags])
    next
      case (NeedSize m c l sb sp)
      obtain sb' sp' p' where rs: "read_size (if l then 8 else 1) b sb sp pos = (sb', sp', p')"
        by (cases "read_size (if l then 8 else 1) b sb sp pos")
      then have rs': "read_size (if l then 8 else 1) (a @ b) sb sp (length a + pos) = (sb', sp', length a + p')"
        by (simp add: read_size_shift)
      have "p' \<le> length b"
        using read_size_props [OF rs] less.prems NeedSize by (auto simp: fd_inv_def)
      with less.prems NeedSize
      have "size_done T CAP (a @ b) (length a + p') m c l sb' d
          = shift_result (length a) (size_done T CAP b p' m c l sb' d)"
        by (intro size_done_shift less.IH) auto
      then show ?thesis
        by (simp add: feed_loop_size [OF pos NeedSize rs] feed_loop_size [OF pos' NeedSize rs'])
    next
      case (NeedBody m c r)
      define k where "k = min (length b - pos) r"
      have k': "k = min (length (a @ b) - (length a + pos)) r" by (simp add: k_def)
      show ?thesis
        by (simp add: feed_loop_body [OF pos NeedBody less.prems(1) k_def]
            feed_loop_body [OF pos' NeedBody less.prems(1) k'] Let_def)
    qed
  qed
qed

theorem feed_append:
  assumes "fd_inv CAP d" and "feed T CAP d a = (Ok (n, None), d')"
  shows "n = length a \<and> feed T CAP d (a @ b) = shift_result n (feed T CAP d' b)"
proof -
  have post: "feed_post CAP a 0 (feed_loop T CAP a 0 d)"
    using assms(1) by (rule feed_loop_post) simp
  with assms(2) have n: "n = length a" and inv: "fd_inv CAP d'"
    by (auto simp: feed_def)
  have "feed T CAP d (a @ b) = feed_loop T CAP (a @ b) (length a) d'"
    using feed_loop_append [OF assms(1) _ assms(2) [unfolded feed_def], of b] n by (simp add: feed_def)
  also have "\<dots> = shift_result (length a) (feed T CAP d' b)"
    using feed_loop_shift [OF inv, of 0 b T a] by (simp add: feed_def)
  finally show ?thesis by (simp add: n)
qed

section \<open>The frame grammar\<close>

text \<open>
  What a byte string means as the beginning of a stream of frames, read in one go and without a
  state: the reference the streaming decoder is compared with.
\<close>

datatype parsed = Incomplete | Malformed DecodeError | Complete nat DecodedFrame

definition parse_frame :: "target \<Rightarrow> nat \<Rightarrow> bytes \<Rightarrow> parsed" where
  "parse_frame T CAP bs =
     (case bs of
        [] \<Rightarrow> Incomplete
      | flags # rest \<Rightarrow>
          if \<not> flags_ok flags then Malformed DecodeError.ReservedFlagBits
          else
            let n = (if flags AND 0x02 \<noteq> 0 then 8 else 1) in
            if length rest < n then Incomplete
            else
              let len = (if flags AND 0x02 \<noteq> 0 then as_usize T (be_nat (take n rest))
                         else be_nat (take n rest));
                  body = drop n rest in
              if CAP < len then Malformed BodyTooLarge
              else if length body < len then Incomplete
              else Complete (1 + n + len)
                \<lparr>df_more = (flags AND 0x01 \<noteq> 0), df_is_command = (flags AND 0x04 \<noteq> 0),
                 df_body = take len body\<rparr>)"

lemma written_Cons:
  "sp < length sb \<Longrightarrow> written sb sp (x # xs) = written (sb[sp := x]) (Suc sp) xs"
  by (simp add: written_def take_Suc_conv_app_nth)

lemma read_size_eq:
  assumes "sp \<le> n" "n \<le> length sb" "pos \<le> length input" "k = min (n - sp) (length input - pos)"
  shows "read_size n input sb sp pos = (written sb sp (take k (drop pos input)), sp + k, pos + k)"
  using assms
proof (induction n input sb sp pos arbitrary: k rule: read_size.induct)
  case (1 n input sb sp pos)
  show ?case
  proof (cases "sp < n \<and> pos < length input")
    case True
    define j where "j = min (n - Suc sp) (length input - Suc pos)"
    have k: "k = Suc j" using True "1.prems" by (auto simp: j_def)
    have "drop pos input = input ! pos # drop (Suc pos) input"
      using True by (simp add: Cons_nth_drop_Suc)
    then have "written sb sp (take k (drop pos input)) =
        written (sb[sp := input ! pos]) (Suc sp) (take j (drop (Suc pos) input))"
      using True "1.prems"(2) by (simp add: k written_Cons)
    with "1.IH" [OF True, of j] True "1.prems" k show ?thesis
      by (simp add: read_size.simps [of n input sb sp pos] j_def)
  next
    case False
    with "1.prems" show ?thesis
      by (auto simp: read_size.simps [of n input sb sp pos] written_def)
  qed
qed

definition feed_result :: "nat \<Rightarrow> parsed \<Rightarrow> (nat \<times> DecodedFrame option, DecodeError) outcome" where
  "feed_result n p = (case p of
     Incomplete \<Rightarrow> Ok (n, None) | Malformed e \<Rightarrow> Err e | Complete k f \<Rightarrow> Ok (k, Some f))"

lemma size_done_fresh:
  assumes "length (fd_buf d) = CAP" and "pos \<le> length input"
    and len: "len = (if l then as_usize T (be_nat sb) else unat (sb ! 0))"
  shows "fst (size_done T CAP input pos m c l sb d) =
    (if CAP < len then Err BodyTooLarge
     else if length input - pos < len then Ok (length input, None)
     else Ok (pos + len, Some \<lparr>df_more = m, df_is_command = c, df_body = take len (drop pos input)\<rparr>))"
proof -
  let ?d = "d\<lparr>fd_pos := 0, fd_state := NeedBody m c len\<rparr>"
  have "fst (feed_loop T CAP input pos ?d) =
    (if length input - pos < len then Ok (length input, None)
     else Ok (pos + len, Some \<lparr>df_more = m, df_is_command = c, df_body = take len (drop pos input)\<rparr>))"
    if "len \<le> CAP" "len \<noteq> 0"
  proof (cases "pos < length input")
    case False
    with that assms(2) show ?thesis by (simp add: feed_loop_end)
  next
    case True
    define k where "k = min (length input - pos) len"
    from that assms(1) have "fd_inv CAP ?d" by simp
    from feed_loop_body [OF True _ this k_def, of m c T] that assms(1) True show ?thesis
      using take_written [of 0 "fd_buf d" "take k (drop pos input)"]
      by (auto simp: Let_def k_def min_def)
  qed
  then show ?thesis
    unfolding size_done_def len [symmetric] Let_def by auto
qed

lemma feed_fresh:
  assumes "fd_inv CAP d" and "fd_state d = NeedFlags"
  shows "fst (feed T CAP d bs) = feed_result (length bs) (parse_frame T CAP bs)"
proof (cases bs)
  case Nil
  then show ?thesis by (simp add: feed_def feed_loop_end parse_frame_def feed_result_def)
next
  case (Cons f rest)
  define n :: nat where "n = (if f AND 2 \<noteq> 0 then 8 else 1)"
  let ?m = "f AND 1 \<noteq> 0" and ?c = "f AND 4 \<noteq> 0" and ?l = "f AND 2 \<noteq> 0"
  let ?d1 = "d\<lparr>fd_state := NeedSize ?m ?c ?l (replicate 8 0) 0\<rparr>"
  have start: "feed T CAP d bs = (if flags_ok f then feed_loop T CAP bs 1 ?d1
      else (Err DecodeError.ReservedFlagBits, d\<lparr>fd_state := Poisoned\<rparr>))"
    using feed_loop_flags [of 0 bs d T CAP] assms Cons by (simp add: feed_def)
  show ?thesis
  proof (cases "flags_ok f \<and> rest \<noteq> []")
    case False
    with start Cons show ?thesis
      by (auto simp: parse_frame_def feed_result_def feed_loop_end)
  next
    case True
    then have pos: "1 < length bs" using Cons by (cases rest) auto
    define k where "k = min n (length rest)"
    define sb :: bytes where "sb = written (replicate 8 0) 0 (take k rest)"
    have "read_size n bs (replicate 8 0) 0 1 = (sb, k, 1 + k)"
      using read_size_eq [of 0 n "replicate 8 0" 1 bs k] Cons by (simp add: k_def sb_def n_def)
    from feed_loop_size [OF pos _ this [unfolded n_def], of ?d1 ?m ?c T CAP] True start
    have sz: "feed T CAP d bs = (if k < n then (Ok (1 + k, None), ?d1\<lparr>fd_state := NeedSize ?m ?c ?l sb k\<rparr>)
        else size_done T CAP bs (1 + k) ?m ?c ?l sb ?d1)"
      by (simp add: n_def)
    show ?thesis
    proof (cases "length rest < n")
      case short: True
      with sz Cons True show ?thesis
        by (auto simp: parse_frame_def feed_result_def k_def n_def)
    next
      case enough: False
      then have k: "k = n" by (simp add: k_def)
      define len where "len = (if ?l then as_usize T (be_nat (take n rest)) else be_nat (take n rest))"
      have "len = (if ?l then as_usize T (be_nat sb) else unat (sb ! 0))"
        using enough True by (cases rest) (auto simp: len_def sb_def k n_def written_def be_nat_def)
      from size_done_fresh [OF _ _ this, of ?d1 CAP "1 + k" bs ?m ?c] sz k enough
      have "fst (feed T CAP d bs) = (if CAP < len then Err BodyTooLarge
        else if length bs - (1 + n) < len then Ok (length bs, None)
        else Ok (1 + n + len, Some \<lparr>df_more = ?m, df_is_command = ?c, df_body = take len (drop (1 + n) bs)\<rparr>))"
        using assms Cons by (simp add: fd_inv_length)
      then show ?thesis
        using True enough Cons
        by (simp add: parse_frame_def feed_result_def Let_def flip: n_def len_def)
    qed
  qed
qed

subsection \<open>A finished frame does not depend on what follows it\<close>

lemma size_done_prefix:
  assumes "\<And>d'. state_rank (fd_state d') = 1 \<Longrightarrow> fd_inv CAP d' \<Longrightarrow> feed_loop T CAP a pos d' = (r, d'') \<Longrightarrow>
      feed_loop T CAP (a @ b) pos d' = (r, d'')"
    and "size_done T CAP a pos m c l sb d = (r, d'')" and "fd_inv CAP d"
  shows "size_done T CAP (a @ b) pos m c l sb d = (r, d'')"
  using assms by (auto simp: size_done_def Let_def fd_inv_length split: if_splits)

lemma feed_loop_prefix:
  "fd_inv CAP d \<Longrightarrow> pos \<le> length a \<Longrightarrow> feed_loop T CAP a pos d = (r, d') \<Longrightarrow> (\<forall>n. r \<noteq> Ok (n, None)) \<Longrightarrow>
     feed_loop T CAP (a @ b) pos d = (r, d')"
proof (induction d arbitrary: pos rule: measure_induct_rule [where f = "\<lambda>d. state_rank (fd_state d)"])
  case (less d)
  from less.prems have pos: "pos < length a"
    by (rule_tac ccontr) (auto simp: feed_loop_end)
  then have pos': "pos < length (a @ b)" and nth: "(a @ b) ! pos = a ! pos"
    by (auto simp: nth_append)
  show ?case
  proof (cases "fd_state d")
    case Poisoned
    with pos less.prems show ?thesis by (simp add: feed_loop_poisoned)
  next
    case NeedFlags
    have "feed_loop T CAP (a @ b) (pos + 1) (d\<lparr>fd_state := NeedSize m c l (replicate 8 0) 0\<rparr>) = (r, d')"
      if "feed_loop T CAP a (pos + 1) (d\<lparr>fd_state := NeedSize m c l (replicate 8 0) 0\<rparr>) = (r, d')"
      for m c l
      by (rule less.IH) (use that NeedFlags less.prems pos in \<open>auto dest: fd_inv_length\<close>)
    with less.prems(3) show ?thesis
      by (simp add: feed_loop_flags [OF pos NeedFlags] feed_loop_flags [OF pos' NeedFlags] nth
          split: if_splits)
  next
    case (NeedSize m c l sb sp)
    obtain sb' sp' p' where rs: "read_size (if l then 8 else 1) a sb sp pos = (sb', sp', p')"
      by (cases "read_size (if l then 8 else 1) a sb sp pos")
    have p': "p' \<le> length a" and sp: "sp \<le> (if l then 8 else 1)"
      using read_size_props [OF rs] less.prems NeedSize by (auto simp: fd_inv_def)
    from less.prems(3,4) have enough: "\<not> sp' < (if l then 8 else 1)"
      and sd: "size_done T CAP a p' m c l sb' d = (r, d')"
      by (auto simp: feed_loop_size [OF pos NeedSize rs] split: if_splits)
    from read_size_append [OF rs _ sp, of b] pos enough
    have rs': "read_size (if l then 8 else 1) (a @ b) sb sp pos = (sb', sp', p')" by simp
    from sd less.prems p' NeedSize have "size_done T CAP (a @ b) p' m c l sb' d = (r, d')"
      by (intro size_done_prefix) (auto intro: less.IH)
    with enough show ?thesis
      by (simp add: feed_loop_size [OF pos' NeedSize rs'])
  next
    case (NeedBody m c q)
    define k where "k = min (length a - pos) q"
    define k' where "k' = min (length (a @ b) - pos) q"
    from less.prems(3,4) have "k = q"
      by (auto simp: feed_loop_body [OF pos NeedBody less.prems(1) k_def] Let_def split: if_splits)
    then have eq: "k' = k" and tk: "take k (drop pos (a @ b)) = take k (drop pos a)"
      by (auto simp: k_def k'_def)
    from less.prems(3) show ?thesis
      unfolding feed_loop_body [OF pos NeedBody less.prems(1) k_def]
        feed_loop_body [OF pos' NeedBody less.prems(1) k'_def] eq tk .
  qed
qed

text \<open>
  Feeding a stream chunk by chunk, until a chunk completes a frame or is rejected; the count is
  the number of bytes consumed over all chunks.
\<close>

fun feed_chunks :: "target \<Rightarrow> nat \<Rightarrow> FrameDecoder \<Rightarrow> nat \<Rightarrow> bytes list \<Rightarrow>
    (nat \<times> DecodedFrame option, DecodeError) outcome \<times> FrameDecoder" where
  "feed_chunks T CAP d n [] = (Ok (n, None), d)"
| "feed_chunks T CAP d n (c # cs) =
     (case feed T CAP d c of
        (Ok (k, None), d') \<Rightarrow> feed_chunks T CAP d' (n + k) cs
      | res \<Rightarrow> shift_result n res)"

lemma shift_shift [simp]: "shift_result m (shift_result n r) = shift_result (m + n) r"
  by (cases "(n, r)" rule: shift_result.cases) (auto simp: add.assoc)

lemma feed_Nil [simp]: "feed T CAP d [] = (Ok (0, None), d)"
  by (simp add: feed_def feed_loop_end)

lemma feed_chunks_concat:
  "fd_inv CAP d \<Longrightarrow> feed_chunks T CAP d n cs = shift_result n (feed T CAP d (concat cs))"
proof (induction cs arbitrary: d n)
  case Nil
  then show ?case by simp
next
  case (Cons c cs)
  obtain r d' where r: "feed T CAP d c = (r, d')" by fastforce
  have post: "feed_post CAP c 0 (r, d')"
    using feed_loop_post [OF Cons.prems, of 0 c T] r by (simp add: feed_def)
  show ?case
  proof (cases "\<exists>k. r = Ok (k, None)")
    case True
    then obtain k where k: "r = Ok (k, None)" ..
    with post Cons.IH [of d' "n + k"] feed_append [OF Cons.prems r [unfolded k], of "concat cs"]
    show ?thesis by (simp add: r)
  next
    case False
    then have "feed T CAP d (c @ concat cs) = (r, d')"
      using feed_loop_prefix [OF Cons.prems, of 0 c T r d' "concat cs"] r by (simp add: feed_def)
    with False show ?thesis by (auto simp: r split: outcome_splits)
  qed
qed

section \<open>Frames on the wire\<close>

text \<open>The bytes of a frame header, as RFC 37 lays them out.\<close>

definition flags_byte :: "bool \<Rightarrow> bool \<Rightarrow> bool \<Rightarrow> byte" where
  "flags_byte has_more is_command long =
     (if is_command then 4 else 0) + (if long then 2 else 0) + (if has_more then 1 else 0)"

definition frame_header :: "bool \<Rightarrow> bool \<Rightarrow> nat \<Rightarrow> bytes" where
  "frame_header has_more is_command n =
     (if n \<le> 255 then [flags_byte has_more is_command False, of_nat n]
      else flags_byte has_more is_command True # be_bytes 8 n)"

definition wire_frame :: "DecodedFrame \<Rightarrow> bytes" where
  "wire_frame f = frame_header (df_more f) (df_is_command f) (length (df_body f)) @ df_body f"

lemma length_frame_header: "length (frame_header m c n) = (if n \<le> 255 then 2 else 9)"
  by (simp add: frame_header_def)

lemma encode_message_frame_eq:
  "encode_message_frame buf n m =
     (let hdr = frame_header m False n in
      if length buf < length hdr then (Err FrameError.BufferTooSmall, buf)
      else (Ok (length hdr), hdr @ drop (length hdr) buf))"
proof -
  obtain x y rest where "length buf \<ge> 2 \<Longrightarrow> buf = x # y # rest"
    by (metis Suc_le_length_iff numeral_2_eq_2)
  then show ?thesis
    by (cases m; cases buf)
       (auto simp: encode_message_frame_def frame_header_def flags_byte_def Let_def not_less written_def)
qed

lemma encode_command_frame_eq:
  "encode_command_frame buf n =
     (let hdr = frame_header False True n in
      if length buf < length hdr then (Err FrameError.BufferTooSmall, buf)
      else (Ok (length hdr), hdr @ drop (length hdr) buf))"
proof -
  obtain x y rest where "length buf \<ge> 2 \<Longrightarrow> buf = x # y # rest"
    by (metis Suc_le_length_iff numeral_2_eq_2)
  then show ?thesis
    by (cases buf)
       (auto simp: encode_command_frame_def frame_header_def flags_byte_def Let_def not_less written_def)
qed

lemma flags_byte_bits [simp]:
  "flags_ok (flags_byte m c l) \<longleftrightarrow> \<not> (m \<and> c)"
  "flags_byte m c l AND 1 \<noteq> 0 \<longleftrightarrow> m"
  "flags_byte m c l AND 2 \<noteq> 0 \<longleftrightarrow> l"
  "flags_byte m c l AND 4 \<noteq> 0 \<longleftrightarrow> c"
  by (cases m; cases c; cases l; simp add: flags_byte_def flags_ok_def)+

lemma flags_byte_bits' [simp]:
  "flags_byte m c l AND 1 = 0 \<longleftrightarrow> \<not> m"
  "flags_byte m c l AND 2 = 0 \<longleftrightarrow> \<not> l"
  "flags_byte m c l AND 4 = 0 \<longleftrightarrow> \<not> c"
  using flags_byte_bits [of m c l] by blast+

lemma parse_frame_wire:
  assumes "\<not> (df_more f \<and> df_is_command f)" and "length (df_body f) \<le> CAP"
    and "length (df_body f) < 2 ^ 64" "length (df_body f) < 2 ^ usize_bits T"
  shows "parse_frame T CAP (wire_frame f @ rest) = Complete (length (wire_frame f)) f"
  using assms
proof -
  have "be_nat [b] = unat b" for b
    using be_nat_snoc [of "[]" b] by simp
  then show ?thesis
    using assms by (cases f) (auto simp: parse_frame_def wire_frame_def frame_header_def Let_def)
qed

section \<open>Properties\<close>

text \<open>
  C22. Streaming decoding refines the frame grammar: however a byte stream is cut into chunks,
  feeding the chunks one after the other to a new decoder gives what the stateless grammar
  says of the whole stream: all bytes consumed and no frame, the error of the malformed header, or
  the first frame together with the number of bytes it takes.
\<close>

theorem decoder_refines_grammar:
  "fst (feed_chunks T CAP (new_decoder CAP) 0 cs)
     = feed_result (length (concat cs)) (parse_frame T CAP (concat cs))"
proof -
  have "fst (feed_chunks T CAP (new_decoder CAP) 0 cs)
      = fst (shift_result 0 (feed T CAP (new_decoder CAP) (concat cs)))"
    by (simp add: feed_chunks_concat)
  also have "\<dots> = fst (feed T CAP (new_decoder CAP) (concat cs))"
    by (cases "(0::nat, feed T CAP (new_decoder CAP) (concat cs))" rule: shift_result.cases) auto
  finally show ?thesis by (simp add: feed_fresh)
qed

lemma feed_chunks_wire:
  assumes "\<not> (df_more f \<and> df_is_command f)" and "length (df_body f) \<le> CAP"
    and "length (df_body f) < 2 ^ 64" "length (df_body f) < 2 ^ usize_bits T"
    and "concat cs = wire_frame f @ rest"
  shows "fst (feed_chunks T CAP (new_decoder CAP) 0 cs) = Ok (length (wire_frame f), Some f)"
proof -
  have "parse_frame T CAP (concat cs) = Complete (length (wire_frame f)) f"
    unfolding assms(5) using assms(1-4) by (rule parse_frame_wire)
  moreover have "fst (feed_chunks T CAP (new_decoder CAP) 0 cs)
      = feed_result (length (concat cs)) (parse_frame T CAP (concat cs))"
    unfolding feed_chunks_concat [OF fd_inv_new]
    by (cases "(0::nat, feed T CAP (new_decoder CAP) (concat cs))" rule: shift_result.cases)
       (auto simp flip: feed_fresh [OF fd_inv_new new_decoder_state])
  ultimately show ?thesis by (simp add: feed_result_def)
qed

text \<open>
  C23. Round trip: when the message encoder writes a header for a body that fits the decoder, the
  decoder, given that header, the body and anything after it in any chunks, returns exactly that
  body with the same MORE flag, marked as a message, and consumes header and body only.
\<close>

theorem message_frame_roundtrip:
  assumes enc: "encode_message_frame buf (length body) m = (Ok n, buf')"
    and cap: "length body \<le> CAP" and len: "length body < 2 ^ 64" "length body < 2 ^ usize_bits T"
    and cs: "concat cs = take n buf' @ body @ rest"
  shows "fst (feed_chunks T CAP (new_decoder CAP) 0 cs)
    = Ok (n + length body, Some \<lparr>df_more = m, df_is_command = False, df_body = body\<rparr>)"
proof -
  define f where "f = \<lparr>df_more = m, df_is_command = False, df_body = body\<rparr>"
  from enc have hdr: "take n buf' = frame_header m False (length body)" "n = length (frame_header m False (length body))"
    by (auto simp: encode_message_frame_eq Let_def split: if_splits)
  then have "concat cs = wire_frame f @ rest" "length (wire_frame f) = n + length body"
    using cs by (simp_all add: wire_frame_def f_def)
  moreover have "\<not> (df_more f \<and> df_is_command f)" "df_body f = body"
    by (simp_all add: f_def)
  ultimately show ?thesis
    using feed_chunks_wire [of f CAP T cs rest] cap len by (simp add: f_def)
qed

theorem message_frame_roundtrip_witness:
  "fst (feed_chunks \<lparr>usize_bits = 64, overflow_checks = True\<rparr> 4 (new_decoder 4) 0 [[1], [3, 7], [8, 9, 0, 0]])
    = Ok (2 + length [7, 8, 9 :: byte], Some \<lparr>df_more = True, df_is_command = False, df_body = [7, 8, 9]\<rparr>)"
  by (rule message_frame_roundtrip [where buf = "[0, 0]" and buf' = "[1, 3]" and rest = "[0, 0]"])
     (simp_all add: encode_message_frame_def)

text \<open>
  C24. The decoder is safe: from every state that satisfies its invariant, and so from a new one
  after any calls, a call never panics (no slice leaves the buffer), keeps the invariant, consumes
  at most its input, returns only bodies that fit the buffer, and makes progress with every frame.
\<close>

theorem decoder_safe:
  assumes "fd_inv CAP d" and "feed T CAP d input = (r, d')"
  shows "r \<noteq> Panic \<and> fd_inv CAP d' \<and>
    (\<forall>n f. r = Ok (n, f) \<longrightarrow> n \<le> length input \<and> (f = None \<longrightarrow> n = length input)) \<and>
    (\<forall>n f. r = Ok (n, Some f) \<longrightarrow> 0 < n \<and> length (df_body f) \<le> CAP \<and> fd_state d' = NeedFlags)"
  using feed_loop_post [OF assms(1), of 0 input T] assms(2)
  by (auto simp: feed_def feed_post_def split: outcome_splits)

theorem decoder_safe_witness:
  "fst (feed \<lparr>usize_bits = 32, overflow_checks = False\<rparr> 2 (new_decoder 2) [0, 3]) \<noteq> Panic"
  using decoder_safe [of 2 "new_decoder 2" "\<lparr>usize_bits = 32, overflow_checks = False\<rparr>" "[0, 3]"
      "fst (feed \<lparr>usize_bits = 32, overflow_checks = False\<rparr> 2 (new_decoder 2) [0, 3])"
      "snd (feed \<lparr>usize_bits = 32, overflow_checks = False\<rparr> 2 (new_decoder 2) [0, 3])"]
  by simp

text \<open>
  An error is final: after a call that returned an error every later call with input returns
  the sentinel error and leaves the decoder as it is, until \<^verbatim>\<open>reset\<close> makes it idle again.
\<close>

lemma decoder_poisoned:
  assumes "fd_inv CAP d" and "feed T CAP d input = (Err e, d')" and "more_input \<noteq> []"
  shows "feed T CAP d' more_input = (Err DecodeError.ReservedFlagBits, d') \<and>
    fd_state (reset d') = NeedFlags \<and> fd_inv CAP (reset d')"
proof -
  have "fd_state d' = Poisoned \<and> fd_inv CAP d'"
    using feed_loop_post [OF assms(1), of 0 input T] assms(2) by (simp add: feed_def)
  then show ?thesis
    using assms(3) by (simp add: feed_def feed_loop_poisoned reset_def fd_inv_def)
qed

lemma decoder_poisoned_witness:
  "\<exists>d'. feed \<lparr>usize_bits = 64, overflow_checks = True\<rparr> 4 (new_decoder 4) [8] = (Err DecodeError.ReservedFlagBits, d') \<and>
     feed \<lparr>usize_bits = 64, overflow_checks = True\<rparr> 4 d' [0, 1, 7] = (Err DecodeError.ReservedFlagBits, d')"
proof -
  obtain d' where d': "feed \<lparr>usize_bits = 64, overflow_checks = True\<rparr> 4 (new_decoder 4) [8]
      = (Err DecodeError.ReservedFlagBits, d')"
    by (simp add: feed_def feed_loop.simps)
  with decoder_poisoned [OF fd_inv_new d', of "[0, 1, 7]"] show ?thesis by auto
qed

text \<open>The first frame of a fresh decoder when it is a long one, with a length \<^verbatim>\<open>n\<close> in its header.\<close>

lemma long_frame_header:
  assumes "n < 2 ^ 64" and "k = n mod 2 ^ usize_bits T"
  shows "fst (feed T CAP (new_decoder CAP) (2 # be_bytes 8 n @ bs)) =
    (if CAP < k then Err BodyTooLarge
     else if length bs < k then Ok (9 + length bs, None)
     else Ok (9 + k, Some \<lparr>df_more = False, df_is_command = False, df_body = take k bs\<rparr>))"
proof -
  have "n mod 256 ^ 8 = n" using assms(1) by simp
  then have "as_usize T (be_nat (be_bytes 8 n)) = k" using assms(2) by (simp add: as_usize_def)
  then show ?thesis
    by (auto simp: feed_fresh parse_frame_def feed_result_def flags_ok_def Let_def)
qed

text \<open>
  C26. The length check is applied after the 64-bit length is narrowed to \<^verbatim>\<open>usize\<close>. A fresh decoder that is fed
  the header of a long frame with length \<^verbatim>\<open>n\<close>, and whatever follows it, compares \<^verbatim>\<open>n\<close> modulo the size of
  \<^verbatim>\<open>usize\<close> with its capacity, and delivers that many bytes. So on a 64-bit target the frame is
  rejected exactly when its announced length exceeds the capacity; on a 32-bit target (the crate's Cortex-M
  targets) a header that announces 2^32 + k bytes is taken for a frame of k bytes, and its first k body
  bytes are delivered.
\<close>

theorem announced_length_narrowed:
  assumes "n < 2 ^ 64" and "k = n mod 2 ^ usize_bits T"
  shows "fst (feed T CAP (new_decoder CAP) (2 # be_bytes 8 n @ bs)) =
      (if CAP < k then Err BodyTooLarge
       else if length bs < k then Ok (9 + length bs, None)
       else Ok (9 + k, Some \<lparr>df_more = False, df_is_command = False, df_body = take k bs\<rparr>)) \<and>
    (usize_bits T = 64 \<longrightarrow>
      (fst (feed T CAP (new_decoder CAP) (2 # be_bytes 8 n @ bs)) = Err BodyTooLarge \<longleftrightarrow> CAP < n)) \<and>
    (usize_bits T = 32 \<longrightarrow> (\<forall>body. length body \<le> CAP \<longrightarrow> length body < 2 ^ 32 \<longrightarrow>
      fst (feed T CAP (new_decoder CAP) (2 # be_bytes 8 (2 ^ 32 + length body) @ body))
        = Ok (9 + length body, Some \<lparr>df_more = False, df_is_command = False, df_body = body\<rparr>)))"
proof (intro conjI impI allI)
  show "fst (feed T CAP (new_decoder CAP) (2 # be_bytes 8 n @ bs)) =
      (if CAP < k then Err BodyTooLarge
       else if length bs < k then Ok (9 + length bs, None)
       else Ok (9 + k, Some \<lparr>df_more = False, df_is_command = False, df_body = take k bs\<rparr>))"
    by (rule long_frame_header [OF assms])
  show "fst (feed T CAP (new_decoder CAP) (2 # be_bytes 8 n @ bs)) = Err BodyTooLarge \<longleftrightarrow> CAP < n"
    if "usize_bits T = 64"
    using assms that by (simp add: long_frame_header [OF assms])
  fix body :: bytes assume "usize_bits T = 32" "length body \<le> CAP" "length body < 2 ^ 32"
  then show "fst (feed T CAP (new_decoder CAP) (2 # be_bytes 8 (2 ^ 32 + length body) @ body))
        = Ok (9 + length body, Some \<lparr>df_more = False, df_is_command = False, df_body = body\<rparr>)"
    by (subst long_frame_header [OF _ refl]) simp_all
qed

theorem announced_length_narrowed_witness:
  "fst (feed \<lparr>usize_bits = 32, overflow_checks = True\<rparr> 4 (new_decoder 4)
      (2 # be_bytes 8 (2 ^ 32 + 2) @ [5, 6]))
    = Ok (11, Some \<lparr>df_more = False, df_is_command = False, df_body = [5, 6]\<rparr>) \<and>
   fst (feed \<lparr>usize_bits = 64, overflow_checks = True\<rparr> 4 (new_decoder 4)
      (2 # be_bytes 8 (2 ^ 32 + 2) @ [5, 6])) = Err BodyTooLarge"
proof -
  have lt: "2 ^ 32 + 2 < (2 ^ 64 :: nat)" by simp
  show ?thesis
    using announced_length_narrowed [OF lt refl, of "\<lparr>usize_bits = 32, overflow_checks = True\<rparr>" 4 "[5, 6]", THEN conjunct1]
      announced_length_narrowed [OF lt refl, of "\<lparr>usize_bits = 64, overflow_checks = True\<rparr>" 4 "[5, 6]", THEN conjunct1]
    by simp
qed

end
