(* ===== verification/Greeting.thy ===== *)
theory Greeting
  imports Prelude
begin

text \<open>
  The 64-byte ZMTP greeting (\<^verbatim>\<open>src/greeting.rs\<close>). The Rust functions take arrays of fixed size, so
  the buffers here have 64 (or 11) bytes and every constant index is in bounds.
\<close>

definition GREETING_LEN :: nat where "GREETING_LEN = 64"
definition SIG0 :: nat where "SIG0 = 0"
definition SIG9 :: nat where "SIG9 = 9"
definition VERSION_MAJOR :: nat where "VERSION_MAJOR = 10"
definition VERSION_MINOR :: nat where "VERSION_MINOR = 11"
definition MECHANISM :: nat where "MECHANISM = 12"
definition AS_SERVER :: nat where "AS_SERVER = 32"
definition GREETING_PARTIAL_LEN :: nat where "GREETING_PARTIAL_LEN = VERSION_MAJOR + 1"

lemmas greeting_consts =
  GREETING_LEN_def SIG0_def SIG9_def VERSION_MAJOR_def VERSION_MINOR_def MECHANISM_def AS_SERVER_def
  GREETING_PARTIAL_LEN_def

record PeerGreeting =
  version_minor :: byte

datatype GreetingError =
    InvalidSignature
  | UnsupportedVersionMajor
  | UnsupportedMechanism
  | InvalidAsServer

definition encode_greeting :: "bytes \<Rightarrow> bytes" where
  "encode_greeting buf =
     (let buf = replicate GREETING_LEN 0;
          buf = buf[SIG0 := 0xFF];
          buf = buf[SIG9 := 0x7F];
          buf = buf[VERSION_MAJOR := 0x03];
          buf = buf[VERSION_MINOR := 0x01] in
      written buf MECHANISM (ascii ''NULL''))"

definition encode_plain_greeting :: "bytes \<Rightarrow> bytes" where
  "encode_plain_greeting buf =
     (let buf = replicate GREETING_LEN 0;
          buf = buf[SIG0 := 0xFF];
          buf = buf[SIG9 := 0x7F];
          buf = buf[VERSION_MAJOR := 0x03];
          buf = buf[VERSION_MINOR := 0x01];
          buf = written buf MECHANISM (ascii ''PLAIN'') in
      buf[AS_SERVER := 0x01])"

definition parse_partial_greeting :: "bytes \<Rightarrow> (unit, GreetingError) outcome" where
  "parse_partial_greeting buf =
     (if buf ! SIG0 \<noteq> 0xFF \<or> buf ! SIG9 \<noteq> 0x7F then Err InvalidSignature
      else if buf ! VERSION_MAJOR \<noteq> 0x03 then Err UnsupportedVersionMajor
      else Ok ())"

definition parse_greeting :: "bytes \<Rightarrow> (PeerGreeting, GreetingError) outcome" where
  "parse_greeting buf =
     (if buf ! SIG0 \<noteq> 0xFF \<or> buf ! SIG9 \<noteq> 0x7F then Err InvalidSignature
      else if buf ! VERSION_MAJOR \<noteq> 0x03 then Err UnsupportedVersionMajor
      else if take 4 (drop MECHANISM buf) \<noteq> ascii ''NULL'' \<or>
              list_ex (\<lambda>b. b \<noteq> 0) (take 16 (drop (MECHANISM + 4) buf))
      then Err UnsupportedMechanism
      else if buf ! AS_SERVER \<noteq> 0x00 then Err InvalidAsServer
      else Ok \<lparr>version_minor = buf ! VERSION_MINOR\<rparr>)"

definition parse_plain_greeting :: "bytes \<Rightarrow> (PeerGreeting, GreetingError) outcome" where
  "parse_plain_greeting buf =
     (if buf ! SIG0 \<noteq> 0xFF \<or> buf ! SIG9 \<noteq> 0x7F then Err InvalidSignature
      else if buf ! VERSION_MAJOR \<noteq> 0x03 then Err UnsupportedVersionMajor
      else if take 5 (drop MECHANISM buf) \<noteq> ascii ''PLAIN'' \<or>
              list_ex (\<lambda>b. b \<noteq> 0) (take 15 (drop (MECHANISM + 5) buf))
      then Err UnsupportedMechanism
      else if buf ! AS_SERVER \<noteq> 0x00 then Err InvalidAsServer
      else Ok \<lparr>version_minor = buf ! VERSION_MINOR\<rparr>)"

section \<open>What the parsers accept\<close>

text \<open>A greeting field by field: signature, version, the 20-byte mechanism name, the server flag.\<close>

definition greeting_for :: "bytes \<Rightarrow> byte \<Rightarrow> bytes \<Rightarrow> bool" where
  "greeting_for mech minor buf \<longleftrightarrow>
     buf ! 0 = 0xFF \<and> buf ! 9 = 0x7F \<and> buf ! 10 = 3 \<and> buf ! 11 = minor \<and>
     take 20 (drop 12 buf) = mech @ replicate (20 - length mech) 0 \<and> buf ! 32 = 0"

lemma zero_padded_iff:
  assumes "length buf = m + k" and "length mech = m"
  shows "(take m buf = mech \<and> \<not> list_ex (\<lambda>b. b \<noteq> 0) (take k (drop m buf)))
    \<longleftrightarrow> take (m + k) buf = mech @ replicate k (0 :: byte)"
proof -
  have "(\<not> list_ex (\<lambda>b. b \<noteq> 0) xs) \<longleftrightarrow> xs = replicate (length xs) 0" for xs :: bytes
    by (induction xs) auto
  from this [of "take k (drop m buf)"] show ?thesis
    using assms by (auto simp: take_add) (metis append_take_drop_id)
qed

lemma parse_partial_prefix:
  "length buf = 64 \<Longrightarrow> parse_partial_greeting (take GREETING_PARTIAL_LEN buf) = parse_partial_greeting buf"
  by (simp add: parse_partial_greeting_def greeting_consts)

lemma length_encode_greeting [simp]: "length (encode_greeting buf) = 64"
  by (simp add: encode_greeting_def Let_def greeting_consts)

lemma length_encode_plain_greeting [simp]: "length (encode_plain_greeting buf) = 64"
  by (simp add: encode_plain_greeting_def Let_def greeting_consts)

lemma parse_greeting_not_Panic [simp]: "parse_greeting buf \<noteq> Panic" "parse_plain_greeting buf \<noteq> Panic"
  "parse_partial_greeting buf \<noteq> Panic"
  by (auto simp: parse_greeting_def parse_plain_greeting_def parse_partial_greeting_def)

lemma greeting_for_iff:
  assumes "length buf = 64"
  shows "(parse_greeting buf = Ok \<lparr>version_minor = v\<rparr> \<longleftrightarrow> greeting_for (ascii ''NULL'') v buf) \<and>
    (parse_plain_greeting buf = Ok \<lparr>version_minor = v\<rparr> \<longleftrightarrow> greeting_for (ascii ''PLAIN'') v buf)"
proof -
  have null: "(take 4 (drop 12 buf) = ascii ''NULL'' \<and> \<not> list_ex (\<lambda>b. b \<noteq> 0) (take 16 (drop 16 buf)))
      \<longleftrightarrow> take 20 (drop 12 buf) = ascii ''NULL'' @ replicate 16 0"
    using zero_padded_iff [of "take 20 (drop 12 buf)" 4 16 "ascii ''NULL''"] assms
    by (simp add: drop_take del: ascii_simps)
  have plain: "(take 5 (drop 12 buf) = ascii ''PLAIN'' \<and> \<not> list_ex (\<lambda>b. b \<noteq> 0) (take 15 (drop 17 buf)))
      \<longleftrightarrow> take 20 (drop 12 buf) = ascii ''PLAIN'' @ replicate 15 0"
    using zero_padded_iff [of "take 20 (drop 12 buf)" 5 15 "ascii ''PLAIN''"] assms
    by (simp add: drop_take del: ascii_simps)
  have "parse_greeting buf = Ok \<lparr>version_minor = v\<rparr> \<longleftrightarrow> greeting_for (ascii ''NULL'') v buf"
    using null unfolding parse_greeting_def greeting_for_def greeting_consts
    by (auto simp del: ascii_simps)
  moreover have "parse_plain_greeting buf = Ok \<lparr>version_minor = v\<rparr> \<longleftrightarrow> greeting_for (ascii ''PLAIN'') v buf"
    using plain unfolding parse_plain_greeting_def greeting_for_def greeting_consts
    by (auto simp del: ascii_simps)
  ultimately show ?thesis by blast
qed

text \<open>
  C33. A NULL greeting is accepted exactly when its signature and major version are right, the
  whole 20-byte mechanism field is \<^verbatim>\<open>NULL\<close> padded with zeros and the server flag is clear, a PLAIN
  greeting when the field is \<^verbatim>\<open>PLAIN\<close> padded with zeros; the result is the minor version.
\<close>

theorem greeting_accepted_iff:
  assumes "length buf = 64"
  shows "(parse_greeting buf = Ok \<lparr>version_minor = v\<rparr> \<longleftrightarrow> greeting_for (ascii ''NULL'') v buf) \<and>
    (parse_plain_greeting buf = Ok \<lparr>version_minor = v\<rparr> \<longleftrightarrow> greeting_for (ascii ''PLAIN'') v buf)"
  using greeting_for_iff [OF assms] .

text \<open>The peer's greetings of the library's own unit tests, as a concrete instance.\<close>

definition plain_client_greeting :: bytes where
  "plain_client_greeting = (encode_plain_greeting [])[AS_SERVER := 0x00]"

lemma greeting_values:
  "encode_greeting buf = 0xFF # replicate 8 0 @ [0x7F, 3, 1] @ ascii ''NULL'' @ replicate 48 0"
  "encode_plain_greeting buf = 0xFF # replicate 8 0 @ [0x7F, 3, 1] @ ascii ''PLAIN'' @ replicate 15 0 @ 1 # replicate 31 0"
  by (simp_all add: encode_greeting_def encode_plain_greeting_def greeting_consts written_def Let_def
      numeral_eq_Suc)

theorem greeting_accepted_iff_witness:
  "greeting_for (ascii ''NULL'') 1 (encode_greeting []) \<and>
   parse_greeting (encode_greeting []) = Ok \<lparr>version_minor = 1\<rparr>"
  using greeting_accepted_iff [of "encode_greeting []" 1]
  by (simp add: greeting_values greeting_for_def numeral_eq_Suc)

lemma partial_err:
  assumes "length buf = 64" and "parse_partial_greeting (take GREETING_PARTIAL_LEN buf) = Err e"
  shows "parse_greeting buf = Err e \<and> parse_plain_greeting buf = Err e"
  using assms(2) unfolding parse_partial_prefix [OF assms(1)]
  by (auto simp: parse_partial_greeting_def parse_greeting_def parse_plain_greeting_def split: if_splits)

text \<open>
  Fail-fast is sound: when the check of the first 11 bytes rejects a peer, both full parsers
  reject its complete greeting with the same error; so no peer that would be accepted is turned
  away early.
\<close>

lemma partial_rejects_only_bad:
  assumes "length buf = 64" and "parse_partial_greeting (take GREETING_PARTIAL_LEN buf) = Err e"
  shows "parse_greeting buf = Err e \<and> parse_plain_greeting buf = Err e"
  using partial_err assms by blast

lemma partial_rejects_only_bad_witness:
  "parse_greeting (replicate 64 0) = Err InvalidSignature \<and> parse_plain_greeting (replicate 64 0) = Err InvalidSignature"
  by (rule partial_rejects_only_bad)
     (simp_all add: parse_partial_greeting_def greeting_consts)

text \<open>
  What the library sends: its NULL greeting is one a NULL peer of this library accepts as
  ZMTP 3.1 and a PLAIN peer rejects by its mechanism; its PLAIN greeting identifies a server, so a
  PLAIN server rejects it, and accepts the same greeting with the server flag cleared.
\<close>

lemma own_greetings:
  "parse_greeting (encode_greeting buf) = Ok \<lparr>version_minor = 1\<rparr> \<and>
   parse_plain_greeting (encode_greeting buf) = Err UnsupportedMechanism \<and>
   parse_greeting (encode_plain_greeting buf) = Err UnsupportedMechanism \<and>
   parse_plain_greeting (encode_plain_greeting buf) = Err InvalidAsServer \<and>
   parse_plain_greeting ((encode_plain_greeting buf)[AS_SERVER := 0]) = Ok \<lparr>version_minor = 1\<rparr>"
  by (simp add: greeting_values parse_greeting_def parse_plain_greeting_def greeting_consts numeral_eq_Suc)

end
