(* ===== verification/Auth.thy ===== *)
theory Auth
  imports Prelude
begin

text \<open>
  The authentication interface (\<^verbatim>\<open>src/auth.rs\<close> and the traits of \<^verbatim>\<open>src/plain.rs\<close>). A value of a type
  with trait \<^verbatim>\<open>AuthCheck\<close> is modelled by its \<^verbatim>\<open>check\<close> method, a function of username and password;
  \<^verbatim>\<open>impl<A: Authenticator> AuthCheck for A\<close> makes \<^verbatim>\<open>check\<close> the application's \<^verbatim>\<open>authenticate\<close>.
\<close>

datatype Mechanism = Null | Plain

type_synonym auth_check = "bytes \<Rightarrow> bytes \<Rightarrow> bool"
type_synonym authenticator = "bytes \<Rightarrow> bytes \<Rightarrow> bool"

definition unit_auth :: auth_check where
  "unit_auth _ _ = False"

definition authenticator_check :: "authenticator \<Rightarrow> auth_check" where
  "authenticator_check authenticate username password = authenticate username password"

end
