(* ===== verification/Plain_Mechanism.thy ===== *)
theory Plain_Mechanism
  imports Auth
begin

text \<open>
  The PLAIN mechanism (\<^verbatim>\<open>src/plain.rs\<close>): the WELCOME command the server sends and the parser of the
  client's HELLO command.
\<close>

datatype PlainError =
    BufferTooSmall
  | NotACommand
  | UnknownCommand
  | MalformedHello
  | AuthFailed
  | PeerError

definition WELCOME_LEN :: nat where "WELCOME_LEN = 10"

definition WELCOME_FRAME :: bytes where
  "WELCOME_FRAME = [0x04, 0x08, 0x07] @ ascii ''WELCOME''"

definition encode_welcome :: "bytes \<Rightarrow> (nat, PlainError) outcome \<times> bytes" where
  "encode_welcome buf =
     (if length buf < WELCOME_LEN then (Err PlainError.BufferTooSmall, buf)
      else copy_then buf 0 WELCOME_LEN WELCOME_FRAME (\<lambda>buf. (Ok WELCOME_LEN, buf)))"

definition parse_hello_from :: "bool \<Rightarrow> bytes \<Rightarrow> (bytes \<times> bytes, PlainError) outcome" where
  "parse_hello_from is_command body =
     (if \<not> is_command then Err PlainError.NotACommand
      else if body = [] then Err MalformedHello
      else
        let name_len = unat (body ! 0) in
        if length body < 1 + name_len then Err MalformedHello
        else and_then (slice body 1 (1 + name_len)) (\<lambda>name.
          if name = ascii ''ERROR'' then Err PlainError.PeerError
          else if name \<noteq> ascii ''HELLO'' then Err PlainError.UnknownCommand
          else
            let pos = 1 + name_len in
            if length body \<le> pos then Err MalformedHello
            else
              let username_len = unat (body ! pos); pos = pos + 1 in
              if length body < pos + username_len then Err MalformedHello
              else and_then (slice body pos (pos + username_len)) (\<lambda>username.
                let pos = pos + username_len in
                if length body \<le> pos then Err MalformedHello
                else
                  let password_len = unat (body ! pos); pos = pos + 1 in
                  if length body < pos + password_len then Err MalformedHello
                  else and_then (slice body pos (pos + password_len)) (\<lambda>password.
                    Ok (username, password)))))"

section \<open>Properties\<close>

text \<open>The body of a HELLO command, as RFC 27 lays it out.\<close>

definition hello_body :: "bytes \<Rightarrow> bytes \<Rightarrow> bytes" where
  "hello_body username password =
     of_nat 5 # ascii ''HELLO'' @ of_nat (length username) # username @
     of_nat (length password) # password"

lemma parse_hello_not_Panic [simp]: "parse_hello_from c body \<noteq> Panic"
  by (auto simp: parse_hello_from_def Let_def)

lemma encode_welcome_eq:
  "encode_welcome buf =
     (if length buf < WELCOME_LEN then (Err PlainError.BufferTooSmall, buf)
      else (Ok WELCOME_LEN, WELCOME_FRAME @ drop WELCOME_LEN buf))"
  by (simp add: encode_welcome_def WELCOME_LEN_def WELCOME_FRAME_def written_0 numeral_eq_Suc)

lemma parse_hello_body:
  "length u < 256 \<Longrightarrow> length p < 256 \<Longrightarrow> parse_hello_from True (hello_body u p @ rest) = Ok (u, p)"
  by (simp add: parse_hello_from_def hello_body_def Let_def nth_append)

text \<open>
  C34. The HELLO parser accepts exactly the command frames whose body is a HELLO with the two
  length-prefixed fields (bytes after the password are ignored), and returns those two fields; it
  never panics, whatever the peer sends.
\<close>

theorem hello_accepted_iff:
  "parse_hello_from is_command body = Ok (u, p) \<longleftrightarrow>
     is_command \<and> length u < 256 \<and> length p < 256 \<and> (\<exists>rest. body = hello_body u p @ rest)"
    (is "?L \<longleftrightarrow> ?R")
proof
  assume ?L
  then have c: "is_command" and ne: "0 < length body"
    and l0: "1 + unat (body ! 0) \<le> length body"
    and name: "take (unat (body ! 0)) (drop 1 body) = ascii ''HELLO''"
    by (auto simp: parse_hello_from_def Let_def not_less and_then_eq_Ok split: if_splits)
  have five: "unat (body ! 0) = 5"
    using arg_cong [OF name, of length] l0 by simp
  from length_prefixed_split [OF ne, of "ascii ''HELLO''"] l0 name
  have body: "body = of_nat 5 # ascii ''HELLO'' @ drop 6 body"
    by (simp add: five del: ascii_simps)
  from \<open>?L\<close> c have l6: "6 < length body" "7 + unat (body ! 6) \<le> length body"
    and u: "u = take (unat (body ! 6)) (drop 7 body)"
    and lp: "7 + unat (body ! 6) < length body"
      "8 + unat (body ! 6) + unat (body ! (7 + unat (body ! 6))) \<le> length body"
    and p: "p = take (unat (body ! (7 + unat (body ! 6)))) (drop (8 + unat (body ! 6)) body)"
    by (auto simp: parse_hello_from_def Let_def not_less and_then_eq_Ok five split: if_splits)
  have u': "drop 6 body = of_nat (length u) # u @ drop (7 + length u) body" "length u < 256"
    using length_prefixed_split [of 6 body u] l6 u by simp_all
  have "length u = unat (body ! 6)" using l6 u by simp
  then have p': "drop (7 + length u) body = of_nat (length p) # p @ drop (8 + length u + length p) body"
    "length p < 256"
    using length_prefixed_split [of "7 + length u" body p] lp p by simp_all
  have "body = hello_body u p @ drop (8 + length u + length p) body"
    unfolding hello_body_def by (subst body, subst u'(1), subst p'(1)) simp
  with c u' p' show ?R by blast
next
  assume ?R
  then obtain rest where "is_command" "length u < 256" "length p < 256" "body = hello_body u p @ rest"
    by blast
  then show ?L
    by (simp add: parse_hello_body)
qed

text \<open>
  The other branches of the HELLO parser: a message frame is not a command, a well-formed
  ERROR is the peer's rejection, any other well-formed name is unknown, and a name longer than
  the body is malformed.
\<close>

lemma hello_rejections:
  "parse_hello_from False body = Err PlainError.NotACommand \<and>
   parse_hello_from True [] = Err MalformedHello \<and>
   (length name < 256 \<longrightarrow> name \<noteq> ascii ''HELLO'' \<longrightarrow> parse_hello_from True (of_nat (length name) # name @ rest) =
      Err (if name = ascii ''ERROR'' then PlainError.PeerError else PlainError.UnknownCommand)) \<and>
   (length rest < unat b \<longrightarrow> parse_hello_from True (b # rest) = Err MalformedHello)"
  by (auto simp: parse_hello_from_def Let_def simp del: ascii_simps)

end
