(* ===== verification/Null_Mechanism.thy ===== *)
theory Null_Mechanism
  imports Frame_Stream
begin

unbundle bit_operations_syntax

text \<open>
  The NULL mechanism (\<^verbatim>\<open>src/null.rs\<close>): the READY frames the library sends, the parser of the peer's
  READY or ERROR command with its metadata loop, and the encoder of the ERROR command.
\<close>

definition READY_LEN :: nat where "READY_LEN = 27"

definition READY_FRAME :: bytes where
  "READY_FRAME =
    [0x04, 0x19, 0x05, 0x52, 0x45, 0x41, 0x44, 0x59, 0x0B, 0x53, 0x6F, 0x63, 0x6B, 0x65, 0x74, 0x2D,
     0x54, 0x79, 0x70, 0x65, 0x00, 0x00, 0x00, 0x03, 0x50, 0x55, 0x42]"

definition RADIO_READY_LEN :: nat where "RADIO_READY_LEN = 29"

definition RADIO_READY_FRAME :: bytes where
  "RADIO_READY_FRAME =
    [0x04, 0x1B, 0x05, 0x52, 0x45, 0x41, 0x44, 0x59, 0x0B, 0x53, 0x6F, 0x63, 0x6B, 0x65, 0x74, 0x2D,
     0x54, 0x79, 0x70, 0x65, 0x00, 0x00, 0x00, 0x05, 0x52, 0x41, 0x44, 0x49, 0x4F]"

datatype PeerSocketType = Sub | Xsub | Dish

datatype NullError =
    BufferTooSmall
  | NotACommand
  | UnknownCommand
  | PeerError
  | WrongSocketType
  | MalformedMetadata
  | ReasonTooLong

definition encode_ready :: "bytes \<Rightarrow> (nat, NullError) outcome \<times> bytes" where
  "encode_ready buf =
     (if length buf < READY_LEN then (Err NullError.BufferTooSmall, buf)
      else copy_then buf 0 READY_LEN READY_FRAME (\<lambda>buf. (Ok READY_LEN, buf)))"

definition encode_ready_radio :: "bytes \<Rightarrow> (nat, NullError) outcome \<times> bytes" where
  "encode_ready_radio buf =
     (if length buf < RADIO_READY_LEN then (Err NullError.BufferTooSmall, buf)
      else copy_then buf 0 RADIO_READY_LEN RADIO_READY_FRAME (\<lambda>buf. (Ok RADIO_READY_LEN, buf)))"

text \<open>\<^verbatim>\<open>eq_ignore_ascii_case\<close> of byte slices.\<close>

definition to_ascii_lowercase :: "byte \<Rightarrow> byte" where
  "to_ascii_lowercase b = (if 0x41 \<le> b \<and> b \<le> 0x5A then b + 0x20 else b)"

definition eq_ignore_ascii_case :: "bytes \<Rightarrow> bytes \<Rightarrow> bool" where
  "eq_ignore_ascii_case xs ys \<longleftrightarrow> map to_ascii_lowercase xs = map to_ascii_lowercase ys"

text \<open>The metadata loop of \<^verbatim>\<open>parse_ready_command\<close>, from position \<^verbatim>\<open>pos\<close> of the body.\<close>

function metadata_loop :: "target \<Rightarrow> bytes \<Rightarrow> nat \<Rightarrow> (bytes, NullError) outcome" where
  "metadata_loop T body pos =
     (if \<not> pos < length body then Err WrongSocketType
      else
        let prop_name_len = unat (body ! pos); pos = pos + 1 in
        if pos + prop_name_len > length body then Err MalformedMetadata
        else case slice body pos (pos + prop_name_len) of
          Panic \<Rightarrow> Panic
        | Err e \<Rightarrow> Err e
        | Ok prop_name \<Rightarrow>
            let pos = pos + prop_name_len in
            if pos + 4 > length body then Err MalformedMetadata
            else
              let val_len = as_usize T (be_nat [body ! pos, body ! (pos + 1), body ! (pos + 2), body ! (pos + 3)]);
                  pos = pos + 4 in
              (case usize_add T pos val_len of
                 Panic \<Rightarrow> Panic
               | Err e \<Rightarrow> Err e
               | Ok val_end \<Rightarrow>
                   if val_end > length body then Err MalformedMetadata
                   else case slice body pos val_end of
                     Panic \<Rightarrow> Panic
                   | Err e \<Rightarrow> Err e
                   | Ok val \<Rightarrow>
                       if prop_name_len = 11 \<and> eq_ignore_ascii_case prop_name (ascii ''Socket-Type'')
                       then Ok val
                       else metadata_loop T body val_end))"
  by pat_completeness auto
termination
  by (relation "measure (\<lambda>(_, body, pos). length body - pos)") (auto simp: slice_eq_Ok)

declare metadata_loop.simps [simp del]

definition parse_ready_command :: "target \<Rightarrow> bool \<Rightarrow> bytes \<Rightarrow> (bytes, NullError) outcome" where
  "parse_ready_command T is_command body =
     (if \<not> is_command then Err NullError.NotACommand
      else if body = [] then Err MalformedMetadata
      else
        let name_len = unat (body ! 0) in
        if length body < 1 + name_len then Err MalformedMetadata
        else and_then (slice body 1 (1 + name_len)) (\<lambda>name.
          if name = ascii ''ERROR'' then Err NullError.PeerError
          else if name \<noteq> ascii ''READY'' then Err NullError.UnknownCommand
          else metadata_loop T body (1 + name_len)))"

definition parse_ready_from :: "target \<Rightarrow> bool \<Rightarrow> bytes \<Rightarrow> (PeerSocketType, NullError) outcome" where
  "parse_ready_from T is_command body =
     and_then (parse_ready_command T is_command body) (\<lambda>val.
       if val = ascii ''SUB'' then Ok Sub
       else if val = ascii ''XSUB'' then Ok Xsub
       else Err WrongSocketType)"

definition parse_ready_radio_from :: "target \<Rightarrow> bool \<Rightarrow> bytes \<Rightarrow> (PeerSocketType, NullError) outcome" where
  "parse_ready_radio_from T is_command body =
     and_then (parse_ready_command T is_command body) (\<lambda>val.
       if val = ascii ''DISH'' then Ok Dish
       else Err WrongSocketType)"

definition parse_ready :: "target \<Rightarrow> bytes \<Rightarrow> (PeerSocketType, NullError) outcome" where
  "parse_ready T buf =
     (if length buf < 3 then Err MalformedMetadata
      else
        let is_command = (buf ! 0 AND 0x04 \<noteq> 0); body_size = unat (buf ! 1) in
        if length buf < 2 + body_size then Err MalformedMetadata
        else and_then (slice buf 2 (2 + body_size)) (\<lambda>body. parse_ready_from T is_command body))"

definition parse_ready_radio :: "target \<Rightarrow> bytes \<Rightarrow> (PeerSocketType, NullError) outcome" where
  "parse_ready_radio T buf =
     (if length buf < 3 then Err MalformedMetadata
      else
        let is_command = (buf ! 0 AND 0x04 \<noteq> 0); body_size = unat (buf ! 1) in
        if length buf < 2 + body_size then Err MalformedMetadata
        else and_then (slice buf 2 (2 + body_size)) (\<lambda>body. parse_ready_radio_from T is_command body))"

definition encode_error :: "bytes \<Rightarrow> bytes \<Rightarrow> (nat, NullError) outcome \<times> bytes" where
  "encode_error buf reason =
     (let body_size = 1 + 5 + 1 + length reason in
      if body_size > 255 then (Err ReasonTooLong, buf)
      else
        let total = 2 + body_size in
        if length buf < total then (Err NullError.BufferTooSmall, buf)
        else
          let buf = buf[0 := 0x04];
              buf = buf[1 := of_nat body_size];
              buf = buf[2 := 0x05] in
          copy_then buf 3 8 (ascii ''ERROR'') (\<lambda>buf.
            let buf = buf[8 := of_nat (length reason)] in
            copy_then buf 9 (9 + length reason) reason (\<lambda>buf. (Ok total, buf))))"

section \<open>Encoders\<close>

lemma encode_ready_eq:
  "encode_ready buf = (if length buf < 27 then (Err NullError.BufferTooSmall, buf)
     else (Ok 27, READY_FRAME @ drop 27 buf))"
  by (simp add: encode_ready_def READY_LEN_def READY_FRAME_def written_0 numeral_eq_Suc)

lemma encode_ready_radio_eq:
  "encode_ready_radio buf = (if length buf < 29 then (Err NullError.BufferTooSmall, buf)
     else (Ok 29, RADIO_READY_FRAME @ drop 29 buf))"
  by (simp add: encode_ready_radio_def RADIO_READY_LEN_def RADIO_READY_FRAME_def written_0 numeral_eq_Suc)

text \<open>Command bodies and metadata, as RFC 23 and RFC 37 lay them out.\<close>

definition command_body :: "bytes \<Rightarrow> bytes \<Rightarrow> bytes" where
  "command_body name payload = of_nat (length name) # name @ payload"

definition property :: "bytes \<times> bytes \<Rightarrow> bytes" where
  "property nv = of_nat (length (fst nv)) # fst nv @ be_bytes 4 (length (snd nv)) @ snd nv"

definition ready_body :: "(bytes \<times> bytes) list \<Rightarrow> bytes" where
  "ready_body props = command_body (ascii ''READY'') (concat (map property props))"

definition is_socket_type :: "bytes \<Rightarrow> bool" where
  "is_socket_type name \<longleftrightarrow> eq_ignore_ascii_case name (ascii ''Socket-Type'')"

lemma is_socket_type_length: "is_socket_type name \<Longrightarrow> length name = 11"
  unfolding is_socket_type_def eq_ignore_ascii_case_def by (drule map_eq_imp_length_eq) simp

lemma nine_elements: "length xs = 9 \<Longrightarrow> \<exists>a b c d e f g h i. xs = [a, b, c, d, e, f, g, h, i]"
  by (auto simp: eval_nat_numeral length_Suc_conv)

lemma encode_error_eq:
  "encode_error buf reason =
     (let err = command_body (ascii ''ERROR'') (of_nat (length reason) # reason);
          frame = wire_frame \<lparr>df_more = False, df_is_command = True, df_body = err\<rparr> in
      if 248 < length reason then (Err ReasonTooLong, buf)
      else if length buf < length frame then (Err NullError.BufferTooSmall, buf)
      else (Ok (length frame), frame @ drop (length frame) buf))"
proof (cases "length reason \<le> 248 \<and> 9 + length reason \<le> length buf")
  case True
  then have "length (take 9 buf) = 9" by simp
  then obtain a b c d e f g h i where "take 9 buf = [a, b, c, d, e, f, g, h, i]"
    using nine_elements by blast
  then obtain r where buf: "buf = a # b # c # d # e # f # g # h # i # r"
    by (metis append_Cons append_Nil append_take_drop_id)
  from True show ?thesis
    unfolding buf
    by (simp add: encode_error_def Let_def written_def wire_frame_def frame_header_def flags_byte_def
        command_body_def)
next
  case False
  then show ?thesis
    by (auto simp: encode_error_def Let_def wire_frame_def frame_header_def command_body_def)
qed

section \<open>The metadata loop\<close>

lemma four_bytes: "length xs = 4 \<Longrightarrow> [xs ! 0, xs ! 1, xs ! 2, xs ! 3] = xs"
  by (auto simp: numeral_eq_Suc length_Suc_conv)

lemma metadata_loop_property:
  assumes "length (fst nv) < 256" and "length (snd nv) < 2 ^ 32"
    and "length (pre @ property nv @ rest) < 2 ^ usize_bits T" and "32 \<le> usize_bits T"
  shows "metadata_loop T (pre @ property nv @ rest) (length pre) =
    (if is_socket_type (fst nv) then Ok (snd nv)
     else metadata_loop T (pre @ property nv @ rest) (length pre + length (property nv)))"
proof -
  obtain n v where nv: "nv = (n, v)" by fastforce
  let ?body = "pre @ property (n, v) @ rest"
  let ?p = "length pre + 1 + length n"
  have byte: "unat (?body ! length pre) = length n"
    using assms nv by (simp add: property_def)
  have at_name: "slice ?body (length pre + 1) ?p = (Ok n :: (bytes, NullError) outcome)"
    by (simp add: slice_def nv property_def)
  have "?body ! (?p + i) = be_bytes 4 (length v) ! i" if "i < 4" for i
    using that by (simp add: nv property_def nth_append add.commute)
  from this [of 0] this [of 1] this [of 2] this [of 3]
  have size: "[?body ! ?p, ?body ! (?p + 1), ?body ! (?p + 2), ?body ! (?p + 3)] = be_bytes 4 (length v)"
    using four_bytes [of "be_bytes 4 (length v)"] by simp
  have "(2::nat) ^ 32 \<le> 2 ^ usize_bits T"
    using assms(4) by (intro power_increasing) auto
  then have narrow: "as_usize T (be_nat (be_bytes 4 (length v))) = length v"
    using assms(2) nv by simp
  have ends: "usize_add T (?p + 4) (length v) = (Ok (?p + 4 + length v) :: (nat, NullError) outcome)"
    using assms(3) nv by (intro usize_add_ok) (simp add: property_def)
  have at_val: "slice ?body (?p + 4) (?p + 4 + length v) = (Ok v :: (bytes, NullError) outcome)"
    by (simp add: slice_def nv property_def)
  have fits: "length pre < length ?body" "\<not> length ?body < ?p" "\<not> length ?body < ?p + 4"
    "\<not> length ?body < ?p + 4 + length v"
    by (simp_all add: property_def)
  have next_pos: "length pre + length (property (n, v)) = ?p + 4 + length v"
    by (simp add: property_def)
  have "length n = 11 \<and> eq_ignore_ascii_case n (ascii ''Socket-Type'') \<longleftrightarrow> is_socket_type n"
    using is_socket_type_length [of n] by (auto simp: is_socket_type_def)
  then show ?thesis
    unfolding nv next_pos metadata_loop.simps [of T ?body "length pre"] Let_def
    by (simp only: byte at_name size narrow ends at_val fits fst_conv snd_conv outcome.case
        not_True_eq_False if_False)
qed

text \<open>The loop over well-formed metadata finds the first Socket-Type property.\<close>

lemma metadata_loop_properties:
  assumes "\<forall>nv\<in>set props. length (fst nv) < 256 \<and> length (snd nv) < 2 ^ 32"
    and "length (pre @ concat (map property props)) < 2 ^ usize_bits T" and "32 \<le> usize_bits T"
  shows "metadata_loop T (pre @ concat (map property props)) (length pre) =
    (case find (\<lambda>nv. is_socket_type (fst nv)) props of
       Some nv \<Rightarrow> Ok (snd nv) | None \<Rightarrow> Err WrongSocketType)"
  using assms
proof (induction props arbitrary: pre)
  case Nil
  then show ?case by (simp add: metadata_loop.simps)
next
  case (Cons nv props)
  then show ?case
    using metadata_loop_property [of nv pre "concat (map property props)" T] Cons.IH [of "pre @ property nv"]
    by simp
qed

text \<open>
  On a 64-bit target no index computation of the loop overflows and no slice is out of range.
\<close>

lemma metadata_loop_not_Panic:
  assumes "usize_bits T = 64" and "length body < 2 ^ 63"
  shows "metadata_loop T body pos \<noteq> Panic"
  using assms
proof (induction T body pos rule: metadata_loop.induct)
  case (1 T body pos)
  let ?n = "unat (body ! pos)"
  let ?p = "pos + 1 + ?n"
  let ?v = "as_usize T (be_nat [body ! ?p, body ! (?p + 1), body ! (?p + 2), body ! (?p + 3)])"
  show ?case
  proof (cases "pos < length body \<and> \<not> length body < ?p \<and> \<not> length body < ?p + 4 \<and> \<not> length body < ?p + 4 + ?v")
    case True
    then have fits: "pos < length body" "\<not> length body < ?p" "\<not> length body < ?p + 4"
      "\<not> length body < ?p + 4 + ?v" by auto
    have add: "usize_add T (?p + 4) ?v = (Ok (?p + 4 + ?v) :: (nat, NullError) outcome)"
      using fits "1.prems" by (intro usize_add_ok) simp
    have sl: "slice body (pos + 1) ?p = (Ok (take ?n (drop (pos + 1) body)) :: (bytes, NullError) outcome)"
      "slice body (?p + 4) (?p + 4 + ?v) = (Ok (take ?v (drop (?p + 4) body)) :: (bytes, NullError) outcome)"
      using fits by (simp_all add: slice_def)
    have "metadata_loop T body (?p + 4 + ?v) \<noteq> Panic"
      if "\<not> (?n = 11 \<and> eq_ignore_ascii_case (take ?n (drop (pos + 1) body)) (ascii ''Socket-Type''))"
      using "1.IH" [OF _ refl refl fits(2) sl(1) refl fits(3) refl refl add fits(4) sl(2) that] fits "1.prems"
      by simp
    then show ?thesis
      unfolding metadata_loop.simps [of T body pos] Let_def
      by (simp only: fits sl add outcome.case not_True_eq_False if_False) simp
  next
    case False
    have "be_nat [body ! ?p, body ! (?p + 1), body ! (?p + 2), body ! (?p + 3)] < 2 ^ 32"
      using be_nat_less [of "[body ! ?p, body ! (?p + 1), body ! (?p + 2), body ! (?p + 3)]"] by simp
    then have "?v < 2 ^ 32"
      using "1.prems" by (simp add: as_usize_def)
    then have add: "usize_add T (?p + 4) ?v = (Ok (?p + 4 + ?v) :: (nat, NullError) outcome)"
      if "\<not> length body < ?p + 4"
      using that "1.prems" by (intro usize_add_ok) simp
    from False show ?thesis
      using add by (auto simp: metadata_loop.simps [of T body pos] Let_def slice_def)
  qed
qed

lemma parse_ready_command_ready_body:
  assumes "\<forall>nv\<in>set props. length (fst nv) < 256 \<and> length (snd nv) < 2 ^ 32"
    and "length (ready_body props) < 2 ^ usize_bits T" and "32 \<le> usize_bits T"
  shows "parse_ready_command T True (ready_body props) =
    (case find (\<lambda>nv. is_socket_type (fst nv)) props of
       Some nv \<Rightarrow> Ok (snd nv) | None \<Rightarrow> Err WrongSocketType)"
proof -
  let ?pre = "of_nat 5 # ascii ''READY''"
  have body: "ready_body props = ?pre @ concat (map property props)"
    by (simp add: ready_body_def command_body_def)
  have six: "length ?pre = 6" by simp
  have "parse_ready_command T True (ready_body props) = metadata_loop T (ready_body props) 6"
    unfolding body by (simp add: parse_ready_command_def Let_def)
  then show ?thesis
    using metadata_loop_properties [of props ?pre T] assms unfolding body six by simp
qed

lemma command_name_rejected:
  assumes "length name < 256"
  shows "name = ascii ''ERROR'' \<Longrightarrow> parse_ready_command T True (command_body name payload) = Err NullError.PeerError"
    and "name \<noteq> ascii ''ERROR'' \<Longrightarrow> name \<noteq> ascii ''READY'' \<Longrightarrow>
      parse_ready_command T True (command_body name payload) = Err NullError.UnknownCommand"
  using assms by (auto simp: parse_ready_command_def command_body_def Let_def simp del: ascii_simps)

section \<open>Properties\<close>

text \<open>
  C35. The READY parsers read the metadata as RFC 23 writes it: for any list of well-formed
  properties the first one named Socket-Type, in any case, decides; PUB accepts the values SUB
  and XSUB, RADIO accepts DISH, anything else and a missing property is a wrong socket type.
\<close>

theorem ready_socket_type:
  assumes "\<forall>nv\<in>set props. length (fst nv) < 256 \<and> length (snd nv) < 2 ^ 32"
    and "length (ready_body props) < 2 ^ usize_bits T" and "32 \<le> usize_bits T"
    and "v = map_option snd (find (\<lambda>nv. is_socket_type (fst nv)) props)"
  shows "parse_ready_from T True (ready_body props) =
      (if v = Some (ascii ''SUB'') then Ok Sub
       else if v = Some (ascii ''XSUB'') then Ok Xsub else Err WrongSocketType) \<and>
    parse_ready_radio_from T True (ready_body props) =
      (if v = Some (ascii ''DISH'') then Ok Dish else Err WrongSocketType)"
  using parse_ready_command_ready_body [OF assms(1-3)] assms(4)
  by (auto simp: parse_ready_from_def parse_ready_radio_from_def split: option.splits simp del: ascii_simps)

theorem ready_socket_type_witness:
  "parse_ready_from \<lparr>usize_bits = 32, overflow_checks = True\<rparr> True
     (ready_body [(ascii ''Identity'', [1, 2]), (ascii ''socket-TYPE'', ascii ''XSUB'')]) = Ok Xsub"
proof -
  let ?props = "[(ascii ''Identity'', [1, 2]), (ascii ''socket-TYPE'', ascii ''XSUB'')]"
  have "find (\<lambda>nv. is_socket_type (fst nv)) ?props = Some (ascii ''socket-TYPE'', ascii ''XSUB'')"
    by (simp add: is_socket_type_def eq_ignore_ascii_case_def to_ascii_lowercase_def)
  then have v: "Some (ascii ''XSUB'') = map_option snd (find (\<lambda>nv. is_socket_type (fst nv)) ?props)"
    by (simp del: ascii_simps)
  show ?thesis
    using ready_socket_type [OF _ _ _ v, of "\<lparr>usize_bits = 32, overflow_checks = True\<rparr>"]
    by (simp add: ready_body_def command_body_def property_def)
qed

lemma parse_ready_safe:
  assumes "usize_bits T = 64" and "length body < 2 ^ 63"
  shows "parse_ready_from T is_command body \<noteq> Panic \<and> parse_ready_radio_from T is_command body \<noteq> Panic"
proof -
  have "parse_ready_command T is_command body \<noteq> Panic"
    using metadata_loop_not_Panic [OF assms]
    by (auto simp: parse_ready_command_def and_then_eq_Panic Let_def)
  then show ?thesis
    by (auto simp: parse_ready_from_def parse_ready_radio_from_def and_then_eq_Panic split: if_splits)
qed

text \<open>
  The parsers of raw bytes and of decoded commands are safe on a 64-bit target: whatever the
  peer sends (slices are shorter than 2^63 bytes), no slice index is out of range and no
  addition overflows.
\<close>

lemma ready_never_panics_64:
  assumes "usize_bits T = 64" and "length body < 2 ^ 63"
  shows "parse_ready_from T is_command body \<noteq> Panic \<and> parse_ready_radio_from T is_command body \<noteq> Panic \<and>
    parse_ready T body \<noteq> Panic \<and> parse_ready_radio T body \<noteq> Panic"
  using parse_ready_safe [OF assms(1)] assms(2)
  by (auto simp: parse_ready_def parse_ready_radio_def Let_def and_then_eq_Panic)

text \<open>The 12-byte body of a READY command with one property whose value is said to be 2^32 - 1 bytes long.\<close>

definition overflowing_ready :: bytes where
  "overflowing_ready = command_body (ascii ''READY'') (1 # ascii ''x'' @ [0xFF, 0xFF, 0xFF, 0xFF])"

lemma parse_overflowing_ready:
  assumes "usize_bits T = 32"
  shows "parse_ready_from T True overflowing_ready = Panic \<and>
    parse_ready_radio_from T True overflowing_ready = Panic"
proof -
  have "metadata_loop T overflowing_ready 6 = Panic"
    unfolding overflowing_ready_def command_body_def
    by (subst metadata_loop.simps)
       (simp add: assms Let_def slice_def usize_add_def as_usize_def be_nat_def)
  then have "parse_ready_command T True overflowing_ready = Panic"
    by (simp add: parse_ready_command_def overflowing_ready_def command_body_def Let_def)
  then show ?thesis
    by (simp add: parse_ready_from_def parse_ready_radio_from_def)
qed

text \<open>
  The commands the library sends are well-formed frames of the wire format: the two READY
  constants are command frames whose Socket-Type is PUB and RADIO, and the ERROR encoder writes,
  for a reason of at most 248 bytes, a command frame that the peer's parser takes as the
  rejection of the handshake; a longer reason is refused and nothing is written.
\<close>

lemma sent_commands_well_formed:
  "READY_FRAME = wire_frame \<lparr>df_more = False, df_is_command = True,
       df_body = ready_body [(ascii ''Socket-Type'', ascii ''PUB'')]\<rparr> \<and>
   RADIO_READY_FRAME = wire_frame \<lparr>df_more = False, df_is_command = True,
       df_body = ready_body [(ascii ''Socket-Type'', ascii ''RADIO'')]\<rparr> \<and>
   encode_error buf reason =
     (let err = command_body (ascii ''ERROR'') (of_nat (length reason) # reason);
          frame = wire_frame \<lparr>df_more = False, df_is_command = True, df_body = err\<rparr> in
      if 248 < length reason then (Err ReasonTooLong, buf)
      else if length buf < length frame then (Err NullError.BufferTooSmall, buf)
      else (Ok (length frame), frame @ drop (length frame) buf)) \<and>
   parse_ready_from T True (command_body (ascii ''ERROR'') payload) = Err NullError.PeerError"
proof (intro conjI)
  show "READY_FRAME = wire_frame \<lparr>df_more = False, df_is_command = True,
       df_body = ready_body [(ascii ''Socket-Type'', ascii ''PUB'')]\<rparr>"
    by (simp add: READY_FRAME_def wire_frame_def frame_header_def flags_byte_def ready_body_def
        command_body_def property_def be_bytes_numeral)
  show "RADIO_READY_FRAME = wire_frame \<lparr>df_more = False, df_is_command = True,
       df_body = ready_body [(ascii ''Socket-Type'', ascii ''RADIO'')]\<rparr>"
    by (simp add: RADIO_READY_FRAME_def wire_frame_def frame_header_def flags_byte_def ready_body_def
        command_body_def property_def be_bytes_numeral)
  show "parse_ready_from T True (command_body (ascii ''ERROR'') payload) = Err NullError.PeerError"
    by (simp add: parse_ready_from_def command_name_rejected(1) del: ascii_simps)
  show "encode_error buf reason =
     (let err = command_body (ascii ''ERROR'') (of_nat (length reason) # reason);
          frame = wire_frame \<lparr>df_more = False, df_is_command = True, df_body = err\<rparr> in
      if 248 < length reason then (Err ReasonTooLong, buf)
      else if length buf < length frame then (Err NullError.BufferTooSmall, buf)
      else (Ok (length frame), frame @ drop (length frame) buf))"
    by (rule encode_error_eq)
qed

end
