(* ===== verification/Heapless.thy ===== *)
theory Heapless
  imports Prelude
begin

text \<open>
  The interface of the third-party fixed-capacity vector \<^verbatim>\<open>heapless::Vec\<close> that the two tables are
  built on. The crate's code is not part of the repository, so its operations are a parameter of
  the model, and what the tables rely on is the contract below: the documented behaviour of
  \<^verbatim>\<open>new\<close>, \<^verbatim>\<open>extend_from_slice\<close>, \<^verbatim>\<open>push\<close>, \<^verbatim>\<open>swap_remove\<close> and slice access. \<^verbatim>\<open>'b\<close> is the type of the byte
  vectors \<^verbatim>\<open>Vec<u8, N>\<close> and \<^verbatim>\<open>'v\<close> that of the vectors of byte vectors; the capacity is passed where
  Rust takes it from the type.
\<close>

record ('b, 'v) heapless =
  vec_new :: 'b
  vec_extend_from_slice :: "nat \<Rightarrow> 'b \<Rightarrow> bytes \<Rightarrow> 'b option"
  vec_as_slice :: "'b \<Rightarrow> bytes"
  tab_new :: 'v
  tab_push :: "nat \<Rightarrow> 'v \<Rightarrow> 'b \<Rightarrow> 'v option"
  tab_swap_remove :: "'v \<Rightarrow> nat \<Rightarrow> ('b \<times> 'v) option"
  tab_iter :: "'v \<Rightarrow> 'b list"

text \<open>
  What \<^verbatim>\<open>swap_remove(i)\<close> leaves: the last element moves into position \<^verbatim>\<open>i\<close>.
\<close>

definition swap_removed :: "'a list \<Rightarrow> nat \<Rightarrow> 'a list" where
  "swap_removed xs i = butlast (xs[i := last xs])"

lemma mset_swap_removed:
  assumes "i < length xs"
  shows "mset (swap_removed xs i) = mset xs - {#xs ! i#}"
proof -
  let ?ys = "xs[i := last xs]"
  have ne: "?ys \<noteq> []" using assms by auto
  have "last ?ys = last xs"
    using assms by (subst last_list_update) auto
  with ne have "mset ?ys = add_mset (last xs) (mset (swap_removed xs i))"
    by (metis append_butlast_last_id mset.simps(2) rev.simps(2) mset_rev rev_rev_ident swap_removed_def)
  moreover have "mset ?ys = add_mset (last xs) (mset xs - {#xs ! i#})"
    using assms by (simp add: mset_update)
  ultimately show ?thesis by simp
qed

lemma length_swap_removed [simp]: "length (swap_removed xs i) = length xs - 1"
  by (simp add: swap_removed_def)

lemma set_swap_removed_subset: "i < length xs \<Longrightarrow> set (swap_removed xs i) \<subseteq> set xs"
  using mset_swap_removed [of i xs] by (metis diff_subset_eq_self set_mset_mono set_mset_mset)

locale heapless_contract =
  fixes H :: "('b, 'v) heapless"
  assumes slice_new: "vec_as_slice H (vec_new H) = []"
    and extend_fits: "length (vec_as_slice H v) + length bs \<le> n \<Longrightarrow>
      \<exists>v'. vec_extend_from_slice H n v bs = Some v' \<and> vec_as_slice H v' = vec_as_slice H v @ bs"
    and extend_full: "n < length (vec_as_slice H v) + length bs \<Longrightarrow> vec_extend_from_slice H n v bs = None"
    and iter_new: "tab_iter H (tab_new H) = []"
    and push_fits: "length (tab_iter H t) < n \<Longrightarrow>
      \<exists>t'. tab_push H n t v = Some t' \<and> tab_iter H t' = tab_iter H t @ [v]"
    and push_full: "n \<le> length (tab_iter H t) \<Longrightarrow> tab_push H n t v = None"
    and swap_remove_in: "i < length (tab_iter H t) \<Longrightarrow>
      \<exists>t'. tab_swap_remove H t i = Some (tab_iter H t ! i, t') \<and>
        tab_iter H t' = swap_removed (tab_iter H t) i"

text \<open>
  The contract can be met: lists with the capacity checked at each insertion. The properties of
  the components are stated for any implementation and instantiated here for concrete runs.
\<close>

definition list_heapless :: "(bytes, bytes list) heapless" where
  "list_heapless =
     \<lparr>vec_new = [],
      vec_extend_from_slice = (\<lambda>n v bs. if length v + length bs \<le> n then Some (v @ bs) else None),
      vec_as_slice = (\<lambda>v. v),
      tab_new = [],
      tab_push = (\<lambda>n t v. if length t < n then Some (t @ [v]) else None),
      tab_swap_remove = (\<lambda>t i. if i < length t then Some (t ! i, swap_removed t i) else None),
      tab_iter = (\<lambda>t. t)\<rparr>"

interpretation list_vec: heapless_contract list_heapless
  by unfold_locales (auto simp: list_heapless_def)

end
