(* ===== verification/Peer_Filter.thy ===== *)
theory Peer_Filter
  imports Prelude
begin

text \<open>
  What a connection needs of its filter table, whether it stores subscriptions or groups: adding
  and removing an entry never panics and keeps the table's invariant, and \<^verbatim>\<open>contents\<close> is the
  abstract value the operations work on. A peer drives the table with a list of requests.
\<close>

datatype filter_op = Add bytes | Remove bytes

fun run_ops :: "('t \<Rightarrow> bytes \<Rightarrow> (unit, 'e) outcome \<times> 't) \<Rightarrow> ('t \<Rightarrow> bytes \<Rightarrow> (unit, 'e) outcome \<times> 't) \<Rightarrow>
    't \<Rightarrow> filter_op list \<Rightarrow> (unit, 'e) outcome list \<times> 't" where
  "run_ops add remove t [] = ([], t)"
| "run_ops add remove t (Add p # ops) =
     (case add t p of (r, t') \<Rightarrow> case run_ops add remove t' ops of (rs, t'') \<Rightarrow> (r # rs, t''))"
| "run_ops add remove t (Remove p # ops) =
     (case remove t p of (r, t') \<Rightarrow> case run_ops add remove t' ops of (rs, t'') \<Rightarrow> (r # rs, t''))"

locale peer_filter =
  fixes inv :: "'t \<Rightarrow> bool"
    and add remove :: "'t \<Rightarrow> bytes \<Rightarrow> (unit, 'e) outcome \<times> 't"
    and contents :: "'t \<Rightarrow> 'c"
    and add_spec remove_spec :: "'c \<Rightarrow> bytes \<Rightarrow> (unit, 'e) outcome \<times> 'c"
  assumes add_inv: "inv t \<Longrightarrow> fst (add t p) \<noteq> Panic \<and> inv (snd (add t p))"
    and remove_inv: "inv t \<Longrightarrow> fst (remove t p) \<noteq> Panic \<and> inv (snd (remove t p))"
    and add_refines: "inv t \<Longrightarrow> map_prod id contents (add t p) = add_spec (contents t) p"
    and remove_refines: "inv t \<Longrightarrow> map_prod id contents (remove t p) = remove_spec (contents t) p"
begin

text \<open>A whole run of requests is safe and refines the run of the abstract operations.\<close>

lemma run_safe:
  "inv t \<Longrightarrow> run_ops add remove t ops = (rs, t') \<Longrightarrow> inv t' \<and> Panic \<notin> set rs"
proof (induction ops arbitrary: t rs)
  case Nil
  then show ?case by simp
next
  case (Cons op ops)
  show ?case
  proof (cases op)
    case (Add p)
    with Cons.prems Cons.IH [of "snd (add t p)"] add_inv [of t p] show ?thesis
      by (auto split: prod.splits)
  next
    case (Remove p)
    with Cons.prems Cons.IH [of "snd (remove t p)"] remove_inv [of t p] show ?thesis
      by (auto split: prod.splits)
  qed
qed

lemma run_refines:
  "inv t \<Longrightarrow> map_prod id contents (run_ops add remove t ops) = run_ops add_spec remove_spec (contents t) ops"
proof (induction ops arbitrary: t)
  case Nil
  then show ?case by simp
next
  case (Cons op ops)
  show ?case
  proof (cases op)
    case (Add p)
    obtain r t' where rt: "add t p = (r, t')" by fastforce
    with Cons.prems add_inv [of t p] add_refines [of t p] Cons.IH [of t'] show ?thesis
      by (auto simp: Add split: prod.splits)
  next
    case (Remove p)
    obtain r t' where rt: "remove t p = (r, t')" by fastforce
    with Cons.prems remove_inv [of t p] remove_refines [of t p] Cons.IH [of t'] show ?thesis
      by (auto simp: Remove split: prod.splits)
  qed
qed

end

end
