(* ===== verification/Sub_Table.thy ===== *)
theory Sub_Table
  imports Heapless Peer_Filter
begin

text \<open>
  The subscription table of a PUB connection (\<^verbatim>\<open>src/sub_table.rs\<close>): a bounded list of prefixes, with
  duplicates, and prefix matching. Its abstraction is the multiset of the stored prefixes.
\<close>

datatype SubError = TableFull | PrefixTooLong

record 'v SubTable =
  st_entries :: 'v

definition new_sub_table :: "('b, 'v) heapless \<Rightarrow> 'v SubTable" where
  "new_sub_table H = \<lparr>st_entries = tab_new H\<rparr>"

definition subscribe :: "('b, 'v) heapless \<Rightarrow> nat \<Rightarrow> nat \<Rightarrow> 'v SubTable \<Rightarrow> bytes \<Rightarrow>
    (unit, SubError) outcome \<times> 'v SubTable" where
  "subscribe H MAX_ENTRIES MAX_PREFIX_LEN t pfx =
     (if length pfx > MAX_PREFIX_LEN then (Err PrefixTooLong, t)
      else case vec_extend_from_slice H MAX_PREFIX_LEN (vec_new H) pfx of
        None \<Rightarrow> (Panic, t)
      | Some v \<Rightarrow>
          (case tab_push H MAX_ENTRIES (st_entries t) v of
             None \<Rightarrow> (Err TableFull, t)
           | Some entries \<Rightarrow> (Ok (), t\<lparr>st_entries := entries\<rparr>)))"

definition cancel :: "('b, 'v) heapless \<Rightarrow> 'v SubTable \<Rightarrow> bytes \<Rightarrow> (unit, SubError) outcome \<times> 'v SubTable" where
  "cancel H t pfx =
     (case position (\<lambda>e. vec_as_slice H e = pfx) (tab_iter H (st_entries t)) of
        None \<Rightarrow> (Ok (), t)
      | Some pos \<Rightarrow>
          (case tab_swap_remove H (st_entries t) pos of
             None \<Rightarrow> (Panic, t)
           | Some (_, entries) \<Rightarrow> (Ok (), t\<lparr>st_entries := entries\<rparr>)))"

definition sub_matches :: "('b, 'v) heapless \<Rightarrow> 'v SubTable \<Rightarrow> bytes \<Rightarrow> bool" where
  "sub_matches H t topic \<longleftrightarrow> list_ex (\<lambda>e. starts_with topic (vec_as_slice H e)) (tab_iter H (st_entries t))"

definition sub_len :: "('b, 'v) heapless \<Rightarrow> 'v SubTable \<Rightarrow> nat" where
  "sub_len H t = length (tab_iter H (st_entries t))"

definition sub_is_empty :: "('b, 'v) heapless \<Rightarrow> 'v SubTable \<Rightarrow> bool" where
  "sub_is_empty H t \<longleftrightarrow> tab_iter H (st_entries t) = []"

section \<open>The table as a multiset of prefixes\<close>

definition subs :: "('b, 'v) heapless \<Rightarrow> 'v SubTable \<Rightarrow> bytes multiset" where
  "subs H t = mset (map (vec_as_slice H) (tab_iter H (st_entries t)))"

definition sub_inv :: "('b, 'v) heapless \<Rightarrow> nat \<Rightarrow> nat \<Rightarrow> 'v SubTable \<Rightarrow> bool" where
  "sub_inv H MAX_ENTRIES MAX_PREFIX_LEN t \<longleftrightarrow>
     size (subs H t) \<le> MAX_ENTRIES \<and> (\<forall>p\<in>#subs H t. length p \<le> MAX_PREFIX_LEN)"

text \<open>The abstract operations.\<close>

definition subscribe_spec :: "nat \<Rightarrow> nat \<Rightarrow> bytes multiset \<Rightarrow> bytes \<Rightarrow> (unit, SubError) outcome \<times> bytes multiset" where
  "subscribe_spec MAX_ENTRIES MAX_PREFIX_LEN S pfx =
     (if MAX_PREFIX_LEN < length pfx then (Err PrefixTooLong, S)
      else if MAX_ENTRIES \<le> size S then (Err TableFull, S)
      else (Ok (), S + {#pfx#}))"

definition cancel_spec :: "bytes multiset \<Rightarrow> bytes \<Rightarrow> (unit, SubError) outcome \<times> bytes multiset" where
  "cancel_spec S pfx = (Ok (), S - {#pfx#})"

definition matches_spec :: "bytes multiset \<Rightarrow> bytes \<Rightarrow> bool" where
  "matches_spec S topic \<longleftrightarrow> (\<exists>p\<in>#S. prefix p topic)"

context heapless_contract begin

lemma new_sub_table_subs: "subs H (new_sub_table H) = {#}"
  by (simp add: subs_def new_sub_table_def iter_new)

lemma subscribe_refines:
  "map_prod id (subs H) (subscribe H n l t p) = subscribe_spec n l (subs H t) p"
proof (cases "length p \<le> l")
  case True
  then obtain v where v: "vec_extend_from_slice H l (vec_new H) p = Some v" "vec_as_slice H v = p"
    using extend_fits [of "vec_new H" p l] by (auto simp: slice_new)
  show ?thesis
  proof (cases "length (tab_iter H (st_entries t)) < n")
    case room: True
    then obtain es where "tab_push H n (st_entries t) v = Some es"
      "tab_iter H es = tab_iter H (st_entries t) @ [v]"
      using push_fits by blast
    with True v room show ?thesis by (simp add: subscribe_def subscribe_spec_def subs_def)
  next
    case False
    with True v push_full [of n "st_entries t" v] show ?thesis
      by (simp add: subscribe_def subscribe_spec_def subs_def not_less)
  qed
next
  case False
  then show ?thesis by (simp add: subscribe_def subscribe_spec_def)
qed

lemma cancel_refines: "map_prod id (subs H) (cancel H t p) = cancel_spec (subs H t) p"
proof (cases "position (\<lambda>e. vec_as_slice H e = p) (tab_iter H (st_entries t))")
  case None
  then have "p \<notin># subs H t" by (auto simp: subs_def position_None)
  with None show ?thesis by (simp add: cancel_def cancel_spec_def)
next
  case (Some i)
  then have i: "i < length (tab_iter H (st_entries t))" "vec_as_slice H (tab_iter H (st_entries t) ! i) = p"
    by (auto dest: position_SomeD)
  then obtain es where es: "tab_swap_remove H (st_entries t) i = Some (tab_iter H (st_entries t) ! i, es)"
    "tab_iter H es = swap_removed (tab_iter H (st_entries t)) i"
    using swap_remove_in by blast
  have "subs H (t\<lparr>st_entries := es\<rparr>) = subs H t - {#p#}"
    using i es mset_swap_removed [of i "tab_iter H (st_entries t)"]
    by (simp add: subs_def image_mset_Diff)
  with Some es show ?thesis by (simp add: cancel_def cancel_spec_def)
qed

lemma sub_matches_refines: "sub_matches H t topic = matches_spec (subs H t) topic"
  by (auto simp: sub_matches_def matches_spec_def subs_def list_ex_iff starts_with_iff_prefix)

lemma sub_len_refines: "sub_len H t = size (subs H t)" "sub_is_empty H t \<longleftrightarrow> subs H t = {#}"
  by (auto simp: sub_len_def sub_is_empty_def subs_def)

lemma subscribe_safe:
  assumes "sub_inv H n l t"
  shows "fst (subscribe H n l t p) \<noteq> Panic \<and> sub_inv H n l (snd (subscribe H n l t p))"
proof -
  have "fst (subscribe H n l t p) = fst (subscribe_spec n l (subs H t) p)"
    "subs H (snd (subscribe H n l t p)) = snd (subscribe_spec n l (subs H t) p)"
    using subscribe_refines [of n l t p] by (metis fst_map_prod id_apply, metis snd_map_prod)
  with assms show ?thesis by (auto simp: subscribe_spec_def sub_inv_def)
qed

lemma cancel_safe:
  assumes "sub_inv H n l t"
  shows "fst (cancel H t p) \<noteq> Panic \<and> sub_inv H n l (snd (cancel H t p))"
proof -
  have "fst (cancel H t p) = Ok ()" "subs H (snd (cancel H t p)) = subs H t - {#p#}"
    using cancel_refines [of t p] unfolding cancel_spec_def
    by (metis fst_conv fst_map_prod id_apply, metis snd_conv snd_map_prod)
  with assms show ?thesis
    by (auto simp: sub_inv_def dest: in_diffD intro: le_trans [OF size_mset_mono [OF diff_subset_eq_self]])
qed

end

sublocale heapless_contract \<subseteq> sub:
  peer_filter "sub_inv H n l" "subscribe H n l" "cancel H" "subs H" "subscribe_spec n l" cancel_spec
  for n l
  by unfold_locales (simp_all add: subscribe_safe cancel_safe subscribe_refines cancel_refines)

context heapless_contract begin

lemmas sub_run_safe = sub.run_safe
lemmas sub_run_refines = sub.run_refines

end

interpretation list_subs:
  peer_filter "sub_inv list_heapless n l" "subscribe list_heapless n l" "cancel list_heapless"
    "subs list_heapless" "subscribe_spec n l" cancel_spec for n l
  by (rule list_vec.sub.peer_filter_axioms)

section \<open>Properties\<close>

text \<open>
  C39. The subscription table implements a bounded multiset of prefixes: from an empty table, any
  sequence of subscribe and cancel requests gives the results and the contents of the abstract
  multiset (too long, full, or one more copy; one copy less), a topic matches exactly when some
  stored prefix is a prefix of it, and \<^verbatim>\<open>len\<close> and \<^verbatim>\<open>is_empty\<close> count with multiplicity.
\<close>

theorem sub_table_refines_multiset:
  assumes "heapless_contract H"
    and run: "run_ops (subscribe H n l) (cancel H) (new_sub_table H) ops = (rs, t)"
    and spec: "run_ops (subscribe_spec n l) cancel_spec {#} ops = (rs', S)"
  shows "rs = rs' \<and> subs H t = S \<and> (\<forall>topic. sub_matches H t topic \<longleftrightarrow> (\<exists>p\<in>#S. prefix p topic)) \<and>
    sub_len H t = size S \<and> (sub_is_empty H t \<longleftrightarrow> S = {#})"
proof -
  have "subs H (new_sub_table H) = {#}"
    by (rule heapless_contract.new_sub_table_subs [OF assms(1)])
  then have "map_prod id (subs H) (rs, t) = (rs', S)"
    using heapless_contract.sub_run_refines [OF assms(1), of n l "new_sub_table H" ops] run spec
    by (simp add: sub_inv_def)
  then show ?thesis
    by (auto simp: heapless_contract.sub_matches_refines [OF assms(1)] matches_spec_def
        heapless_contract.sub_len_refines [OF assms(1)])
qed

theorem sub_table_refines_multiset_witness:
  "\<exists>t. run_ops (subscribe list_heapless 2 3) (cancel list_heapless) (new_sub_table list_heapless)
      [Add [1, 2], Add [1, 2], Add [7], Remove [1, 2], Add [1, 2, 3, 4]]
     = ([Ok (), Ok (), Err TableFull, Ok (), Err PrefixTooLong], t) \<and>
    sub_matches list_heapless t [1, 2, 9] \<and> \<not> sub_matches list_heapless t [7] \<and> sub_len list_heapless t = 1"
proof -
  let ?ops = "[Add [1, 2], Add [1, 2], Add [7], Remove [1, 2], Add [1, 2, 3, 4]]"
  obtain rs t where run: "run_ops (subscribe list_heapless 2 3) (cancel list_heapless)
      (new_sub_table list_heapless) ?ops = (rs, t)"
    by fastforce
  have spec: "run_ops (subscribe_spec 2 3) cancel_spec {#} ?ops
      = ([Ok (), Ok (), Err TableFull, Ok (), Err PrefixTooLong], {#[1, 2]#})"
    by (simp add: subscribe_spec_def cancel_spec_def)
  from sub_table_refines_multiset [OF list_vec.heapless_contract_axioms run spec] run show ?thesis
    by auto
qed

text \<open>
  Bounded and panic-free: whatever a peer requests, the table never holds more than its
  capacity nor a prefix longer than its limit, and no request panics.
\<close>

lemma sub_table_bounded:
  assumes "heapless_contract H"
    and "run_ops (subscribe H n l) (cancel H) (new_sub_table H) ops = (rs, t)"
  shows "Panic \<notin> set rs \<and> sub_len H t \<le> n \<and> (\<forall>p\<in>#subs H t. length p \<le> l)"
proof -
  have "sub_inv H n l (new_sub_table H)"
    by (simp add: sub_inv_def heapless_contract.new_sub_table_subs [OF assms(1)])
  then have "sub_inv H n l t \<and> Panic \<notin> set rs"
    using heapless_contract.sub_run_safe [OF assms(1)] assms(2) by blast
  then show ?thesis
    by (simp add: sub_inv_def heapless_contract.sub_len_refines [OF assms(1)])
qed

lemma sub_table_bounded_witness:
  "sub_len list_heapless (snd (run_ops (subscribe list_heapless 1 3) (cancel list_heapless)
      (new_sub_table list_heapless) [Add [1], Add [2], Add [3]])) \<le> 1"
  using sub_table_bounded [OF list_vec.heapless_contract_axioms prod.collapse [symmetric]] by blast

end
