(* ===== verification/Group_Table.thy ===== *)
theory Group_Table
  imports Heapless Peer_Filter
begin

text \<open>
  The group table of a RADIO connection (\<^verbatim>\<open>src/group_table.rs\<close>): a bounded list of group names without
  duplicates, and exact matching. Its abstraction is the set of the joined groups.
\<close>

datatype GroupError = TableFull | GroupTooLong

record 'v GroupTable =
  gt_entries :: 'v

definition new_group_table :: "('b, 'v) heapless \<Rightarrow> 'v GroupTable" where
  "new_group_table H = \<lparr>gt_entries = tab_new H\<rparr>"

definition join :: "('b, 'v) heapless \<Rightarrow> nat \<Rightarrow> nat \<Rightarrow> 'v GroupTable \<Rightarrow> bytes \<Rightarrow>
    (unit, GroupError) outcome \<times> 'v GroupTable" where
  "join H MAX_ENTRIES MAX_GROUP_LEN t grp =
     (if length grp > MAX_GROUP_LEN then (Err GroupTooLong, t)
      else if list_ex (\<lambda>entry. vec_as_slice H entry = grp) (tab_iter H (gt_entries t)) then (Ok (), t)
      else case vec_extend_from_slice H MAX_GROUP_LEN (vec_new H) grp of
        None \<Rightarrow> (Panic, t)
      | Some v \<Rightarrow>
          (case tab_push H MAX_ENTRIES (gt_entries t) v of
             None \<Rightarrow> (Err GroupError.TableFull, t)
           | Some entries \<Rightarrow> (Ok (), t\<lparr>gt_entries := entries\<rparr>)))"

definition leave :: "('b, 'v) heapless \<Rightarrow> 'v GroupTable \<Rightarrow> bytes \<Rightarrow> (unit, GroupError) outcome \<times> 'v GroupTable" where
  "leave H t grp =
     (case position (\<lambda>e. vec_as_slice H e = grp) (tab_iter H (gt_entries t)) of
        None \<Rightarrow> (Ok (), t)
      | Some pos \<Rightarrow>
          (case tab_swap_remove H (gt_entries t) pos of
             None \<Rightarrow> (Panic, t)
           | Some (_, entries) \<Rightarrow> (Ok (), t\<lparr>gt_entries := entries\<rparr>)))"

definition group_matches :: "('b, 'v) heapless \<Rightarrow> 'v GroupTable \<Rightarrow> bytes \<Rightarrow> bool" where
  "group_matches H t grp \<longleftrightarrow> list_ex (\<lambda>e. vec_as_slice H e = grp) (tab_iter H (gt_entries t))"

definition group_len :: "('b, 'v) heapless \<Rightarrow> 'v GroupTable \<Rightarrow> nat" where
  "group_len H t = length (tab_iter H (gt_entries t))"

definition group_is_empty :: "('b, 'v) heapless \<Rightarrow> 'v GroupTable \<Rightarrow> bool" where
  "group_is_empty H t \<longleftrightarrow> tab_iter H (gt_entries t) = []"

section \<open>The table as a set of groups\<close>

definition group_list :: "('b, 'v) heapless \<Rightarrow> 'v GroupTable \<Rightarrow> bytes list" where
  "group_list H t = map (vec_as_slice H) (tab_iter H (gt_entries t))"

definition groups :: "('b, 'v) heapless \<Rightarrow> 'v GroupTable \<Rightarrow> bytes set" where
  "groups H t = set (group_list H t)"

definition group_inv :: "('b, 'v) heapless \<Rightarrow> nat \<Rightarrow> nat \<Rightarrow> 'v GroupTable \<Rightarrow> bool" where
  "group_inv H MAX_ENTRIES MAX_GROUP_LEN t \<longleftrightarrow>
     distinct (group_list H t) \<and> length (group_list H t) \<le> MAX_ENTRIES \<and>
     (\<forall>g\<in>groups H t. length g \<le> MAX_GROUP_LEN)"

definition join_spec :: "nat \<Rightarrow> nat \<Rightarrow> bytes set \<Rightarrow> bytes \<Rightarrow> (unit, GroupError) outcome \<times> bytes set" where
  "join_spec MAX_ENTRIES MAX_GROUP_LEN G grp =
     (if MAX_GROUP_LEN < length grp then (Err GroupTooLong, G)
      else if grp \<in> G then (Ok (), G)
      else if MAX_ENTRIES \<le> card G then (Err GroupError.TableFull, G)
      else (Ok (), insert grp G))"

definition leave_spec :: "bytes set \<Rightarrow> bytes \<Rightarrow> (unit, GroupError) outcome \<times> bytes set" where
  "leave_spec G grp = (Ok (), G - {grp})"

lemma group_card: "group_inv H n l t \<Longrightarrow> length (group_list H t) = card (groups H t)"
  by (simp add: group_inv_def groups_def distinct_card)

lemma distinct_iff_count: "distinct xs \<longleftrightarrow> (\<forall>x. count (mset xs) x \<le> 1)"
proof
  assume "distinct xs"
  then show "\<forall>x. count (mset xs) x \<le> 1" by (simp add: distinct_count_atmost_1)
next
  show "\<forall>x. count (mset xs) x \<le> 1 \<Longrightarrow> distinct xs"
  proof (induction xs)
    case (Cons y ys)
    from Cons.prems have "count (mset ys) y = 0" by (auto dest: spec [of _ y])
    moreover have "\<forall>x. count (mset ys) x \<le> 1"
      using Cons.prems by (metis count_add_mset le_SucI mset.simps(2) not_less_eq_eq)
    ultimately show ?case using Cons.IH by (simp add: count_eq_zero_iff)
  qed simp
qed

context heapless_contract begin

lemma new_group_table_groups: "group_list H (new_group_table H) = []"
  by (simp add: group_list_def new_group_table_def iter_new)

text \<open>The effect of \<^verbatim>\<open>join\<close> and \<^verbatim>\<open>leave\<close> on the list of names.\<close>

lemma join_cases:
  "(l < length g \<longrightarrow> join H n l t g = (Err GroupTooLong, t)) \<and>
   (length g \<le> l \<and> g \<in> groups H t \<longrightarrow> join H n l t g = (Ok (), t)) \<and>
   (length g \<le> l \<and> g \<notin> groups H t \<and> n \<le> length (group_list H t) \<longrightarrow>
      join H n l t g = (Err GroupError.TableFull, t)) \<and>
   (length g \<le> l \<and> g \<notin> groups H t \<and> length (group_list H t) < n \<longrightarrow>
      fst (join H n l t g) = Ok () \<and> group_list H (snd (join H n l t g)) = group_list H t @ [g])"
proof (cases "length g \<le> l \<and> g \<notin> groups H t")
  case False
  then show ?thesis
    by (auto simp: join_def groups_def group_list_def list_ex_iff)
next
  case True
  then have new: "\<not> list_ex (\<lambda>entry. vec_as_slice H entry = g) (tab_iter H (gt_entries t))"
    by (auto simp: list_ex_iff groups_def group_list_def)
  from True obtain v where v: "vec_extend_from_slice H l (vec_new H) g = Some v" "vec_as_slice H v = g"
    using extend_fits [of "vec_new H" g l] by (auto simp: slice_new)
  show ?thesis
  proof (cases "length (tab_iter H (gt_entries t)) < n")
    case room: True
    then obtain es where "tab_push H n (gt_entries t) v = Some es"
      "tab_iter H es = tab_iter H (gt_entries t) @ [v]"
      using push_fits by blast
    with True v room new show ?thesis by (simp add: join_def group_list_def)
  next
    case False
    with True v new push_full [of n "gt_entries t" v] show ?thesis
      by (simp add: join_def group_list_def not_less)
  qed
qed

lemma leave_cases:
  "fst (leave H t g) = Ok () \<and> mset (group_list H (snd (leave H t g))) = mset (group_list H t) - {#g#}"
proof (cases "position (\<lambda>e. vec_as_slice H e = g) (tab_iter H (gt_entries t))")
  case None
  then have "g \<notin># mset (group_list H t)" by (auto simp: group_list_def position_None)
  with None show ?thesis by (simp add: leave_def)
next
  case (Some i)
  then have i: "i < length (tab_iter H (gt_entries t))" "vec_as_slice H (tab_iter H (gt_entries t) ! i) = g"
    by (auto dest: position_SomeD)
  then obtain es where es: "tab_swap_remove H (gt_entries t) i = Some (tab_iter H (gt_entries t) ! i, es)"
    "tab_iter H es = swap_removed (tab_iter H (gt_entries t)) i"
    using swap_remove_in by blast
  have "mset (group_list H (t\<lparr>gt_entries := es\<rparr>)) = mset (group_list H t) - {#g#}"
    using i es mset_swap_removed [of i "tab_iter H (gt_entries t)"]
    by (simp add: group_list_def image_mset_Diff)
  with Some es show ?thesis by (simp add: leave_def)
qed

lemma group_matches_refines: "group_matches H t g \<longleftrightarrow> g \<in> groups H t"
  by (auto simp: group_matches_def groups_def group_list_def list_ex_iff)

lemma join_safe:
  assumes "group_inv H n l t"
  shows "fst (join H n l t g) \<noteq> Panic \<and> group_inv H n l (snd (join H n l t g))"
  using assms join_cases [of l g n t]
  by (cases "l < length g"; cases "g \<in> groups H t"; cases "length (group_list H t) < n")
     (auto simp: group_inv_def groups_def not_less)

lemma leave_safe:
  assumes "group_inv H n l t"
  shows "fst (leave H t g) \<noteq> Panic \<and> group_inv H n l (snd (leave H t g))"
proof -
  let ?xs = "group_list H t" and ?ys = "group_list H (snd (leave H t g))"
  have ys: "mset ?ys = mset ?xs - {#g#}" and ok: "fst (leave H t g) = Ok ()"
    using leave_cases by auto
  then have "mset ?ys \<subseteq># mset ?xs" by simp
  then have "set ?ys \<subseteq> set ?xs" "length ?ys \<le> length ?xs"
    by (metis set_mset_mono set_mset_mset, metis size_mset size_mset_mono)
  moreover have "distinct ?ys"
    using assms ys by (auto simp: group_inv_def distinct_iff_count intro: le_trans [OF diff_le_self])
  ultimately show ?thesis
    using assms ok by (auto simp: group_inv_def groups_def)
qed

lemma join_refines:
  assumes "group_inv H n l t"
  shows "map_prod id (groups H) (join H n l t g) = join_spec n l (groups H t) g"
proof -
  have "map_prod id (groups H) (join H n l t g) = (fst (join H n l t g), groups H (snd (join H n l t g)))"
    by (simp add: map_prod_def split_beta)
  then show ?thesis
    using join_cases [of l g n t] group_card [OF assms]
    by (cases "l < length g"; cases "g \<in> groups H t"; cases "length (group_list H t) < n")
       (auto simp: join_spec_def groups_def not_less)
qed

lemma leave_refines:
  assumes "group_inv H n l t"
  shows "map_prod id (groups H) (leave H t g) = leave_spec (groups H t) g"
proof -
  let ?xs = "group_list H t" and ?ys = "group_list H (snd (leave H t g))"
  have ys: "mset ?ys = mset ?xs - {#g#}" and ok: "fst (leave H t g) = Ok ()"
    using leave_cases by auto
  have "set ?ys = set ?xs - {g}"
  proof (rule set_eqI)
    fix x
    have "x \<in> set ?ys \<longleftrightarrow> 0 < count (mset ?xs - {#g#}) x"
      by (simp flip: ys)
    moreover have "count (mset ?xs) g \<le> 1"
      using assms by (simp add: group_inv_def distinct_iff_count)
    ultimately show "x \<in> set ?ys \<longleftrightarrow> x \<in> set ?xs - {g}"
      by (cases "x = g") auto
  qed
  then show ?thesis
    using ok by (simp add: leave_spec_def groups_def map_prod_def split_beta)
qed

end

sublocale heapless_contract \<subseteq> grp:
  peer_filter "group_inv H n l" "join H n l" "leave H" "groups H" "join_spec n l" leave_spec
  for n l
  by unfold_locales (simp_all add: join_safe leave_safe join_refines leave_refines)

context heapless_contract begin

lemmas grp_run_safe = grp.run_safe
lemmas grp_run_refines = grp.run_refines

end

interpretation list_groups:
  peer_filter "group_inv list_heapless n l" "join list_heapless n l" "leave list_heapless"
    "groups list_heapless" "join_spec n l" leave_spec for n l
  by (rule list_vec.grp.peer_filter_axioms)

section \<open>Properties\<close>

text \<open>
  C40. The group table implements a bounded set: from an empty table, any sequence of join and
  leave requests gives the results and the contents of the abstract set (a repeated join succeeds
  and changes nothing, one leave undoes any number of joins), a group matches exactly when it is
  a member, and \<^verbatim>\<open>len\<close> is the number of groups.
\<close>

theorem group_table_refines_set:
  assumes "heapless_contract H"
    and run: "run_ops (join H n l) (leave H) (new_group_table H) ops = (rs, t)"
    and spec: "run_ops (join_spec n l) leave_spec {} ops = (rs', G)"
  shows "rs = rs' \<and> groups H t = G \<and> (\<forall>g. group_matches H t g \<longleftrightarrow> g \<in> G) \<and>
    group_len H t = card G \<and> group_len H t \<le> n \<and> Panic \<notin> set rs \<and> (group_is_empty H t \<longleftrightarrow> G = {})"
proof -
  have new: "group_list H (new_group_table H) = []"
    by (rule heapless_contract.new_group_table_groups [OF assms(1)])
  then have inv: "group_inv H n l (new_group_table H)" by (simp add: group_inv_def groups_def)
  have empty: "groups H (new_group_table H) = {}" using new by (simp add: groups_def)
  have "map_prod id (groups H) (rs, t) = (rs', G)"
    using heapless_contract.grp_run_refines [OF assms(1) inv, of ops] run spec
    by (simp add: empty)
  moreover have "group_inv H n l t \<and> Panic \<notin> set rs"
    using heapless_contract.grp_run_safe [OF assms(1) inv run] .
  moreover have "group_len H t = length (group_list H t)" "group_is_empty H t \<longleftrightarrow> groups H t = {}"
    by (simp_all add: group_len_def group_is_empty_def group_list_def groups_def)
  ultimately show ?thesis
    using group_card [of H n l t]
    by (auto simp: heapless_contract.group_matches_refines [OF assms(1)] group_inv_def)
qed

theorem group_table_refines_set_witness:
  "\<exists>t. run_ops (join list_heapless 1 3) (leave list_heapless) (new_group_table list_heapless)
      [Add [1, 2], Add [1, 2], Add [7], Remove [1, 2], Add [1, 2, 3, 4]]
     = ([Ok (), Ok (), Err GroupError.TableFull, Ok (), Err GroupTooLong], t) \<and>
    \<not> group_matches list_heapless t [1, 2] \<and> group_len list_heapless t = 0"
proof -
  let ?ops = "[Add [1, 2], Add [1, 2], Add [7], Remove [1, 2], Add [1, 2, 3, 4]]"
  obtain rs t where run: "run_ops (join list_heapless 1 3) (leave list_heapless)
      (new_group_table list_heapless) ?ops = (rs, t)"
    by fastforce
  have spec: "run_ops (join_spec 1 3) leave_spec {} ?ops
      = ([Ok (), Ok (), Err GroupError.TableFull, Ok (), Err GroupTooLong], {})"
    by (simp add: join_spec_def leave_spec_def)
  from group_table_refines_set [OF list_vec.heapless_contract_axioms run spec] run show ?thesis
    by auto
qed

end
