(* ===== verification/Link.thy ===== *)
theory Link
  imports Frame_Stream Greeting Plain_Mechanism Null_Mechanism Heapless
begin

text \<open>
  What the two connection types have in common: their state and error enumerations, which
  \<^verbatim>\<open>src/connection.rs\<close> and \<^verbatim>\<open>src/radio_connection.rs\<close> declare with the same variants, and the fields
  of the structs other than the filter table. A connection is this record extended by its table.
\<close>

datatype State = Greeting | Ready | PlainHello | PlainReady | Established | Failed

datatype ConnError =
    WrongState
  | BufferTooSmall
  | IoError nat
  | GreetingError GreetingError
  | NullError NullError
  | PlainError PlainError
  | FrameError FrameError
  | DecodeError DecodeError

fun is_io_error :: "ConnError \<Rightarrow> bool" where
  "is_io_error (IoError _) = True"
| "is_io_error _ = False"

record link =
  state :: State
  our_greeting_sent :: bool
  peer_greeting_received :: bool
  peer_version_minor :: byte
  our_ready_sent :: bool
  our_welcome_sent :: bool
  mechanism :: Mechanism
  greeting_buf :: bytes
  greeting_pos :: nat
  frame_decoder :: FrameDecoder
  pending_pong :: "(bytes \<times> nat) option"
  auth :: auth_check

text \<open>
  What a build fixes: the target, the implementation of \<^verbatim>\<open>heapless::Vec\<close> and the const generics.
\<close>

record ('b, 'v) build =
  target_of :: target
  heapless_of :: "('b, 'v) heapless"
  FRAME_CAP :: nat

text \<open>A fallible pure call in a function that has a state \<^verbatim>\<open>s\<close>: the \<^verbatim>\<open>?\<close> operator, and the panic.\<close>

definition attempt :: "('a, 'e) outcome \<Rightarrow> 's \<Rightarrow> ('a \<Rightarrow> ('b, 'e) outcome \<times> 's) \<Rightarrow> ('b, 'e) outcome \<times> 's" where
  "attempt r s k = (case r of Ok a \<Rightarrow> k a | Err e \<Rightarrow> (Err e, s) | Panic \<Rightarrow> (Panic, s))"

lemma attempt_simps [simp]:
  "attempt (Ok a) s k = k a" "attempt (Err e) s k = (Err e, s)" "attempt Panic s k = (Panic, s)"
  by (simp_all add: attempt_def)

text \<open>\<^verbatim>\<open>let _ = call\<close>: the error is dropped, a panic is not.\<close>

fun ignore_err :: "('a, 'e) outcome \<Rightarrow> (unit, 'f) outcome" where
  "ignore_err (Ok _) = Ok ()"
| "ignore_err (Err _) = Ok ()"
| "ignore_err Panic = Panic"

lemma ignore_err_ok: "r \<noteq> Panic \<Longrightarrow> ignore_err r = Ok ()"
  by (cases r) auto

text \<open>\<^verbatim>\<open>xs.get(a..)\<close>.\<close>

definition get_from :: "'a list \<Rightarrow> nat \<Rightarrow> 'a list option" where
  "get_from xs a = (if a \<le> length xs then Some (drop a xs) else None)"

end
