(* ===== verification/Peer_Stream.thy ===== *)
theory Peer_Stream
  imports Frame_Stream Greeting Plain_Mechanism Null_Mechanism
begin

text \<open>
  What the bytes of a peer mean, read in one go: its greeting, the commands of the mechanism, its
  READY and then a sequence of frames. This is the specification the connections are compared
  with, and it is executable. The first part relates a decoder in the middle of a stream to the
  frame grammar.
\<close>

section \<open>A decoder in the middle of a stream\<close>

text \<open>The grammar of a non-empty string, with the number of size bytes and the length they announce.\<close>

definition size_len :: "byte \<Rightarrow> nat" where
  "size_len flags = (if flags AND 2 \<noteq> 0 then 8 else 1)"

definition body_len :: "target \<Rightarrow> byte \<Rightarrow> bytes \<Rightarrow> nat" where
  "body_len T flags rest =
     (if flags AND 2 \<noteq> 0 then as_usize T (be_nat (take (size_len flags) rest))
      else be_nat (take (size_len flags) rest))"

lemma parse_frame_Nil [simp]: "parse_frame T CAP [] = Incomplete"
  by (simp add: parse_frame_def)

lemma parse_frame_Cons:
  "parse_frame T CAP (x # rest) =
     (if \<not> flags_ok x then Malformed DecodeError.ReservedFlagBits
      else if length rest < size_len x then Incomplete
      else if CAP < body_len T x rest then Malformed BodyTooLarge
      else if length rest < size_len x + body_len T x rest then Incomplete
      else Complete (1 + size_len x + body_len T x rest)
        \<lparr>df_more = (x AND 1 \<noteq> 0), df_is_command = (x AND 4 \<noteq> 0),
         df_body = take (body_len T x rest) (drop (size_len x) rest)\<rparr>)"
proof -
  have "length (drop n rest) < l \<longleftrightarrow> length rest < n + l" if "n \<le> length rest" for n l :: nat
    using that by (simp add: less_diff_conv2 add.commute)
  then show ?thesis
    by (simp add: parse_frame_def body_len_def size_len_def Let_def Suc_le_eq del: length_drop)
qed

lemma body_len_append [simp]:
  "size_len x \<le> length rest \<Longrightarrow> body_len T x (rest @ cs) = body_len T x rest"
  by (simp add: body_len_def)

lemma body_len_take [simp]:
  "size_len x \<le> n \<Longrightarrow> body_len T x (take n rest) = body_len T x rest"
  by (simp add: body_len_def min_def)

lemma parse_frame_Complete_bounds:
  "parse_frame T CAP bs = Complete k f \<Longrightarrow> 0 < k \<and> k \<le> length bs \<and> length (df_body f) \<le> CAP"
  by (cases bs) (auto simp: parse_frame_Cons split: if_splits)

lemma parse_frame_append:
  "parse_frame T CAP bs \<noteq> Incomplete \<Longrightarrow> parse_frame T CAP (bs @ cs) = parse_frame T CAP bs"
  by (cases bs) (auto simp: parse_frame_Cons split: if_splits)

lemma parse_frame_take:
  "parse_frame T CAP bs = Complete k f \<Longrightarrow> parse_frame T CAP (take k bs) = Complete k f"
  by (cases bs) (auto simp: parse_frame_Cons min_def take_drop split: if_splits)

text \<open>A decoder that has taken in \<^verbatim>\<open>bs\<close> since the last frame, which is not a whole frame yet.\<close>

definition holds :: "target \<Rightarrow> nat \<Rightarrow> FrameDecoder \<Rightarrow> bytes \<Rightarrow> bool" where
  "holds T CAP d bs \<longleftrightarrow> fd_inv CAP d \<and>
     (\<exists>d0. fd_inv CAP d0 \<and> fd_state d0 = NeedFlags \<and> Frame.feed T CAP d0 bs = (Ok (length bs, None), d))"

lemma holds_idle: "fd_inv CAP d \<Longrightarrow> fd_state d = NeedFlags \<Longrightarrow> holds T CAP d []"
  by (auto simp: holds_def)

lemma holds_new [simp]: "holds T CAP (new_decoder CAP) []"
  by (simp add: holds_idle)

lemma holds_inv: "holds T CAP d bs \<Longrightarrow> fd_inv CAP d"
  by (simp add: holds_def)

lemma holds_incomplete: "holds T CAP d bs \<Longrightarrow> parse_frame T CAP bs = Incomplete"
proof -
  assume "holds T CAP d bs"
  then obtain d0 where "fd_inv CAP d0" "fd_state d0 = NeedFlags"
    "Frame.feed T CAP d0 bs = (Ok (length bs, None), d)"
    by (auto simp: holds_def)
  then have "feed_result (length bs) (parse_frame T CAP bs) = Ok (length bs, None)"
    using feed_fresh [of CAP d0 T bs] by simp
  then show ?thesis by (auto simp: feed_result_def split: parsed.splits)
qed

lemma holds_feed:
  assumes "holds T CAP d bs" and "Frame.feed T CAP d input = (r, d')"
  shows "(\<forall>n. r = Ok (n, None) \<longrightarrow> n = length input \<and> holds T CAP d' (bs @ input) \<and>
        parse_frame T CAP (bs @ input) = Incomplete) \<and>
    (\<forall>n f. r = Ok (n, Some f) \<longrightarrow> n \<le> length input \<and> holds T CAP d' [] \<and>
        parse_frame T CAP (bs @ take n input) = Complete (length bs + n) f) \<and>
    (\<forall>e. r = Err e \<longrightarrow> parse_frame T CAP (bs @ input) = Malformed e) \<and> r \<noteq> Panic"
proof -
  obtain d0 where d0: "fd_inv CAP d0" "fd_state d0 = NeedFlags"
    "Frame.feed T CAP d0 bs = (Ok (length bs, None), d)" and inv: "fd_inv CAP d"
    using assms(1) by (auto simp: holds_def)
  have all: "Frame.feed T CAP d0 (bs @ input) = shift_result (length bs) (r, d')"
    using feed_append [OF d0(1,3), of input] assms(2) by simp
  then have parse: "fst (shift_result (length bs) (r, d'))
      = feed_result (length (bs @ input)) (parse_frame T CAP (bs @ input))"
    using feed_fresh [OF d0(1,2), of T "bs @ input"] by simp
  have post: "feed_post CAP input 0 (r, d')"
    using feed_loop_post [OF inv, of 0 input T] assms(2) by (simp add: Frame.feed_def)
  show ?thesis
  proof (cases r)
    case (Ok nf)
    obtain n fo where nf: "nf = (n, fo)" by fastforce
    show ?thesis
    proof (cases fo)
      case None
      with post Ok nf have "n = length input" "fd_inv CAP d'" by auto
      with all parse Ok nf None d0 show ?thesis
        by (auto simp: holds_def feed_result_def split: parsed.splits)
    next
      case (Some f)
      with post Ok nf have n: "n \<le> length input" "fd_inv CAP d'" "fd_state d' = NeedFlags" by auto
      from parse Ok nf Some have "parse_frame T CAP (bs @ input) = Complete (length bs + n) f"
        by (auto simp: feed_result_def split: parsed.splits)
      from parse_frame_take [OF this] have "parse_frame T CAP (bs @ take n input) = Complete (length bs + n) f"
        by simp
      with Ok nf Some n show ?thesis by (simp add: holds_idle)
    qed
  next
    case (Err e)
    with parse show ?thesis by (auto simp: feed_result_def split: parsed.splits)
  next
    case Panic
    with post show ?thesis by simp
  qed
qed

section \<open>Sequences of frames\<close>

text \<open>The name and the payload of a command body; bytes that are too short for the name have none.\<close>

fun split_command :: "bytes \<Rightarrow> (bytes \<times> bytes) option" where
  "split_command [] = None"
| "split_command (n # rest) =
     (if length rest < unat n then None else Some (take (unat n) rest, drop (unat n) rest))"

lemma split_command_body [simp]:
  "length name < 256 \<Longrightarrow> split_command (command_body name payload) = Some (name, payload)"
  by (simp add: command_body_def)

function frames :: "target \<Rightarrow> nat \<Rightarrow> bytes \<Rightarrow> DecodedFrame list \<times> bytes" where
  "frames T CAP bs =
     (case parse_frame T CAP bs of
        Complete k f \<Rightarrow> (case frames T CAP (drop k bs) of (fs, rest) \<Rightarrow> (f # fs, rest))
      | _ \<Rightarrow> ([], bs))"
  by pat_completeness auto
termination
  by (relation "measure (\<lambda>(_, _, bs). length bs)") (auto dest: parse_frame_Complete_bounds)

declare frames.simps [simp del]

lemma frames_incomplete: "parse_frame T CAP bs = Incomplete \<Longrightarrow> frames T CAP bs = ([], bs)"
  by (simp add: frames.simps)

lemma frames_append:
  "frames T CAP bs = (fs, rest) \<Longrightarrow>
     frames T CAP (bs @ cs) = (case frames T CAP (rest @ cs) of (gs, rest') \<Rightarrow> (fs @ gs, rest'))"
proof (induction bs arbitrary: fs rule: length_induct)
  case (1 bs)
  show ?case
  proof (cases "parse_frame T CAP bs")
    case (Complete k f)
    obtain fs' where fs': "frames T CAP (drop k bs) = (fs', rest)" "fs = f # fs'"
      using "1.prems" Complete by (auto simp: frames.simps [of T CAP bs] split: prod.splits)
    have k: "0 < k" "k \<le> length bs"
      using parse_frame_Complete_bounds [OF Complete] by auto
    have "frames T CAP (drop k bs @ cs) = (case frames T CAP (rest @ cs) of (gs, rest') \<Rightarrow> (fs' @ gs, rest'))"
      using "1.IH" [rule_format, OF _ fs'(1)] k by simp
    with Complete k fs' show ?thesis
      using parse_frame_append [of T CAP bs cs]
      by (simp add: frames.simps [of T CAP "bs @ cs"] split: prod.splits)
  next
    case Incomplete
    with "1.prems" show ?thesis by (auto simp: frames.simps [of T CAP bs] split: prod.splits)
  next
    case (Malformed e)
    with "1.prems" show ?thesis by (auto simp: frames.simps [of T CAP bs] split: prod.splits)
  qed
qed

lemma frames_complete:
  assumes "parse_frame T CAP bs = Complete (length bs) f"
  shows "frames T CAP bs = ([f], [])"
  using assms by (simp add: frames.simps [of T CAP bs] frames.simps [of T CAP "[]"] parse_frame_def)

section \<open>The whole stream\<close>

text \<open>
  The stages of a peer's stream: the greeting is not complete; a HELLO or a READY is awaited (with
  the bytes of it that are there); the handshake is complete, and these frames and the beginning
  of another have followed; or the stream cannot be a handshake that is accepted. The byte is the
  minor version of the peer.
\<close>

datatype meaning =
    AwaitGreeting bytes
  | AwaitHello byte bytes
  | AwaitReady byte bytes
  | Talking byte "DecodedFrame list" bytes
  | Rejected

definition after_ready :: "target \<Rightarrow> nat \<Rightarrow> byte \<Rightarrow> bytes \<Rightarrow> meaning" where
  "after_ready T CAP v bs = (case frames T CAP bs of (fs, rest) \<Rightarrow> Talking v fs rest)"

definition await_ready :: "target \<Rightarrow> nat \<Rightarrow> (bool \<Rightarrow> bytes \<Rightarrow> (PeerSocketType, NullError) outcome) \<Rightarrow>
    byte \<Rightarrow> bytes \<Rightarrow> meaning" where
  "await_ready T CAP ready v bs =
     (case parse_frame T CAP bs of
        Incomplete \<Rightarrow> AwaitReady v bs
      | Malformed _ \<Rightarrow> Rejected
      | Complete k f \<Rightarrow>
          if length (df_body f) \<le> 255
          then (case ready (df_is_command f) (df_body f) of
                  Ok _ \<Rightarrow> after_ready T CAP v (drop k bs) | _ \<Rightarrow> Rejected)
          else Rejected)"

definition await_hello :: "target \<Rightarrow> nat \<Rightarrow> (bool \<Rightarrow> bytes \<Rightarrow> (PeerSocketType, NullError) outcome) \<Rightarrow>
    auth_check \<Rightarrow> byte \<Rightarrow> bytes \<Rightarrow> meaning" where
  "await_hello T CAP ready accept v bs =
     (case parse_frame T CAP bs of
        Incomplete \<Rightarrow> AwaitHello v bs
      | Malformed _ \<Rightarrow> Rejected
      | Complete k f \<Rightarrow>
          (case parse_hello_from (df_is_command f) (df_body f) of
             Ok (u, p) \<Rightarrow> if accept u p then await_ready T CAP ready v (drop k bs) else Rejected
           | _ \<Rightarrow> Rejected))"

definition meaning_of :: "target \<Rightarrow> nat \<Rightarrow> (bool \<Rightarrow> bytes \<Rightarrow> (PeerSocketType, NullError) outcome) \<Rightarrow>
    Mechanism \<Rightarrow> auth_check \<Rightarrow> bytes \<Rightarrow> meaning" where
  "meaning_of T CAP ready mech accept bs =
     (if length bs < 64 then AwaitGreeting bs
      else case (case mech of Null \<Rightarrow> parse_greeting | Plain \<Rightarrow> parse_plain_greeting) (take 64 bs) of
        Ok g \<Rightarrow>
          (case mech of
             Null \<Rightarrow> await_ready T CAP ready (version_minor g) (drop 64 bs)
           | Plain \<Rightarrow> await_hello T CAP ready accept (version_minor g) (drop 64 bs))
      | _ \<Rightarrow> Rejected)"

text \<open>How a meaning develops when more bytes arrive.\<close>

lemma after_ready_append:
  assumes "after_ready T CAP v bs = Talking v' fs rest"
  shows "after_ready T CAP v (bs @ cs) =
    (case frames T CAP (rest @ cs) of (gs, rest') \<Rightarrow> Talking v' (fs @ gs) rest')"
  using assms frames_append [of T CAP bs fs rest cs] by (auto simp: after_ready_def split: prod.splits)

lemma after_ready_Talking: "\<exists>fs rest. after_ready T CAP v bs = Talking v fs rest"
  by (auto simp: after_ready_def split: prod.splits)

lemma await_ready_append:
  "await_ready T CAP ready v bs = AwaitReady v' rest \<Longrightarrow>
     await_ready T CAP ready v (bs @ cs) = await_ready T CAP ready v' (rest @ cs)"
  "await_ready T CAP ready v bs = Talking v' fs rest \<Longrightarrow>
     await_ready T CAP ready v (bs @ cs) =
       (case frames T CAP (rest @ cs) of (gs, rest') \<Rightarrow> Talking v' (fs @ gs) rest')"
proof -
  assume *: "await_ready T CAP ready v bs = AwaitReady v' rest"
  then have "v' = v" "rest = bs"
    using after_ready_Talking [of T CAP v]
    by (auto simp: await_ready_def split: parsed.splits if_splits outcome.splits)
      (metis meaning.distinct)+
  then show "await_ready T CAP ready v (bs @ cs) = await_ready T CAP ready v' (rest @ cs)" by simp
next
  assume *: "await_ready T CAP ready v bs = Talking v' fs rest"
  then obtain k f ty where f: "parse_frame T CAP bs = Complete k f" "length (df_body f) \<le> 255"
    "ready (df_is_command f) (df_body f) = Ok ty" "after_ready T CAP v (drop k bs) = Talking v' fs rest"
    by (auto simp: await_ready_def split: parsed.splits if_splits outcome.splits)
  then have "parse_frame T CAP (bs @ cs) = Complete k f" "k \<le> length bs"
    using parse_frame_append [of T CAP bs cs] parse_frame_Complete_bounds [OF f(1)] by auto
  then show "await_ready T CAP ready v (bs @ cs) =
       (case frames T CAP (rest @ cs) of (gs, rest') \<Rightarrow> Talking v' (fs @ gs) rest')"
    using f after_ready_append [OF f(4), of cs] by (simp add: await_ready_def)
qed

lemma await_ready_not_hello [simp]:
  "await_ready T CAP ready v bs \<noteq> AwaitHello v' rest" "await_ready T CAP ready v bs \<noteq> AwaitGreeting rest"
  using after_ready_Talking [of T CAP v]
  by (auto simp: await_ready_def split: parsed.splits outcome.splits) (metis meaning.distinct)+

lemma await_hello_append:
  "await_hello T CAP ready accept v bs = AwaitHello v' rest \<Longrightarrow>
     await_hello T CAP ready accept v (bs @ cs) = await_hello T CAP ready accept v' (rest @ cs)"
  "await_hello T CAP ready accept v bs = AwaitReady v' rest \<Longrightarrow>
     await_hello T CAP ready accept v (bs @ cs) = await_ready T CAP ready v' (rest @ cs)"
  "await_hello T CAP ready accept v bs = Talking v' fs rest \<Longrightarrow>
     await_hello T CAP ready accept v (bs @ cs) =
       (case frames T CAP (rest @ cs) of (gs, rest') \<Rightarrow> Talking v' (fs @ gs) rest')"
proof -
  assume "await_hello T CAP ready accept v bs = AwaitHello v' rest"
  then have "v' = v" "rest = bs"
    by (auto simp: await_hello_def split: parsed.splits if_splits outcome.splits prod.splits)
  then show "await_hello T CAP ready accept v (bs @ cs) = await_hello T CAP ready accept v' (rest @ cs)"
    by simp
next
  have step: "\<exists>k f u p. parse_frame T CAP bs = Complete k f \<and> k \<le> length bs \<and>
      parse_hello_from (df_is_command f) (df_body f) = Ok (u, p) \<and> accept u p \<and>
      await_ready T CAP ready v (drop k bs) = m \<and>
      await_hello T CAP ready accept v (bs @ cs) = await_ready T CAP ready v (drop k bs @ cs)"
    if m: "await_hello T CAP ready accept v bs = m" "\<forall>v' r. m \<noteq> AwaitHello v' r" "m \<noteq> Rejected" for m
  proof -
    from m obtain k f u p where f: "parse_frame T CAP bs = Complete k f"
      "parse_hello_from (df_is_command f) (df_body f) = Ok (u, p)" "accept u p"
      "await_ready T CAP ready v (drop k bs) = m"
      by (auto simp: await_hello_def split: parsed.splits if_splits outcome.splits prod.splits)
    then have "parse_frame T CAP (bs @ cs) = Complete k f" "k \<le> length bs"
      using parse_frame_append [of T CAP bs cs] parse_frame_Complete_bounds [OF f(1)] by auto
    with f show ?thesis by (auto simp: await_hello_def)
  qed
  {
    assume "await_hello T CAP ready accept v bs = AwaitReady v' rest"
    from step [OF this] obtain k where
      "await_ready T CAP ready v (drop k bs) = AwaitReady v' rest"
      "await_hello T CAP ready accept v (bs @ cs) = await_ready T CAP ready v (drop k bs @ cs)"
      by blast
    then show "await_hello T CAP ready accept v (bs @ cs) = await_ready T CAP ready v' (rest @ cs)"
      by (simp add: await_ready_append(1))
  next
    assume "await_hello T CAP ready accept v bs = Talking v' fs rest"
    from step [OF this] obtain k where
      "await_ready T CAP ready v (drop k bs) = Talking v' fs rest"
      "await_hello T CAP ready accept v (bs @ cs) = await_ready T CAP ready v (drop k bs @ cs)"
      by blast
    then show "await_hello T CAP ready accept v (bs @ cs) =
       (case frames T CAP (rest @ cs) of (gs, rest') \<Rightarrow> Talking v' (fs @ gs) rest')"
      by (simp add: await_ready_append(2))
  }
qed

lemma meaning_of_append:
  "meaning_of T CAP ready mech accept bs = AwaitHello v rest \<Longrightarrow>
     meaning_of T CAP ready mech accept (bs @ cs) = await_hello T CAP ready accept v (rest @ cs)"
  "meaning_of T CAP ready mech accept bs = AwaitReady v rest \<Longrightarrow>
     meaning_of T CAP ready mech accept (bs @ cs) = await_ready T CAP ready v (rest @ cs)"
  "meaning_of T CAP ready mech accept bs = Talking v fs rest \<Longrightarrow>
     meaning_of T CAP ready mech accept (bs @ cs) =
       (case frames T CAP (rest @ cs) of (gs, rest') \<Rightarrow> Talking v (fs @ gs) rest')"
  by (cases mech; auto simp: meaning_of_def await_ready_append await_hello_append
      split: if_splits outcome.splits)+

text \<open>
  The peer has sent a HELLO with the credentials \<^verbatim>\<open>u\<close> and \<^verbatim>\<open>p\<close>: its bytes start with a PLAIN greeting and a
  frame that is this command.
\<close>

definition heard_hello :: "target \<Rightarrow> nat \<Rightarrow> bytes \<Rightarrow> bytes \<Rightarrow> bytes \<Rightarrow> bool" where
  "heard_hello T CAP s u p \<longleftrightarrow>
     64 \<le> length s \<and> (\<exists>g. parse_plain_greeting (take 64 s) = Ok g) \<and>
     (\<exists>k f. parse_frame T CAP (drop 64 s) = Complete k f \<and> parse_hello_from (df_is_command f) (df_body f) = Ok (u, p))"

lemma heard_hello_append: "heard_hello T CAP s u p \<Longrightarrow> heard_hello T CAP (s @ s') u p"
  using parse_frame_append [of T CAP "drop 64 s" s'] by (auto simp: heard_hello_def)

lemma meaning_heard_hello:
  assumes "meaning_of T CAP ready Plain accept s = M" and "(\<exists>v r. M = AwaitReady v r) \<or> (\<exists>v fs r. M = Talking v fs r)"
  shows "\<exists>u p. heard_hello T CAP s u p \<and> accept u p"
  using assms by (auto simp: meaning_of_def await_hello_def heard_hello_def
      split: if_splits outcome.splits parsed.splits)

end
