(* ===== verification/Session.thy ===== *)
theory Session
  imports Link Peer_Stream
begin

text \<open>
  How an application uses a connection: a sequence of calls, each with the caller's buffer or
  input. The handshake of RFC 23/37 as an abstract step relation, and the interface through which
  both connection types are shown to follow it: what every call guarantees, and what follows for
  whole runs.
\<close>

section \<open>Calls and runs\<close>

datatype call =
    WriteGreeting bytes
  | WriteReady bytes
  | WriteWelcome bytes
  | Feed bytes
  | WritePong bytes
  | WriteError bytes

type_synonym reply = "(nat, ConnError) outcome \<times> bytes"

fun run :: "('s \<Rightarrow> 'a \<Rightarrow> 'r \<times> 's) \<Rightarrow> 's \<Rightarrow> 'a list \<Rightarrow> 'r list \<times> 's" where
  "run exec c [] = ([], c)"
| "run exec c (a # as) =
     (case exec c a of (r, c') \<Rightarrow> case run exec c' as of (rs, c'') \<Rightarrow> (r # rs, c''))"

lemma run_append:
  "run exec c (as @ bs) =
     (case run exec c as of (rs, c') \<Rightarrow> case run exec c' bs of (rs', c'') \<Rightarrow> (rs @ rs', c''))"
  by (induction as arbitrary: c) (auto split: prod.splits)

lemma run_length: "run exec c as = (rs, c') \<Longrightarrow> length rs = length as"
  by (induction as arbitrary: c rs) (auto split: prod.splits)

text \<open>
  The peer's bytes a run has consumed, and the runs in which no \<^verbatim>\<open>feed\<close> failed (a call in the wrong
  state, which consumes nothing, is no failure).
\<close>

fun consumed :: "call \<Rightarrow> (nat, ConnError) outcome \<Rightarrow> bytes" where
  "consumed (Feed bs) (Ok n) = take n bs"
| "consumed _ _ = []"

fun clean :: "call \<Rightarrow> (nat, ConnError) outcome \<Rightarrow> bool" where
  "clean (Feed _) (Ok _) \<longleftrightarrow> True"
| "clean (Feed _) (Err e) \<longleftrightarrow> e = WrongState"
| "clean (Feed _) Panic \<longleftrightarrow> False"
| "clean _ _ \<longleftrightarrow> True"

lemma clean_Feed: "clean (Feed bs) r \<longleftrightarrow> (\<exists>n. r = Ok n) \<or> r = Err WrongState"
  by (cases r) auto

definition stream_of :: "call list \<Rightarrow> reply list \<Rightarrow> bytes" where
  "stream_of as rs = concat (map2 (\<lambda>a r. consumed a (fst r)) as rs)"

definition clean_run :: "call list \<Rightarrow> reply list \<Rightarrow> bool" where
  "clean_run as rs \<longleftrightarrow> list_all2 (\<lambda>a r. clean a (fst r)) as rs"

lemma stream_of_simps [simp]:
  "stream_of [] rs = []" "stream_of (a # as) (r # rs) = consumed a (fst r) @ stream_of as rs"
  by (simp_all add: stream_of_def)

lemma clean_run_simps [simp]:
  "clean_run [] []" "clean_run (a # as) (r # rs) \<longleftrightarrow> clean a (fst r) \<and> clean_run as rs"
  by (simp_all add: clean_run_def)

section \<open>The handshake\<close>

record handshake =
  hs_state :: State
  hs_mechanism :: Mechanism
  hs_greeting_sent :: bool
  hs_greeting_received :: bool
  hs_welcome_sent :: bool
  hs_ready_sent :: bool

definition handshake_of :: "'c link_scheme \<Rightarrow> handshake" where
  "handshake_of c =
     \<lparr>hs_state = state c, hs_mechanism = mechanism c, hs_greeting_sent = our_greeting_sent c,
      hs_greeting_received = peer_greeting_received c, hs_welcome_sent = our_welcome_sent c,
      hs_ready_sent = our_ready_sent c\<rparr>"

lemma handshake_of_simps [simp]:
  "hs_state (handshake_of c) = state c" "hs_mechanism (handshake_of c) = mechanism c"
  "hs_greeting_sent (handshake_of c) = our_greeting_sent c"
  "hs_greeting_received (handshake_of c) = peer_greeting_received c"
  "hs_welcome_sent (handshake_of c) = our_welcome_sent c"
  "hs_ready_sent (handshake_of c) = our_ready_sent c"
  by (simp_all add: handshake_of_def)

text \<open>
  The protocol as one role of it sees it; \<^verbatim>\<open>can_auth\<close> says whether the authenticator accepts any
  credentials at all. PLAIN: WELCOME and then READY are sent only after a HELLO was accepted, and
  the peer's READY counts only after both.
\<close>

inductive hs_step :: "bool \<Rightarrow> handshake \<Rightarrow> handshake \<Rightarrow> bool" for can_auth :: bool where
  idle: "hs_step can_auth h h"
| send_greeting: "hs_state h = Greeting \<Longrightarrow> \<not> hs_greeting_sent h \<Longrightarrow>
    hs_step can_auth h (h\<lparr>hs_greeting_sent := True\<rparr>)"
| greeting_first: "hs_state h = Greeting \<Longrightarrow> \<not> hs_greeting_sent h \<Longrightarrow>
    hs_step can_auth h (h\<lparr>hs_greeting_received := True\<rparr>)"
| greeting_done: "hs_state h = Greeting \<Longrightarrow> hs_greeting_sent h \<Longrightarrow>
    hs_step can_auth h (h\<lparr>hs_greeting_received := True,
      hs_state := (case hs_mechanism h of Null \<Rightarrow> Ready | Plain \<Rightarrow> PlainHello)\<rparr>)"
| hello_accepted: "hs_state h = PlainHello \<Longrightarrow> can_auth \<Longrightarrow>
    hs_step can_auth h (h\<lparr>hs_state := PlainReady\<rparr>)"
| send_welcome: "hs_state h = PlainReady \<Longrightarrow> \<not> hs_welcome_sent h \<Longrightarrow>
    hs_step can_auth h (h\<lparr>hs_welcome_sent := True\<rparr>)"
| send_ready: "hs_state h = Ready \<or> hs_state h = PlainReady \<and> hs_welcome_sent h \<Longrightarrow> \<not> hs_ready_sent h \<Longrightarrow>
    hs_step can_auth h (h\<lparr>hs_ready_sent := True\<rparr>)"
| peer_ready: "hs_state h = Ready \<or> hs_state h = PlainReady \<and> hs_welcome_sent h \<Longrightarrow> hs_ready_sent h \<Longrightarrow>
    hs_step can_auth h (h\<lparr>hs_state := Established\<rparr>)"
| reject: "hs_state h = PlainHello \<or>
      (hs_state h = Ready \<or> hs_state h = PlainReady \<and> hs_welcome_sent h) \<and> hs_ready_sent h \<Longrightarrow>
    hs_step can_auth h (h\<lparr>hs_state := Failed\<rparr>)"

inductive_cases hs_stepE: "hs_step can_auth h h'"

definition hs_start :: "Mechanism \<Rightarrow> handshake" where
  "hs_start m = \<lparr>hs_state = Greeting, hs_mechanism = m, hs_greeting_sent = False,
     hs_greeting_received = False, hs_welcome_sent = False, hs_ready_sent = False\<rparr>"

lemma hs_start_simps [simp]:
  "hs_state (hs_start m) = Greeting" "hs_mechanism (hs_start m) = m"
  by (simp_all add: hs_start_def)

text \<open>What holds in every reachable state of the handshake.\<close>

definition hs_ok :: "bool \<Rightarrow> handshake \<Rightarrow> bool" where
  "hs_ok can_auth h \<longleftrightarrow>
     (hs_state h = Greeting \<longrightarrow> \<not> hs_welcome_sent h \<and> \<not> hs_ready_sent h) \<and>
     (hs_state h \<noteq> Greeting \<longrightarrow> hs_greeting_sent h \<and> hs_greeting_received h) \<and>
     (hs_state h = Ready \<longrightarrow> hs_mechanism h = Null) \<and>
     (hs_state h = PlainHello \<longrightarrow> hs_mechanism h = Plain \<and> \<not> hs_welcome_sent h \<and> \<not> hs_ready_sent h) \<and>
     (hs_state h = PlainReady \<longrightarrow> hs_mechanism h = Plain \<and> can_auth) \<and>
     (hs_state h = Established \<longrightarrow> hs_ready_sent h \<and>
        (hs_mechanism h = Plain \<longrightarrow> hs_welcome_sent h \<and> can_auth)) \<and>
     (hs_mechanism h = Plain \<longrightarrow> hs_ready_sent h \<longrightarrow> hs_welcome_sent h) \<and>
     (hs_welcome_sent h \<longrightarrow> hs_mechanism h = Plain)"

lemma hs_ok_start [simp]: "hs_ok can_auth (hs_start m)"
  by (simp add: hs_ok_def hs_start_def)

lemma hs_ok_step: "hs_step can_auth h h' \<Longrightarrow> hs_ok can_auth h \<Longrightarrow> hs_ok can_auth h'"
  unfolding hs_ok_def
  by (erule hs_stepE; cases "hs_mechanism h"; simp; cases "hs_state h"; simp)

fun hs_rank :: "State \<Rightarrow> nat" where
  "hs_rank Greeting = 0"
| "hs_rank PlainHello = 1"
| "hs_rank Ready = 2"
| "hs_rank PlainReady = 2"
| "hs_rank Established = 3"
| "hs_rank Failed = 3"

text \<open>The state changes at most forwards, and a change is to a state of higher rank.\<close>

lemma hs_step_forward:
  assumes "hs_step can_auth h h'"
  shows "hs_state h' = hs_state h \<or> hs_rank (hs_state h) < hs_rank (hs_state h')"
    and "hs_mechanism h' = hs_mechanism h"
  using assms by (auto elim!: hs_stepE split: Mechanism.splits)

lemma hs_steps_forward:
  assumes "(hs_step can_auth)\<^sup>*\<^sup>* h h'"
  shows "(hs_state h' = hs_state h \<or> hs_rank (hs_state h) < hs_rank (hs_state h')) \<and>
    hs_mechanism h' = hs_mechanism h"
  using assms
proof (induction rule: rtranclp_induct)
  case (step h' h'')
  with hs_step_forward [of can_auth h' h''] show ?case by auto
qed simp

lemma hs_steps_final:
  "(hs_step can_auth)\<^sup>*\<^sup>* h h' \<Longrightarrow> hs_state h \<in> {Established, Failed} \<Longrightarrow> hs_state h' = hs_state h"
  by (cases "hs_state h'") (auto dest: hs_steps_forward)

section \<open>A connection in step with its peer\<close>

text \<open>The invariant of the fields that both connection types have.\<close>

definition link_inv :: "nat \<Rightarrow> auth_check \<Rightarrow> 'c link_scheme \<Rightarrow> bool" where
  "link_inv CAP accept c \<longleftrightarrow>
     length (greeting_buf c) = 64 \<and> greeting_pos c \<le> 64 \<and> fd_inv CAP (frame_decoder c) \<and>
     (\<forall>ctx n. pending_pong c = Some (ctx, n) \<longrightarrow> length ctx = 16 \<and> n \<le> 16) \<and> auth c = accept"

text \<open>
  The connection has consumed exactly \<^verbatim>\<open>s\<close>, is in the stage that \<^verbatim>\<open>s\<close> means, and has handed on the
  frames \<^verbatim>\<open>fs\<close> that followed the handshake.
\<close>

definition link_rel :: "target \<Rightarrow> nat \<Rightarrow> (bool \<Rightarrow> bytes \<Rightarrow> (PeerSocketType, NullError) outcome) \<Rightarrow>
    DecodedFrame list \<Rightarrow> 'c link_scheme \<Rightarrow> bytes \<Rightarrow> bool" where
  "link_rel T CAP ready fs c s \<longleftrightarrow>
     (let m = meaning_of T CAP ready (mechanism c) (auth c) s; v = peer_version_minor c;
          hold = holds T CAP (frame_decoder c) in
      (state c \<noteq> Established \<longrightarrow> fs = []) \<and>
      (case state c of
         Greeting \<Rightarrow> greeting_pos c = length s \<and> take (length s) (greeting_buf c) = s \<and> hold []
       | PlainHello \<Rightarrow> (\<exists>r. m = AwaitHello v r \<and> hold r)
       | Ready \<Rightarrow> (\<exists>r. m = AwaitReady v r \<and> hold r)
       | PlainReady \<Rightarrow> (\<exists>r. m = AwaitReady v r \<and> hold r)
       | Established \<Rightarrow> (\<exists>r. m = Talking v fs r \<and> hold r)
       | Failed \<Rightarrow> False))"

section \<open>The interface of a connection type\<close>

text \<open>
  What a connection type guarantees of each call: its invariant is kept, whatever the result, and
  the handshake makes one step of the protocol or none.
\<close>

locale endpoint =
  fixes exec :: "'c link_scheme \<Rightarrow> call \<Rightarrow> reply \<times> 'c link_scheme"
    and inv :: "'c link_scheme \<Rightarrow> bool"
    and can_auth :: bool
  assumes exec_inv: "inv c \<Longrightarrow> inv (snd (exec c a))"
    and exec_step: "inv c \<Longrightarrow> hs_step can_auth (handshake_of c) (handshake_of (snd (exec c a)))"
begin

lemma run_inv: "inv c \<Longrightarrow> run exec c as = (rs, c') \<Longrightarrow> inv c'"
proof (induction as arbitrary: c rs)
  case (Cons a as)
  then show ?case using exec_inv [of c a] by (auto split: prod.splits)
qed simp

lemma run_steps:
  "inv c \<Longrightarrow> run exec c as = (rs, c') \<Longrightarrow> (hs_step can_auth)\<^sup>*\<^sup>* (handshake_of c) (handshake_of c')"
proof (induction as arbitrary: c rs)
  case Nil
  then show ?case by simp
next
  case (Cons a as)
  obtain r d where d: "exec c a = (r, d)" by fastforce
  with Cons.prems exec_inv [of c a] exec_step [of c a]
  have "inv d" "hs_step can_auth (handshake_of c) (handshake_of d)" by auto
  with Cons.prems Cons.IH [of d] d show ?case
    by (auto split: prod.splits intro: converse_rtranclp_into_rtranclp)
qed

lemma run_ok:
  assumes "inv c" and "run exec c as = (rs, c')" and "hs_ok can_auth (handshake_of c)"
  shows "hs_ok can_auth (handshake_of c')"
  using run_steps [OF assms(1,2)] assms(3)
  by (induction rule: rtranclp_induct) (auto intro: hs_ok_step)

lemma run_final:
  "inv c \<Longrightarrow> run exec c as = (rs, c') \<Longrightarrow> state c \<in> {Established, Failed} \<Longrightarrow> state c' = state c"
  using hs_steps_final [OF run_steps] by simp

end

text \<open>A connection type whose calls do not panic.\<close>

locale safe_endpoint = endpoint +
  assumes exec_safe: "inv c \<Longrightarrow> fst (fst (exec c a)) \<noteq> Panic"
begin

lemma run_safe: "inv c \<Longrightarrow> run exec c as = (rs, c') \<Longrightarrow> Panic \<notin> fst ` set rs"
proof (induction as arbitrary: c rs)
  case (Cons a as)
  obtain r d where d: "exec c a = (r, d)" by fastforce
  moreover obtain rs' where rs': "run exec d as = (rs', c')" "rs = r # rs'"
    using Cons.prems d by (auto split: prod.splits)
  moreover have "inv d" "fst r \<noteq> Panic"
    using Cons.prems exec_inv [of c a] exec_safe [of c a] d by auto
  ultimately show ?case using Cons.IH [of d rs'] by auto
qed simp

end

text \<open>
  A connection type that understands its peer: \<^verbatim>\<open>rel c s\<close> says that the connection is in the state
  which the peer's bytes \<^verbatim>\<open>s\<close> lead to.
\<close>

locale stream_endpoint = endpoint +
  fixes rel :: "'c link_scheme \<Rightarrow> bytes \<Rightarrow> bool"
  assumes exec_rel: "inv c \<Longrightarrow> rel c s \<Longrightarrow> exec c a = (r, c') \<Longrightarrow> clean a (fst r) \<Longrightarrow>
      rel c' (s @ consumed a (fst r))"
begin

lemma run_rel:
  "inv c \<Longrightarrow> rel c s \<Longrightarrow> run exec c as = (rs, c') \<Longrightarrow> clean_run as rs \<Longrightarrow> rel c' (s @ stream_of as rs)"
proof (induction as arbitrary: c s rs)
  case (Cons a as)
  obtain r d where d: "exec c a = (r, d)" by fastforce
  moreover obtain rs' where rs': "run exec d as = (rs', c')" "rs = r # rs'"
    using Cons.prems d by (auto split: prod.splits)
  moreover have "inv d" "rel d (s @ consumed a (fst r))"
    using Cons.prems exec_inv [of c a] exec_rel [of c s a r d] d rs' by auto
  ultimately show ?case using Cons.IH [of d "s @ consumed a (fst r)" rs'] Cons.prems(4) by simp
qed simp

end

end
