(* ===== verification/Test_Helpers.thy ===== *)
theory Test_Helpers
  imports Prelude
begin

text \<open>
  The byte-level fixtures that the repository's unit tests share (\<^verbatim>\<open>src/test_helpers.rs\<close>): what a
  SUB or DISH peer sends. The witnesses of the properties use them as their concrete inputs.
\<close>

definition sub_greeting :: bytes where
  "sub_greeting =
     (let g = replicate 64 0;
          g = g[0 := 0xFF];
          g = g[9 := 0x7F];
          g = g[10 := 0x03];
          g = g[11 := 0x01];
          g = g[12 := of_char (CHR ''N'')];
          g = g[13 := of_char (CHR ''U'')];
          g = g[14 := of_char (CHR ''L'')];
          g = g[15 := of_char (CHR ''L'')] in g)"

definition sub_ready :: bytes where
  "sub_ready =
    [0x04, 0x19, 0x05, 0x52, 0x45, 0x41, 0x44, 0x59, 0x0B, 0x53, 0x6F, 0x63, 0x6B, 0x65, 0x74,
     0x2D, 0x54, 0x79, 0x70, 0x65, 0x00, 0x00, 0x00, 0x03, 0x53, 0x55, 0x42]"

definition pub_ready :: bytes where
  "pub_ready =
    [0x04, 0x19, 0x05, 0x52, 0x45, 0x41, 0x44, 0x59, 0x0B, 0x53, 0x6F, 0x63, 0x6B, 0x65, 0x74,
     0x2D, 0x54, 0x79, 0x70, 0x65, 0x00, 0x00, 0x00, 0x03, 0x50, 0x55, 0x42]"

definition dish_greeting :: bytes where
  "dish_greeting =
     (let g = replicate 64 0;
          g = g[0 := 0xFF];
          g = g[9 := 0x7F];
          g = g[10 := 0x03];
          g = g[11 := 0x01];
          g = g[12 := of_char (CHR ''N'')];
          g = g[13 := of_char (CHR ''U'')];
          g = g[14 := of_char (CHR ''L'')];
          g = g[15 := of_char (CHR ''L'')] in g)"

definition dish_ready :: bytes where
  "dish_ready =
    [0x04, 0x1A, 0x05, 0x52, 0x45, 0x41, 0x44, 0x59, 0x0B, 0x53, 0x6F, 0x63, 0x6B, 0x65, 0x74,
     0x2D, 0x54, 0x79, 0x70, 0x65, 0x00, 0x00, 0x00, 0x04, 0x44, 0x49, 0x53, 0x48]"

definition radio_ready :: bytes where
  "radio_ready =
    [0x04, 0x1B, 0x05, 0x52, 0x45, 0x41, 0x44, 0x59, 0x0B, 0x53, 0x6F, 0x63, 0x6B, 0x65, 0x74,
     0x2D, 0x54, 0x79, 0x70, 0x65, 0x00, 0x00, 0x00, 0x05, 0x52, 0x41, 0x44, 0x49, 0x4F]"

definition sub_subscribe :: "bytes \<Rightarrow> bytes" where
  "sub_subscribe pfx =
     (let name = ascii ''SUBSCRIBE'';
          body_len = 1 + length name + length pfx;
          f = [];
          f = f @ [0x04];
          f = f @ [of_nat body_len];
          f = f @ [of_nat (length name)];
          f = f @ name;
          f = f @ pfx in f)"

definition dish_join :: "bytes \<Rightarrow> bytes" where
  "dish_join grp =
     (let name = ascii ''JOIN'';
          body_len = 1 + length name + length grp;
          f = [];
          f = f @ [0x04];
          f = f @ [of_nat body_len];
          f = f @ [of_nat (length name)];
          f = f @ name;
          f = f @ grp in f)"

definition plain_sub_greeting :: bytes where
  "plain_sub_greeting =
     (let g = replicate 64 0;
          g = g[0 := 0xFF];
          g = g[9 := 0x7F];
          g = g[10 := 0x03];
          g = g[11 := 0x01];
          g = g[12 := of_char (CHR ''P'')];
          g = g[13 := of_char (CHR ''L'')];
          g = g[14 := of_char (CHR ''A'')];
          g = g[15 := of_char (CHR ''I'')];
          g = g[16 := of_char (CHR ''N'')] in g)"

definition plain_hello :: "bytes \<Rightarrow> bytes \<Rightarrow> bytes" where
  "plain_hello username password =
     (let body_len = 1 + 5 + 1 + length username + 1 + length password;
          f = [];
          f = f @ [0x04];
          f = f @ [of_nat body_len];
          f = f @ [5];
          f = f @ ascii ''HELLO'';
          f = f @ [of_nat (length username)];
          f = f @ username;
          f = f @ [of_nat (length password)];
          f = f @ password in f)"

end
