(* ===== verification/Connection.thy ===== *)
theory Connection
  imports Session Sub_Table
begin

text \<open>
  The PUB connection (\<^verbatim>\<open>src/connection.rs\<close>): a ZMTP state machine without I/O. Every method takes
  the connection and returns its result with the new connection; a method that writes into a
  caller's buffer also returns the buffer. The handlers keep the branches of the code, in order.
\<close>

record ('b, 'v) conn_build = "('b, 'v) build" +
  SUB_CAP :: nat
  PREFIX_CAP :: nat

record 'v Connection = link +
  sub_table :: "'v SubTable"

definition new_connection :: "('b, 'v) conn_build \<Rightarrow> 'v Connection" where
  "new_connection P =
     \<lparr>state = Greeting, our_greeting_sent = False, peer_greeting_received = False,
      peer_version_minor = 0, our_ready_sent = False, our_welcome_sent = False, mechanism = Null,
      greeting_buf = replicate 64 0, greeting_pos = 0, frame_decoder = new_decoder (FRAME_CAP P),
      pending_pong = None, auth = unit_auth, sub_table = new_sub_table (heapless_of P)\<rparr>"

definition new_plain :: "('b, 'v) conn_build \<Rightarrow> authenticator \<Rightarrow> 'v Connection" where
  "new_plain P authenticate =
     \<lparr>state = Greeting, our_greeting_sent = False, peer_greeting_received = False,
      peer_version_minor = 0, our_ready_sent = False, our_welcome_sent = False, mechanism = Plain,
      greeting_buf = replicate 64 0, greeting_pos = 0, frame_decoder = new_decoder (FRAME_CAP P),
      pending_pong = None, auth = authenticator_check authenticate,
      sub_table = new_sub_table (heapless_of P)\<rparr>"

definition peer_version :: "'c link_scheme \<Rightarrow> byte \<times> byte" where
  "peer_version c = (3, peer_version_minor c)"

section \<open>The handshake\<close>

definition write_greeting :: "'c link_scheme \<Rightarrow> bytes \<Rightarrow> (nat, ConnError) outcome \<times> bytes \<times> 'c link_scheme" where
  "write_greeting c out =
     (if state c \<noteq> Greeting \<or> our_greeting_sent c then (Err WrongState, out, c)
      else if length out < GREETING_LEN then (Err ConnError.BufferTooSmall, out, c)
      else
        let arr = replicate GREETING_LEN 0;
            arr = (case mechanism c of Null \<Rightarrow> encode_greeting arr | Plain \<Rightarrow> encode_plain_greeting arr) in
        attempt (copy_range out 0 GREETING_LEN arr) (out, c) (\<lambda>out.
          (Ok GREETING_LEN, out, c\<lparr>our_greeting_sent := True\<rparr>)))"

definition write_ready :: "'c link_scheme \<Rightarrow> bytes \<Rightarrow> (nat, ConnError) outcome \<times> bytes \<times> 'c link_scheme" where
  "write_ready c out =
     (let in_ready_state =
        (case mechanism c of
           Null \<Rightarrow> state c = Ready
         | Plain \<Rightarrow> state c = Ready \<or> (state c = PlainReady \<and> our_welcome_sent c)) in
      if \<not> in_ready_state then (Err WrongState, out, c)
      else if our_ready_sent c then (Err WrongState, out, c)
      else if length out < READY_LEN then (Err ConnError.BufferTooSmall, out, c)
      else case encode_ready out of (r, out) \<Rightarrow>
        attempt (map_err NullError r) (out, c) (\<lambda>_.
          (Ok READY_LEN, out, c\<lparr>our_ready_sent := True\<rparr>)))"

definition write_welcome :: "'c link_scheme \<Rightarrow> bytes \<Rightarrow> (nat, ConnError) outcome \<times> bytes \<times> 'c link_scheme" where
  "write_welcome c out =
     (if state c \<noteq> PlainReady \<or> our_welcome_sent c then (Err WrongState, out, c)
      else case encode_welcome out of (r, out) \<Rightarrow>
        attempt (map_err PlainError r) (out, c) (\<lambda>_.
          (Ok WELCOME_LEN, out, c\<lparr>our_welcome_sent := True\<rparr>)))"

definition feed_greeting :: "'c link_scheme \<Rightarrow> bytes \<Rightarrow> (nat, ConnError) outcome \<times> 'c link_scheme" where
  "feed_greeting c input =
     (if GREETING_LEN < greeting_pos c then (Panic, c)
      else
        let needed = GREETING_LEN - greeting_pos c;
            to_copy = min (length input) needed;
            prev_pos = greeting_pos c in
        attempt (slice input 0 to_copy) c (\<lambda>src.
        attempt (copy_range (greeting_buf c) (greeting_pos c) (greeting_pos c + to_copy) src) c (\<lambda>buf.
          let c = c\<lparr>greeting_buf := buf, greeting_pos := greeting_pos c + to_copy\<rparr> in
          attempt
            (if prev_pos < GREETING_PARTIAL_LEN \<and> GREETING_PARTIAL_LEN \<le> greeting_pos c then
               and_then (slice (greeting_buf c) 0 GREETING_PARTIAL_LEN) (\<lambda>partial.
                 map_err GreetingError (parse_partial_greeting partial))
             else Ok ()) c (\<lambda>_.
          if greeting_pos c = GREETING_LEN then
            attempt
              (map_err GreetingError
                 (case mechanism c of
                    Null \<Rightarrow> parse_greeting (greeting_buf c)
                  | Plain \<Rightarrow> parse_plain_greeting (greeting_buf c))) c (\<lambda>peer_greeting.
            let c = c\<lparr>peer_version_minor := version_minor peer_greeting, peer_greeting_received := True\<rparr> in
            (Ok to_copy,
             if our_greeting_sent c
             then c\<lparr>state := (case mechanism c of Null \<Rightarrow> Ready | Plain \<Rightarrow> PlainHello)\<rparr>
             else c))
          else (Ok to_copy, c)))))"

definition feed_ready_inner :: "('b, 'v, 'p) build_scheme \<Rightarrow> 'c link_scheme \<Rightarrow> bytes \<Rightarrow>
    (nat, ConnError) outcome \<times> 'c link_scheme" where
  "feed_ready_inner P c input =
     (case Frame.feed (target_of P) (FRAME_CAP P) (frame_decoder c) input of (r, d) \<Rightarrow>
        let c = c\<lparr>frame_decoder := d\<rparr> in
        attempt (map_err DecodeError r) c (\<lambda>(consumed, maybe_frame).
          case maybe_frame of
            None \<Rightarrow> (Ok consumed, c)
          | Some frame \<Rightarrow>
              let body = df_body frame in
              if 255 < length body then (Err (NullError MalformedMetadata), c\<lparr>state := Failed\<rparr>)
              else
                (case parse_ready_from (target_of P) (df_is_command frame) body of
                   Ok _ \<Rightarrow> (Ok consumed, c\<lparr>state := Established\<rparr>)
                 | Err e \<Rightarrow> (Err (NullError e), c\<lparr>state := Failed\<rparr>)
                 | Panic \<Rightarrow> (Panic, c))))"

definition feed_ready :: "('b, 'v, 'p) build_scheme \<Rightarrow> 'c link_scheme \<Rightarrow> bytes \<Rightarrow>
    (nat, ConnError) outcome \<times> 'c link_scheme" where
  "feed_ready P c input =
     (if \<not> our_ready_sent c then (Err WrongState, c) else feed_ready_inner P c input)"

definition feed_plain_hello :: "('b, 'v, 'p) build_scheme \<Rightarrow> 'c link_scheme \<Rightarrow> bytes \<Rightarrow>
    (nat, ConnError) outcome \<times> 'c link_scheme" where
  "feed_plain_hello P c input =
     (case Frame.feed (target_of P) (FRAME_CAP P) (frame_decoder c) input of (r, d) \<Rightarrow>
        let c = c\<lparr>frame_decoder := d\<rparr> in
        attempt (map_err DecodeError r) c (\<lambda>(consumed, maybe_frame).
          case maybe_frame of
            None \<Rightarrow> (Ok consumed, c)
          | Some frame \<Rightarrow>
              let body = df_body frame in
              (case parse_hello_from (df_is_command frame) body of
                 Ok (username, password) \<Rightarrow>
                   if auth c username password then (Ok consumed, c\<lparr>state := PlainReady\<rparr>)
                   else (Err (PlainError AuthFailed), c\<lparr>state := Failed\<rparr>)
               | Err e \<Rightarrow> (Err (PlainError e), c\<lparr>state := Failed\<rparr>)
               | Panic \<Rightarrow> (Panic, c))))"

definition feed_plain_ready :: "('b, 'v, 'p) build_scheme \<Rightarrow> 'c link_scheme \<Rightarrow> bytes \<Rightarrow>
    (nat, ConnError) outcome \<times> 'c link_scheme" where
  "feed_plain_ready P c input =
     (if \<not> our_welcome_sent c \<or> \<not> our_ready_sent c then (Err WrongState, c)
      else feed_ready_inner P c input)"

section \<open>After the handshake\<close>

text \<open>The PING branch: the context, cut to 16 bytes, is kept until \<^verbatim>\<open>write_pong\<close>.\<close>

definition queue_pong :: "bytes \<Rightarrow> 'c link_scheme \<Rightarrow> (unit, ConnError) outcome \<times> 'c link_scheme" where
  "queue_pong payload c =
     (let ctx_bytes = (case get_from payload 2 of Some bs \<Rightarrow> bs | None \<Rightarrow> []);
          ctx_len = min (length ctx_bytes) 16;
          ctx = replicate 16 0 in
      attempt (and_then (slice ctx_bytes 0 ctx_len) (copy_range ctx 0 ctx_len)) c (\<lambda>ctx.
        (Ok (), c\<lparr>pending_pong := Some (ctx, ctx_len)\<rparr>)))"

definition do_subscribe :: "('b, 'v) conn_build \<Rightarrow> 'v Connection \<Rightarrow> bytes \<Rightarrow> (unit, ConnError) outcome \<times> 'v Connection" where
  "do_subscribe P c pfx =
     (case subscribe (heapless_of P) (SUB_CAP P) (PREFIX_CAP P) (sub_table c) pfx of
        (r, t) \<Rightarrow> (ignore_err r, c\<lparr>sub_table := t\<rparr>))"

definition do_cancel :: "('b, 'v) conn_build \<Rightarrow> 'v Connection \<Rightarrow> bytes \<Rightarrow> (unit, ConnError) outcome \<times> 'v Connection" where
  "do_cancel P c pfx =
     (case cancel (heapless_of P) (sub_table c) pfx of (r, t) \<Rightarrow> (ignore_err r, c\<lparr>sub_table := t\<rparr>))"

definition on_frame :: "('b, 'v) conn_build \<Rightarrow> 'v Connection \<Rightarrow> DecodedFrame \<Rightarrow>
    (unit, ConnError) outcome \<times> 'v Connection" where
  "on_frame P c frame =
     (let body = df_body frame in
      if df_is_command frame then
        if body = [] then (Ok (), c)
        else
          let name_len = unat (body ! 0) in
          if length body < 1 + name_len then (Ok (), c)
          else
            attempt (slice body 1 (1 + name_len)) c (\<lambda>name.
            attempt (slice body (1 + name_len) (length body)) c (\<lambda>payload.
              if name = ascii ''SUBSCRIBE'' then do_subscribe P c payload
              else if name = ascii ''CANCEL'' then do_cancel P c payload
              else if name = ascii ''PING'' \<and> 1 \<le> peer_version_minor c then queue_pong payload c
              else (Ok (), c)))
      else
        if body = [] then (Ok (), c)
        else if body ! 0 = 0x01 then
          attempt (slice body 1 (length body)) c (\<lambda>pfx. do_subscribe P c pfx)
        else if body ! 0 = 0x00 then
          attempt (slice body 1 (length body)) c (\<lambda>pfx. do_cancel P c pfx)
        else (Ok (), c))"

definition feed_established :: "('b, 'v) conn_build \<Rightarrow> 'v Connection \<Rightarrow> bytes \<Rightarrow>
    (nat, ConnError) outcome \<times> 'v Connection" where
  "feed_established P c input =
     (case Frame.feed (target_of P) (FRAME_CAP P) (frame_decoder c) input of (r, d) \<Rightarrow>
        let c = c\<lparr>frame_decoder := d\<rparr> in
        attempt (map_err DecodeError r) c (\<lambda>(consumed, maybe_frame).
          case maybe_frame of
            None \<Rightarrow> (Ok consumed, c)
          | Some frame \<Rightarrow> try_then (on_frame P c frame) (\<lambda>_ c. (Ok consumed, c))))"

definition feed :: "('b, 'v) conn_build \<Rightarrow> 'v Connection \<Rightarrow> bytes \<Rightarrow> (nat, ConnError) outcome \<times> 'v Connection" where
  "feed P c input =
     (case state c of
        Greeting \<Rightarrow> feed_greeting c input
      | Ready \<Rightarrow> feed_ready P c input
      | PlainHello \<Rightarrow> feed_plain_hello P c input
      | PlainReady \<Rightarrow> feed_plain_ready P c input
      | Established \<Rightarrow> feed_established P c input
      | Failed \<Rightarrow> (Err WrongState, c))"

section \<open>Sending\<close>

type_synonym PublishHeaders = "bytes \<times> nat \<times> bytes \<times> nat"

text \<open>\<^verbatim>\<open>publish_headers\<close> and \<^verbatim>\<open>publish\<close> read the connection and change nothing in it.\<close>

definition publish_headers :: "('b, 'v) conn_build \<Rightarrow> 'v Connection \<Rightarrow> bytes \<Rightarrow> bytes \<Rightarrow>
    (PublishHeaders option, ConnError) outcome" where
  "publish_headers P c topic payload =
     (if state c \<noteq> Established then Err WrongState
      else if \<not> sub_matches (heapless_of P) (sub_table c) topic then Ok None
      else
        let th = replicate MAX_FRAME_HEADER 0 in
        (case encode_message_frame th (length topic) True of (r, th) \<Rightarrow>
           and_then (map_err FrameError r) (\<lambda>th_n.
           let ph = replicate MAX_FRAME_HEADER 0 in
           (case encode_message_frame ph (length payload) False of (r, ph) \<Rightarrow>
              and_then (map_err FrameError r) (\<lambda>ph_n. Ok (Some (th, th_n, ph, ph_n)))))))"

definition publish :: "('b, 'v) conn_build \<Rightarrow> 'v Connection \<Rightarrow> bytes \<Rightarrow> bytes \<Rightarrow> bytes \<Rightarrow>
    (nat, ConnError) outcome \<times> bytes" where
  "publish P c topic payload out =
     attempt (publish_headers P c topic payload) out (\<lambda>headers.
       case headers of
         None \<Rightarrow> (Ok 0, out)
       | Some (th, th_n, ph, ph_n) \<Rightarrow>
           let total = th_n + length topic + ph_n + length payload in
           if length out < total then (Err ConnError.BufferTooSmall, out)
           else
             attempt (slice th 0 th_n) out (\<lambda>th.
             attempt (slice ph 0 ph_n) out (\<lambda>ph.
               let w = 0 in
               copy_then out w (w + th_n) th (\<lambda>out.
               let w = w + th_n in
               copy_then out w (w + length topic) topic (\<lambda>out.
               let w = w + length topic in
               copy_then out w (w + ph_n) ph (\<lambda>out.
               let w = w + ph_n in
               copy_then out w (w + length payload) payload (\<lambda>out.
               let w = w + length payload in
               (Ok w, out))))))))"

definition write_error :: "'c link_scheme \<Rightarrow> bytes \<Rightarrow> (nat, ConnError) outcome \<times> bytes" where
  "write_error c out =
     (case encode_error out (ascii ''Invalid socket type'') of (r, out) \<Rightarrow> (map_err NullError r, out))"

definition write_pong :: "'c link_scheme \<Rightarrow> bytes \<Rightarrow> (nat option, ConnError) outcome \<times> bytes \<times> 'c link_scheme" where
  "write_pong c out =
     (case pending_pong c of
        None \<Rightarrow> (Ok None, out, c)
      | Some (ctx, ctx_len) \<Rightarrow>
          let body_len = 1 + 4 + ctx_len;
              total = 2 + body_len in
          if length out < total then (Err ConnError.BufferTooSmall, out, c)
          else
            let c = c\<lparr>pending_pong := None\<rparr>;
                out = out[0 := 0x04];
                out = out[1 := of_nat body_len];
                out = out[2 := 4] in
            attempt (copy_range out 3 7 (ascii ''PONG'')) (out, c) (\<lambda>out.
            attempt (and_then (slice ctx 0 ctx_len) (copy_range out 7 (7 + ctx_len))) (out, c) (\<lambda>out.
              (Ok (Some total), out, c))))"

section \<open>The connection as an interface\<close>

text \<open>One call of an application, as a run sees it; \<^verbatim>\<open>Ok(None)\<close> of \<^verbatim>\<open>write_pong\<close> is 0 bytes.\<close>

fun exec :: "('b, 'v) conn_build \<Rightarrow> 'v Connection \<Rightarrow> call \<Rightarrow> reply \<times> 'v Connection" where
  "exec P c (WriteGreeting out) = (case write_greeting c out of (r, out, c) \<Rightarrow> ((r, out), c))"
| "exec P c (WriteReady out) = (case write_ready c out of (r, out, c) \<Rightarrow> ((r, out), c))"
| "exec P c (WriteWelcome out) = (case write_welcome c out of (r, out, c) \<Rightarrow> ((r, out), c))"
| "exec P c (Feed input) = (case feed P c input of (r, c) \<Rightarrow> ((r, []), c))"
| "exec P c (WritePong out) =
     (case write_pong c out of (r, out, c) \<Rightarrow>
        ((and_then r (\<lambda>n. Ok (case n of None \<Rightarrow> 0 | Some n \<Rightarrow> n)), out), c))"
| "exec P c (WriteError out) = (write_error c out, c)"

end
