(* ===== verification/Connection_Spec.thy ===== *)
theory Connection_Spec
  imports Connection
begin

text \<open>
  The operations of a connection case by case, as the proofs about runs need them: results, the
  step of the handshake, the invariant and the relation to the peer's bytes. They are stated for
  any record that extends \<^verbatim>\<open>link\<close>.
\<close>

lemmas greeting_lens = GREETING_LEN_def GREETING_PARTIAL_LEN_def VERSION_MAJOR_def

section \<open>Writing\<close>

lemma write_greeting_eq:
  "write_greeting c out =
     (if state c \<noteq> Greeting \<or> our_greeting_sent c then (Err WrongState, out, c)
      else if length out < 64 then (Err ConnError.BufferTooSmall, out, c)
      else (Ok 64,
        (case mechanism c of Null \<Rightarrow> encode_greeting [] | Plain \<Rightarrow> encode_plain_greeting []) @ drop 64 out,
        c\<lparr>our_greeting_sent := True\<rparr>))"
proof -
  have "encode_greeting buf = encode_greeting []" "encode_plain_greeting buf = encode_plain_greeting []" for buf
    by (simp_all only: greeting_values)
  then show ?thesis
    by (cases "mechanism c") (simp_all add: write_greeting_def greeting_lens Let_def)
qed

lemma write_ready_eq:
  "write_ready c out =
     (if our_ready_sent c \<or> \<not> (state c = Ready \<or> mechanism c = Plain \<and> state c = PlainReady \<and> our_welcome_sent c)
      then (Err WrongState, out, c)
      else if length out < 27 then (Err ConnError.BufferTooSmall, out, c)
      else (Ok 27, READY_FRAME @ drop 27 out, c\<lparr>our_ready_sent := True\<rparr>))"
  by (cases "mechanism c") (auto simp: write_ready_def encode_ready_eq READY_LEN_def Let_def)

lemma write_welcome_eq:
  "write_welcome c out =
     (if state c \<noteq> PlainReady \<or> our_welcome_sent c then (Err WrongState, out, c)
      else if length out < 10 then (Err (PlainError PlainError.BufferTooSmall), out, c)
      else (Ok 10, WELCOME_FRAME @ drop 10 out, c\<lparr>our_welcome_sent := True\<rparr>))"
  by (simp add: write_welcome_def encode_welcome_eq WELCOME_LEN_def)

text \<open>The PONG command (RFC 37) with a context.\<close>

definition pong_frame :: "bytes \<Rightarrow> DecodedFrame" where
  "pong_frame ctx = \<lparr>df_more = False, df_is_command = True, df_body = command_body (ascii ''PONG'') ctx\<rparr>"

lemma seven_elements: "7 \<le> length xs \<Longrightarrow> \<exists>a b c d e f g r. xs = a # b # c # d # e # f # g # r"
  by (metis Suc_le_length_iff eval_nat_numeral(2,3) semiring_norm(26,27,28) numeral_1_eq_Suc_0 Suc_numeral numeral_eq_Suc)

lemma write_pong_eq:
  assumes "link_inv CAP accept c"
  shows "write_pong c out =
     (case pending_pong c of
        None \<Rightarrow> (Ok None, out, c)
      | Some (ctx, n) \<Rightarrow>
          (if length out < 7 + n then (Err ConnError.BufferTooSmall, out, c)
           else (Ok (Some (7 + n)), wire_frame (pong_frame (take n ctx)) @ drop (7 + n) out,
             c\<lparr>pending_pong := None\<rparr>)))"
proof (cases "pending_pong c")
  case None
  then show ?thesis by (simp add: write_pong_def)
next
  case (Some p)
  obtain ctx n where p: "p = (ctx, n)" by fastforce
  have ctx: "length ctx = 16" "n \<le> 16"
    using assms Some p by (auto simp: link_inv_def)
  show ?thesis
  proof (cases "length out < 7 + n")
    case True
    then show ?thesis by (simp add: write_pong_def Some p Let_def)
  next
    case False
    then obtain a b d e f g h r where "out = a # b # d # e # f # g # h # r"
      using seven_elements [of out] by auto
    with False ctx show ?thesis
      by (simp add: write_pong_def Some p Let_def wire_frame_def pong_frame_def frame_header_def
          flags_byte_def command_body_def)
  qed
qed

lemma write_error_eq:
  "write_error c out =
     (let body = command_body (ascii ''ERROR'') (command_body (ascii ''Invalid socket type'') []);
          frame = wire_frame \<lparr>df_more = False, df_is_command = True, df_body = body\<rparr> in
      if length out < length frame then (Err (NullError NullError.BufferTooSmall), out)
      else (Ok (length frame), frame @ drop (length frame) out))"
  by (simp add: write_error_def encode_error_eq command_body_def Let_def)

section \<open>Feeding the greeting\<close>

definition greeting_parser :: "Mechanism \<Rightarrow> bytes \<Rightarrow> (PeerGreeting, GreetingError) outcome" where
  "greeting_parser m = (case m of Null \<Rightarrow> parse_greeting | Plain \<Rightarrow> parse_plain_greeting)"

lemma greeting_parser_not_Panic [simp]: "greeting_parser m buf \<noteq> Panic"
  by (simp add: greeting_parser_def split: Mechanism.splits)

lemma feed_greeting_eq:
  assumes "link_inv CAP accept c"
  shows "feed_greeting c input =
     (let pos = greeting_pos c; n = min (length input) (64 - pos);
          buf = written (greeting_buf c) pos (take n input);
          c1 = c\<lparr>greeting_buf := buf, greeting_pos := pos + n\<rparr> in
      attempt (if pos < 11 \<and> 11 \<le> pos + n
               then map_err GreetingError (parse_partial_greeting (take 11 buf)) else Ok ()) c1 (\<lambda>_.
      if pos + n = 64 then
        attempt (map_err GreetingError (greeting_parser (mechanism c) buf)) c1 (\<lambda>g.
          let c2 = c1\<lparr>peer_version_minor := version_minor g, peer_greeting_received := True\<rparr> in
          (Ok n, if our_greeting_sent c
             then c2\<lparr>state := (case mechanism c of Null \<Rightarrow> Ready | Plain \<Rightarrow> PlainHello)\<rparr> else c2))
      else (Ok n, c1)))"
proof -
  define n where "n = min (length input) (64 - greeting_pos c)"
  define buf where "buf = written (greeting_buf c) (greeting_pos c) (take n input)"
  have len: "length (greeting_buf c) = 64" "greeting_pos c \<le> 64" "greeting_pos c + n \<le> 64" "n \<le> length input"
    using assms by (auto simp: link_inv_def n_def)
  then have copy: "copy_range (greeting_buf c) (greeting_pos c) (greeting_pos c + n) (take n input)
      = (Ok buf :: (bytes, ConnError) outcome)" and "length buf = 64"
    by (simp_all add: buf_def written_def)
  then show ?thesis
    using len(2,4)
    by (cases "mechanism c"; cases "our_greeting_sent c")
       (simp_all add: feed_greeting_def greeting_lens greeting_parser_def Let_def n_def [symmetric] not_less
         copy buf_def [symmetric] del: copy_range_ok)
qed

lemma link_inv_updates [simp]:
  "link_inv CAP accept (c\<lparr>our_greeting_sent := b\<rparr>) \<longleftrightarrow> link_inv CAP accept c"
  "link_inv CAP accept (c\<lparr>our_ready_sent := b\<rparr>) \<longleftrightarrow> link_inv CAP accept c"
  "link_inv CAP accept (c\<lparr>our_welcome_sent := b\<rparr>) \<longleftrightarrow> link_inv CAP accept c"
  "link_inv CAP accept (c\<lparr>peer_greeting_received := b\<rparr>) \<longleftrightarrow> link_inv CAP accept c"
  "link_inv CAP accept (c\<lparr>peer_version_minor := v\<rparr>) \<longleftrightarrow> link_inv CAP accept c"
  "link_inv CAP accept (c\<lparr>state := st\<rparr>) \<longleftrightarrow> link_inv CAP accept c"
  by (simp_all add: link_inv_def)

lemma link_inv_more [simp]: "link_inv CAP accept (c\<lparr>link.more := t\<rparr>) \<longleftrightarrow> link_inv CAP accept c"
  by (simp add: link_inv_def)

lemma link_inv_pong [simp]:
  "link_inv CAP accept c \<Longrightarrow> link_inv CAP accept (c\<lparr>pending_pong := None\<rparr>)"
  by (simp add: link_inv_def)

lemma link_rel_updates [simp]:
  "link_rel T CAP ready fs (c\<lparr>our_greeting_sent := b\<rparr>) s \<longleftrightarrow> link_rel T CAP ready fs c s"
  "link_rel T CAP ready fs (c\<lparr>our_ready_sent := b\<rparr>) s \<longleftrightarrow> link_rel T CAP ready fs c s"
  "link_rel T CAP ready fs (c\<lparr>our_welcome_sent := b\<rparr>) s \<longleftrightarrow> link_rel T CAP ready fs c s"
  "link_rel T CAP ready fs (c\<lparr>pending_pong := p\<rparr>) s \<longleftrightarrow> link_rel T CAP ready fs c s"
  "link_rel T CAP ready fs (c\<lparr>link.more := t\<rparr>) s \<longleftrightarrow> link_rel T CAP ready fs c s"
  by (cases "state c"; simp add: link_rel_def Let_def)+

lemma feed_greeting_inv:
  assumes "link_inv CAP accept c"
  shows "link_inv CAP accept (snd (feed_greeting c input)) \<and> fst (feed_greeting c input) \<noteq> Panic \<and>
    link.more (snd (feed_greeting c input)) = link.more c"
proof -
  define n where "n = min (length input) (64 - greeting_pos c)"
  define c1 where "c1 = c\<lparr>greeting_buf := written (greeting_buf c) (greeting_pos c) (take n input),
    greeting_pos := greeting_pos c + n\<rparr>"
  have "link_inv CAP accept c1" "link.more c1 = link.more c"
    using assms by (auto simp: c1_def n_def link_inv_def)
  then show ?thesis
    unfolding feed_greeting_eq [OF assms] Let_def n_def [symmetric] c1_def [symmetric]
    by (auto simp: attempt_def split: outcome.splits)
qed

lemma feed_greeting_step:
  assumes "link_inv CAP accept c" and "state c = Greeting"
  shows "hs_step can_auth (handshake_of c) (handshake_of (snd (feed_greeting c input)))"
proof -
  have eqs: "handshake_of (c\<lparr>greeting_buf := b, greeting_pos := p\<rparr>) = handshake_of c"
    "handshake_of (c\<lparr>greeting_buf := b, greeting_pos := p, peer_version_minor := v, peer_greeting_received := True\<rparr>)
       = (handshake_of c)\<lparr>hs_greeting_received := True\<rparr>"
    "handshake_of (c\<lparr>greeting_buf := b, greeting_pos := p, peer_version_minor := v, peer_greeting_received := True,
        state := st\<rparr>)
       = (handshake_of c)\<lparr>hs_greeting_received := True, hs_state := st\<rparr>" for b p v st
    by (simp_all add: handshake_of_def)
  have first: "hs_step can_auth (handshake_of c) ((handshake_of c)\<lparr>hs_greeting_received := True\<rparr>)"
    if "\<not> our_greeting_sent c"
    using that assms(2) by (intro hs_step.greeting_first) simp_all
  have last: "hs_step can_auth (handshake_of c)
      ((handshake_of c)\<lparr>hs_greeting_received := True, hs_state := (case mechanism c of Null \<Rightarrow> Ready | Plain \<Rightarrow> PlainHello)\<rparr>)"
    if "our_greeting_sent c"
    using that assms(2) hs_step.greeting_done [of "handshake_of c" can_auth] by simp
  show ?thesis
    unfolding feed_greeting_eq [OF assms(1)] Let_def attempt_def
    by (auto simp: eqs first last hs_step.idle split: outcome.splits)
qed

lemma feed_greeting_rel:
  assumes inv: "link_inv CAP accept c" and st: "state c = Greeting"
    and rel: "link_rel T CAP ready fs c s" and ok: "feed_greeting c input = (Ok n, c')"
  shows "link_rel T CAP ready fs c' (s @ take n input)"
proof -
  define k where "k = min (length input) (64 - greeting_pos c)"
  define buf where "buf = written (greeting_buf c) (greeting_pos c) (take k input)"
  have c: "length (greeting_buf c) = 64" "greeting_pos c = length s" "length s \<le> 64"
    "take (length s) (greeting_buf c) = s" "holds T CAP (frame_decoder c) []" "fs = []"
    using inv rel st by (auto simp: link_inv_def link_rel_def Let_def)
  have k: "length (take k input) = k" by (simp add: k_def)
  have buf: "take (length s + k) buf = s @ take k input" "length buf = 64"
    unfolding buf_def using c k take_written [of "length s" "greeting_buf c" "take k input"]
    by (simp_all add: k_def)
  have n: "n = k"
    using ok unfolding feed_greeting_eq [OF inv] Let_def k_def [symmetric]
    by (auto simp: attempt_def split: outcome.splits if_splits)
  show ?thesis
  proof (cases "length s + k = 64")
    case False
    with ok have "c' = c\<lparr>greeting_buf := buf, greeting_pos := length s + k\<rparr>"
      unfolding feed_greeting_eq [OF inv] Let_def k_def [symmetric] buf_def [symmetric]
      by (auto simp: attempt_def c(2) buf_def split: outcome.splits if_splits)
    with st c buf n k show ?thesis by (simp add: link_rel_def Let_def)
  next
    case True
    then obtain g where g: "greeting_parser (mechanism c) buf = Ok g"
      and c': "c' = (let c2 = c\<lparr>greeting_buf := buf, greeting_pos := 64, peer_version_minor := version_minor g,
          peer_greeting_received := True\<rparr> in
        if our_greeting_sent c then c2\<lparr>state := (case mechanism c of Null \<Rightarrow> Ready | Plain \<Rightarrow> PlainHello)\<rparr> else c2)"
      using ok unfolding feed_greeting_eq [OF inv] Let_def k_def [symmetric] buf_def [symmetric]
      by (auto simp: attempt_def c(2) buf_def split: outcome.splits if_splits)
    have all: "s @ take n input = buf" using buf True n by simp
    show ?thesis
    proof (cases "our_greeting_sent c")
      case False
      with st c buf c' show ?thesis by (simp add: link_rel_def Let_def all)
    next
      case sent: True
      have "meaning_of T CAP ready (mechanism c) (auth c) buf =
          (case mechanism c of Null \<Rightarrow> AwaitReady (version_minor g) [] | Plain \<Rightarrow> AwaitHello (version_minor g) [])"
        using g buf(2)
        by (cases "mechanism c") (simp_all add: meaning_of_def greeting_parser_def await_ready_def await_hello_def)
      with sent c c' show ?thesis
        by (cases "mechanism c") (simp_all add: link_rel_def Let_def all)
    qed
  qed
qed

section \<open>After an error\<close>

text \<open>
  The connection has seen an error it cannot recover from: it has failed, its decoder is poisoned,
  or the greeting it holds is bad.
\<close>

definition bad_greeting :: "'c link_scheme \<Rightarrow> bool" where
  "bad_greeting c \<longleftrightarrow> 11 \<le> greeting_pos c \<and>
     ((\<exists>e. parse_partial_greeting (take 11 (greeting_buf c)) = Err e) \<or>
      greeting_pos c = 64 \<and> (\<exists>e. greeting_parser (mechanism c) (greeting_buf c) = Err e))"

definition dead :: "'c link_scheme \<Rightarrow> bool" where
  "dead c \<longleftrightarrow>
     (case state c of
        Failed \<Rightarrow> True
      | Greeting \<Rightarrow> bad_greeting c
      | _ \<Rightarrow> fd_state (frame_decoder c) = Poisoned)"

lemma dead_updates [simp]:
  "dead (c\<lparr>our_greeting_sent := b\<rparr>) \<longleftrightarrow> dead c"
  "dead (c\<lparr>our_ready_sent := b\<rparr>) \<longleftrightarrow> dead c"
  "dead (c\<lparr>our_welcome_sent := b\<rparr>) \<longleftrightarrow> dead c"
  "dead (c\<lparr>pending_pong := p\<rparr>) \<longleftrightarrow> dead c"
  by (cases "state c"; simp add: dead_def bad_greeting_def)+

lemma feed_greeting_bad:
  assumes inv: "link_inv CAP accept c" and st: "state c = Greeting" and bad: "bad_greeting c"
  shows "state (snd (feed_greeting c input)) = Greeting \<and> bad_greeting (snd (feed_greeting c input))"
proof -
  define k where "k = min (length input) (64 - greeting_pos c)"
  define buf where "buf = written (greeting_buf c) (greeting_pos c) (take k input)"
  define c1 where "c1 = c\<lparr>greeting_buf := buf, greeting_pos := greeting_pos c + k\<rparr>"
  have len: "length (greeting_buf c) = 64" "greeting_pos c \<le> 64" "11 \<le> greeting_pos c" "length buf = 64"
    "greeting_pos c + k \<le> 64"
    using inv bad by (auto simp: link_inv_def bad_greeting_def buf_def k_def)
  have same: "take 11 buf = take 11 (greeting_buf c)"
    using len by (simp add: buf_def written_def min_def)
  have full: "\<exists>e. greeting_parser (mechanism c) buf = Err e" if "greeting_pos c + k = 64"
  proof (cases "\<exists>e. parse_partial_greeting (take 11 (greeting_buf c)) = Err e")
    case True
    then show ?thesis
      using partial_err [of buf] len same
      by (auto simp: greeting_parser_def greeting_lens split: Mechanism.splits)
  next
    case False
    with bad have "greeting_pos c = 64" "\<exists>e. greeting_parser (mechanism c) (greeting_buf c) = Err e"
      by (auto simp: bad_greeting_def)
    then show ?thesis using len by (simp add: buf_def k_def written_def)
  qed
  have "bad_greeting c1"
  proof (cases "greeting_pos c + k = 64")
    case True
    with full len show ?thesis by (simp add: bad_greeting_def c1_def)
  next
    case False
    with bad same len show ?thesis by (auto simp: bad_greeting_def c1_def)
  qed
  moreover have "snd (feed_greeting c input) = c1"
    using full len unfolding feed_greeting_eq [OF inv] Let_def k_def [symmetric] buf_def [symmetric] c1_def [symmetric]
    by (auto simp: attempt_def split: outcome.splits)
  ultimately show ?thesis using st by (simp add: c1_def)
qed

lemma feed_greeting_err:
  assumes inv: "link_inv CAP accept c" and st: "state c = Greeting"
    and err: "feed_greeting c input = (Err e, c')"
  shows "state c' = Greeting \<and> bad_greeting c'"
proof -
  define k where "k = min (length input) (64 - greeting_pos c)"
  define buf where "buf = written (greeting_buf c) (greeting_pos c) (take k input)"
  show ?thesis
    using err st unfolding feed_greeting_eq [OF inv] Let_def k_def [symmetric] buf_def [symmetric]
    by (auto simp: attempt_def bad_greeting_def map_err_eq_Err split: outcome.splits if_splits)
qed

section \<open>Feeding the commands of the handshake\<close>

lemma decoder_step_aux:
  assumes "fd_inv CAP d" and "Frame.feed T CAP d input = (r, d')"
  shows "fd_inv CAP d' \<and> r \<noteq> Panic"
  using feed_loop_post [OF assms(1), of 0 input T] assms(2)
  by (auto simp: Frame.feed_def feed_post_def split: outcome_splits)

lemma link_inv_decoder [simp]:
  "link_inv CAP accept c \<Longrightarrow> fd_inv CAP d \<Longrightarrow> link_inv CAP accept (c\<lparr>frame_decoder := d\<rparr>)"
  by (simp add: link_inv_def)

lemma handshake_of_updates [simp]:
  "handshake_of (c\<lparr>frame_decoder := d\<rparr>) = handshake_of c"
  "handshake_of (c\<lparr>pending_pong := p\<rparr>) = handshake_of c"
  "handshake_of (c\<lparr>link.more := t\<rparr>) = handshake_of c"
  "handshake_of (c\<lparr>state := st\<rparr>) = (handshake_of c)\<lparr>hs_state := st\<rparr>"
  "handshake_of (c\<lparr>our_greeting_sent := b\<rparr>) = (handshake_of c)\<lparr>hs_greeting_sent := b\<rparr>"
  "handshake_of (c\<lparr>our_welcome_sent := b\<rparr>) = (handshake_of c)\<lparr>hs_welcome_sent := b\<rparr>"
  "handshake_of (c\<lparr>our_ready_sent := b\<rparr>) = (handshake_of c)\<lparr>hs_ready_sent := b\<rparr>"
  by (simp_all add: handshake_of_def)

lemma decoder_step:
  assumes "link_inv CAP accept c" and "Frame.feed T CAP (frame_decoder c) input = (r, d)"
  shows "fd_inv CAP d \<and> r \<noteq> Panic"
proof -
  have "fd_inv CAP (frame_decoder c)" using assms(1) by (simp add: link_inv_def)
  from decoder_step_aux [OF this assms(2)] show ?thesis by simp
qed

text \<open>
  Waiting for the peer's READY, for any parser of it: both connection types do this with the parser of
  their socket type.
\<close>

definition ready_inner :: "('b, 'v, 'p) build_scheme \<Rightarrow> (bool \<Rightarrow> bytes \<Rightarrow> (PeerSocketType, NullError) outcome) \<Rightarrow>
    'c link_scheme \<Rightarrow> bytes \<Rightarrow> (nat, ConnError) outcome \<times> 'c link_scheme" where
  "ready_inner P ready c input =
     (case Frame.feed (target_of P) (FRAME_CAP P) (frame_decoder c) input of (r, d) \<Rightarrow>
        let c = c\<lparr>frame_decoder := d\<rparr> in
        attempt (map_err DecodeError r) c (\<lambda>(consumed, maybe_frame).
          case maybe_frame of
            None \<Rightarrow> (Ok consumed, c)
          | Some frame \<Rightarrow>
              let body = df_body frame in
              if 255 < length body then (Err (NullError MalformedMetadata), c\<lparr>state := Failed\<rparr>)
              else
                (case ready (df_is_command frame) body of
                   Ok _ \<Rightarrow> (Ok consumed, c\<lparr>state := Established\<rparr>)
                 | Err e \<Rightarrow> (Err (NullError e), c\<lparr>state := Failed\<rparr>)
                 | Panic \<Rightarrow> (Panic, c))))"

lemma feed_ready_inner_eq: "feed_ready_inner P = ready_inner P (parse_ready_from (target_of P))"
  by (simp add: fun_eq_iff feed_ready_inner_def ready_inner_def)

lemma ready_inner_inv:
  assumes "link_inv (FRAME_CAP P) accept c"
  shows "link_inv (FRAME_CAP P) accept (snd (ready_inner P ready c input)) \<and>
    link.more (snd (ready_inner P ready c input)) = link.more c \<and>
    ((\<forall>b body. length body \<le> 255 \<longrightarrow> ready b body \<noteq> Panic) \<longrightarrow> fst (ready_inner P ready c input) \<noteq> Panic)"
proof -
  obtain r d where d: "Frame.feed (target_of P) (FRAME_CAP P) (frame_decoder c) input = (r, d)"
    by fastforce
  from decoder_step [OF assms d] have "fd_inv (FRAME_CAP P) d" "r \<noteq> Panic" by auto
  then show ?thesis
    using assms unfolding ready_inner_def d
    by (auto simp: attempt_def Let_def map_err_eq_Err not_less split: outcome.splits option.splits)
qed

lemma ready_inner_step:
  "handshake_of (snd (ready_inner P ready c input)) \<in>
     {handshake_of c, (handshake_of c)\<lparr>hs_state := Established\<rparr>, (handshake_of c)\<lparr>hs_state := Failed\<rparr>}"
  unfolding ready_inner_def by (auto simp: attempt_def Let_def split: outcome.splits option.splits prod.splits)

lemma ready_inner_rel:
  assumes rel: "link_rel (target_of P) (FRAME_CAP P) ready fs c s"
    and st: "state c = Ready \<or> state c = PlainReady"
    and ok: "ready_inner P ready c input = (Ok n, c')"
  shows "link_rel (target_of P) (FRAME_CAP P) ready fs c' (s @ take n input)"
proof -
  let ?T = "target_of P" and ?CAP = "FRAME_CAP P"
  let ?M = "meaning_of ?T ?CAP ready (mechanism c) (auth c)"
  obtain r where m: "?M s = AwaitReady (peer_version_minor c) r"
    and hold: "holds ?T ?CAP (frame_decoder c) r" and fs: "fs = []"
    using rel st by (auto simp: link_rel_def Let_def)
  obtain res d where d: "Frame.feed ?T ?CAP (frame_decoder c) input = (res, d)" by fastforce
  note step = holds_feed [OF hold d]
  have m': "?M (s @ take n input) = await_ready ?T ?CAP ready (peer_version_minor c) (r @ take n input)"
    using meaning_of_append(2) [OF m] .
  show ?thesis
  proof (cases "res = Ok (length input, None)")
    case True
    with ok d have "c' = c\<lparr>frame_decoder := d\<rparr>" "n = length input"
      by (auto simp: ready_inner_def Let_def)
    with st step True m' fs show ?thesis
      by (auto simp: link_rel_def Let_def await_ready_def)
  next
    case False
    with ok d step obtain f ty where f: "res = Ok (n, Some f)" "c' = c\<lparr>frame_decoder := d, state := Established\<rparr>"
      "length (df_body f) \<le> 255" "ready (df_is_command f) (df_body f) = Ok ty"
      by (auto simp: ready_inner_def Let_def attempt_def map_err_eq_Err split: outcome.splits option.splits if_splits)
    with step have "parse_frame ?T ?CAP (r @ take n input) = Complete (length r + n) f"
      "holds ?T ?CAP d []" "n \<le> length input" by auto
    then have "await_ready ?T ?CAP ready (peer_version_minor c) (r @ take n input)
        = Talking (peer_version_minor c) [] []"
      using f by (simp add: await_ready_def after_ready_def frames_incomplete)
    with m' f fs \<open>holds ?T ?CAP d []\<close> show ?thesis by (simp add: link_rel_def Let_def)
  qed
qed

lemma feed_plain_hello_inv:
  assumes "link_inv (FRAME_CAP P) accept c"
  shows "link_inv (FRAME_CAP P) accept (snd (feed_plain_hello P c input)) \<and>
    link.more (snd (feed_plain_hello P c input)) = link.more c \<and> fst (feed_plain_hello P c input) \<noteq> Panic"
proof -
  obtain r d where d: "Frame.feed (target_of P) (FRAME_CAP P) (frame_decoder c) input = (r, d)"
    by fastforce
  from decoder_step [OF assms d] have "fd_inv (FRAME_CAP P) d" "r \<noteq> Panic" by auto
  then show ?thesis
    using assms unfolding feed_plain_hello_def d
    by (auto simp: attempt_def Let_def map_err_eq_Err split: outcome.splits option.splits)
qed

lemma feed_plain_hello_step:
  "handshake_of (snd (feed_plain_hello P c input)) \<in>
     {handshake_of c, (handshake_of c)\<lparr>hs_state := Failed\<rparr>} \<or>
   (\<exists>u p. auth c u p) \<and>
   handshake_of (snd (feed_plain_hello P c input)) = (handshake_of c)\<lparr>hs_state := PlainReady\<rparr>"
  unfolding feed_plain_hello_def
  by (auto simp: attempt_def Let_def split: outcome.splits option.splits prod.splits)

lemma feed_plain_hello_rel:
  assumes rel: "link_rel (target_of P) (FRAME_CAP P) ready fs c s"
    and st: "state c = PlainHello"
    and ok: "feed_plain_hello P c input = (Ok n, c')"
  shows "link_rel (target_of P) (FRAME_CAP P) ready fs c' (s @ take n input)"
proof -
  let ?T = "target_of P" and ?CAP = "FRAME_CAP P"
  let ?M = "meaning_of ?T ?CAP ready (mechanism c) (auth c)"
  obtain r where m: "?M s = AwaitHello (peer_version_minor c) r"
    and hold: "holds ?T ?CAP (frame_decoder c) r" and fs: "fs = []"
    using rel st by (auto simp: link_rel_def Let_def)
  obtain res d where d: "Frame.feed ?T ?CAP (frame_decoder c) input = (res, d)" by fastforce
  note step = holds_feed [OF hold d]
  have m': "?M (s @ take n input) = await_hello ?T ?CAP ready (auth c) (peer_version_minor c) (r @ take n input)"
    using meaning_of_append(1) [OF m] .
  show ?thesis
  proof (cases "res = Ok (length input, None)")
    case True
    with ok d have "c' = c\<lparr>frame_decoder := d\<rparr>" "n = length input"
      by (auto simp: feed_plain_hello_def Let_def)
    with st step True m' fs show ?thesis
      by (auto simp: link_rel_def Let_def await_hello_def)
  next
    case False
    with ok d step obtain f u p where f: "res = Ok (n, Some f)" "c' = c\<lparr>frame_decoder := d, state := PlainReady\<rparr>"
      "parse_hello_from (df_is_command f) (df_body f) = Ok (u, p)" "auth c u p"
      by (auto simp: feed_plain_hello_def Let_def attempt_def map_err_eq_Err
          split: outcome.splits option.splits if_splits prod.splits)
    with step have "parse_frame ?T ?CAP (r @ take n input) = Complete (length r + n) f"
      "holds ?T ?CAP d []" "n \<le> length input" by auto
    then have "await_hello ?T ?CAP ready (auth c) (peer_version_minor c) (r @ take n input)
        = AwaitReady (peer_version_minor c) []"
      using f by (simp add: await_hello_def await_ready_def)
    with m' f fs \<open>holds ?T ?CAP d []\<close> show ?thesis by (simp add: link_rel_def Let_def)
  qed
qed

section \<open>Established\<close>

lemma queue_pong_eq:
  "queue_pong payload c =
     (let n = min (length payload - 2) 16 in
      (Ok (), c\<lparr>pending_pong := Some (take n (drop 2 payload) @ replicate (16 - n) 0, n)\<rparr>))"
  by (simp add: queue_pong_def get_from_def Let_def min_def)

text \<open>The command of a frame body, as the handlers split it.\<close>

lemma split_command_eq:
  "split_command body =
     (if body = [] \<or> length body < 1 + unat (body ! 0) then None
      else Some (take (unat (body ! 0)) (drop 1 body), drop (1 + unat (body ! 0)) body))"
  by (cases body) auto

text \<open>What a frame does to the state of an established connection, in terms of the command in it.\<close>

lemma on_frame_eq:
  "on_frame P c f =
     (if df_is_command f then
        (case split_command (df_body f) of
           None \<Rightarrow> (Ok (), c)
         | Some (name, payload) \<Rightarrow>
             if name = ascii ''SUBSCRIBE'' then do_subscribe P c payload
             else if name = ascii ''CANCEL'' then do_cancel P c payload
             else if name = ascii ''PING'' \<and> 1 \<le> peer_version_minor c then queue_pong payload c
             else (Ok (), c))
      else
        (case df_body f of
           [] \<Rightarrow> (Ok (), c)
         | b # pfx \<Rightarrow> if b = 1 then do_subscribe P c pfx else if b = 0 then do_cancel P c pfx else (Ok (), c)))"
  by (cases "df_body f") (auto simp: on_frame_def split_command_eq Let_def simp del: ascii_simps)

end
