(* ===== verification/Client.thy ===== *)
theory Client
  imports Connection_Spec
begin

text \<open>
  What the two connection types do the same way once their table is set aside: the dispatch of
  \<^verbatim>\<open>feed\<close> on the state, with the parser of the peer's READY and the handler of a frame as
  parameters, and the properties of whole runs. The interface \<^verbatim>\<open>client\<close> states what the handler has
  to guarantee; the theories of the two connection types discharge it.
\<close>

section \<open>The common shape\<close>

definition established :: "('b, 'v, 'p) build_scheme \<Rightarrow> ('c link_scheme \<Rightarrow> DecodedFrame \<Rightarrow> (unit, ConnError) outcome \<times> 'c link_scheme) \<Rightarrow>
    'c link_scheme \<Rightarrow> bytes \<Rightarrow> (nat, ConnError) outcome \<times> 'c link_scheme" where
  "established P handler c input =
     (case Frame.feed (target_of P) (FRAME_CAP P) (frame_decoder c) input of (r, d) \<Rightarrow>
        let c = c\<lparr>frame_decoder := d\<rparr> in
        attempt (map_err DecodeError r) c (\<lambda>(consumed, maybe_frame).
          case maybe_frame of
            None \<Rightarrow> (Ok consumed, c)
          | Some frame \<Rightarrow> try_then (handler c frame) (\<lambda>_ c. (Ok consumed, c))))"

definition client_feed :: "('b, 'v, 'p) build_scheme \<Rightarrow> (bool \<Rightarrow> bytes \<Rightarrow> (PeerSocketType, NullError) outcome) \<Rightarrow>
    ('c link_scheme \<Rightarrow> DecodedFrame \<Rightarrow> (unit, ConnError) outcome \<times> 'c link_scheme) \<Rightarrow>
    'c link_scheme \<Rightarrow> bytes \<Rightarrow> (nat, ConnError) outcome \<times> 'c link_scheme" where
  "client_feed P ready handler c input =
     (case state c of
        Greeting \<Rightarrow> feed_greeting c input
      | Ready \<Rightarrow> if \<not> our_ready_sent c then (Err WrongState, c) else ready_inner P ready c input
      | PlainHello \<Rightarrow> feed_plain_hello P c input
      | PlainReady \<Rightarrow>
          if \<not> our_welcome_sent c \<or> \<not> our_ready_sent c then (Err WrongState, c)
          else ready_inner P ready c input
      | Established \<Rightarrow> established P handler c input
      | Failed \<Rightarrow> (Err WrongState, c))"

text \<open>\<^verbatim>\<open>write_ready\<close> of a connection whose READY command is \<^verbatim>\<open>frame\<close>.\<close>

definition client_write_ready :: "bytes \<Rightarrow> 'c link_scheme \<Rightarrow> bytes \<Rightarrow> (nat, ConnError) outcome \<times> bytes \<times> 'c link_scheme" where
  "client_write_ready frame c out =
     (if our_ready_sent c \<or> \<not> (state c = Ready \<or> mechanism c = Plain \<and> state c = PlainReady \<and> our_welcome_sent c)
      then (Err WrongState, out, c)
      else if length out < length frame then (Err ConnError.BufferTooSmall, out, c)
      else (Ok (length frame), frame @ drop (length frame) out, c\<lparr>our_ready_sent := True\<rparr>))"

fun client_exec :: "('b, 'v, 'p) build_scheme \<Rightarrow> bytes \<Rightarrow> (bool \<Rightarrow> bytes \<Rightarrow> (PeerSocketType, NullError) outcome) \<Rightarrow>
    ('c link_scheme \<Rightarrow> DecodedFrame \<Rightarrow> (unit, ConnError) outcome \<times> 'c link_scheme) \<Rightarrow>
    'c link_scheme \<Rightarrow> call \<Rightarrow> reply \<times> 'c link_scheme" where
  "client_exec P frame ready handler c (WriteGreeting out) = (case write_greeting c out of (r, out, c) \<Rightarrow> ((r, out), c))"
| "client_exec P frame ready handler c (WriteReady out) = (case client_write_ready frame c out of (r, out, c) \<Rightarrow> ((r, out), c))"
| "client_exec P frame ready handler c (WriteWelcome out) = (case write_welcome c out of (r, out, c) \<Rightarrow> ((r, out), c))"
| "client_exec P frame ready handler c (Feed input) = (case client_feed P ready handler c input of (r, c) \<Rightarrow> ((r, []), c))"
| "client_exec P frame ready handler c (WritePong out) =
     (case write_pong c out of (r, out, c) \<Rightarrow>
        ((and_then r (\<lambda>n. Ok (case n of None \<Rightarrow> 0 | Some n \<Rightarrow> n)), out), c))"
| "client_exec P frame ready handler c (WriteError out) = (write_error c out, c)"

text \<open>An error of \<^verbatim>\<open>feed\<close> never comes with the step to the established state.\<close>

lemma ready_inner_err: "ready_inner P ready c input = (Err e, c') \<Longrightarrow> state c' = state c \<or> state c' = Failed"
  by (auto simp: ready_inner_def Let_def attempt_def map_err_eq_Err
      split: outcome.splits prod.splits option.splits if_splits)

lemma client_feed_err_state:
  assumes "client_feed P ready handler c input = (Err e, c')" and "state c \<noteq> Established"
  shows "state c' = state c \<or> state c' = Failed"
proof -
  have "state c' = state c" if "feed_greeting c input = (Err e, c')"
    using that by (auto simp: feed_greeting_def Let_def attempt_def and_then_eq_Ok split: outcome.splits if_splits)
  moreover have "state c' = state c \<or> state c' = Failed" if "feed_plain_hello P c input = (Err e, c')"
    using that by (auto simp: feed_plain_hello_def Let_def attempt_def map_err_eq_Err
        split: outcome.splits prod.splits option.splits if_splits)
  ultimately show ?thesis
    using assms ready_inner_err [of P ready c input e c']
    by (cases "state c") (auto simp: client_feed_def split: if_splits)
qed

section \<open>Invariant and relation\<close>

text \<open>
  The invariant of the common fields with that of the table; and the relation to the peer's bytes:
  the frames after the handshake have been handed on, and have had their effect on the table.
\<close>

definition client_inv :: "('b, 'v, 'p) build_scheme \<Rightarrow> ('c link_scheme \<Rightarrow> bool) \<Rightarrow> auth_check \<Rightarrow> 'c link_scheme \<Rightarrow> bool" where
  "client_inv P tab_ok accept c \<longleftrightarrow> link_inv (FRAME_CAP P) accept c \<and> tab_ok c"

definition client_rel :: "('b, 'v, 'p) build_scheme \<Rightarrow> (bool \<Rightarrow> bytes \<Rightarrow> (PeerSocketType, NullError) outcome) \<Rightarrow>
    ('c link_scheme \<Rightarrow> 's) \<Rightarrow> ('s \<Rightarrow> DecodedFrame \<Rightarrow> 's) \<Rightarrow> 's \<Rightarrow> 'c link_scheme \<Rightarrow> bytes \<Rightarrow> bool" where
  "client_rel P ready contents effect init c s \<longleftrightarrow>
     (\<exists>fs. link_rel (target_of P) (FRAME_CAP P) ready fs c s \<and> contents c = foldl effect init fs)"

text \<open>
  The handler of a frame changes only the pending pong and the table, keeps the table's invariant
  and has the effect \<^verbatim>\<open>effect\<close> on its contents.
\<close>

locale client =
  fixes P :: "('b, 'v, 'p) build_scheme"
    and ready :: "bool \<Rightarrow> bytes \<Rightarrow> (PeerSocketType, NullError) outcome"
    and ready_frame :: bytes
    and handler :: "'c link_scheme \<Rightarrow> DecodedFrame \<Rightarrow> (unit, ConnError) outcome \<times> 'c link_scheme"
    and tab_ok :: "'c link_scheme \<Rightarrow> bool"
    and contents :: "'c link_scheme \<Rightarrow> 's"
    and effect :: "'s \<Rightarrow> DecodedFrame \<Rightarrow> 's"
    and init :: 's
    and feed :: "'c link_scheme \<Rightarrow> bytes \<Rightarrow> (nat, ConnError) outcome \<times> 'c link_scheme"
    and exec :: "'c link_scheme \<Rightarrow> call \<Rightarrow> reply \<times> 'c link_scheme"
  assumes handler_effect: "tab_ok c \<Longrightarrow> \<exists>p t. handler c f = (Ok (), c\<lparr>pending_pong := p, link.more := t\<rparr>) \<and>
      (p = pending_pong c \<or> (\<exists>ctx n. p = Some (ctx, n) \<and> length ctx = 16 \<and> n \<le> 16)) \<and>
      tab_ok (c\<lparr>link.more := t\<rparr>) \<and> contents (c\<lparr>link.more := t\<rparr>) = effect (contents c) f"
    and tab_ok_more: "link.more c' = link.more c \<Longrightarrow> tab_ok c' \<longleftrightarrow> tab_ok c"
    and contents_more: "link.more c' = link.more c \<Longrightarrow> contents c' = contents c"
    and feed_eq: "feed = client_feed P ready handler"
    and exec_eq: "exec = client_exec P ready_frame ready handler"
begin

abbreviation (input) inv :: "auth_check \<Rightarrow> 'c link_scheme \<Rightarrow> bool" where
  "inv \<equiv> client_inv P tab_ok"

abbreviation (input) rel :: "'c link_scheme \<Rightarrow> bytes \<Rightarrow> bool" where
  "rel \<equiv> client_rel P ready contents effect init"

lemma tab_updates [simp]:
  "tab_ok (c\<lparr>frame_decoder := d\<rparr>) \<longleftrightarrow> tab_ok c" "contents (c\<lparr>frame_decoder := d\<rparr>) = contents c"
  "tab_ok (c\<lparr>pending_pong := p\<rparr>) \<longleftrightarrow> tab_ok c" "contents (c\<lparr>pending_pong := p\<rparr>) = contents c"
  "tab_ok (c\<lparr>our_greeting_sent := b\<rparr>) \<longleftrightarrow> tab_ok c" "contents (c\<lparr>our_greeting_sent := b\<rparr>) = contents c"
  "tab_ok (c\<lparr>our_ready_sent := b\<rparr>) \<longleftrightarrow> tab_ok c" "contents (c\<lparr>our_ready_sent := b\<rparr>) = contents c"
  "tab_ok (c\<lparr>our_welcome_sent := b\<rparr>) \<longleftrightarrow> tab_ok c" "contents (c\<lparr>our_welcome_sent := b\<rparr>) = contents c"
  by (rule tab_ok_more contents_more; simp)+

text \<open>An established connection and its decoder.\<close>

lemma established_cases:
  assumes "inv accept c"
  obtains (wait) d where "Frame.feed (target_of P) (FRAME_CAP P) (frame_decoder c) input = (Ok (length input, None), d)"
      "fd_inv (FRAME_CAP P) d"
      "established P handler c input = (Ok (length input), c\<lparr>frame_decoder := d\<rparr>)"
  | (frame) n f d t p where "Frame.feed (target_of P) (FRAME_CAP P) (frame_decoder c) input = (Ok (n, Some f), d)"
      "fd_inv (FRAME_CAP P) d"
      "established P handler c input = (Ok n, c\<lparr>frame_decoder := d, pending_pong := p, link.more := t\<rparr>)"
      "p = pending_pong c \<or> (\<exists>ctx n. p = Some (ctx, n) \<and> length ctx = 16 \<and> n \<le> 16)"
      "tab_ok (c\<lparr>frame_decoder := d, pending_pong := p, link.more := t\<rparr>)"
      "contents (c\<lparr>frame_decoder := d, pending_pong := p, link.more := t\<rparr>) = effect (contents c) f"
  | (bad) e d where "Frame.feed (target_of P) (FRAME_CAP P) (frame_decoder c) input = (Err e, d)"
      "fd_inv (FRAME_CAP P) d"
      "established P handler c input = (Err (DecodeError e), c\<lparr>frame_decoder := d\<rparr>)"
proof -
  obtain r d where d: "Frame.feed (target_of P) (FRAME_CAP P) (frame_decoder c) input = (r, d)"
    by fastforce
  have fd: "fd_inv (FRAME_CAP P) (frame_decoder c)" and tab: "tab_ok (c\<lparr>frame_decoder := d\<rparr>)"
    using assms tab_ok_more [of "c\<lparr>frame_decoder := d\<rparr>" c] by (auto simp: client_inv_def link_inv_def)
  have post: "feed_post (FRAME_CAP P) input 0 (r, d)"
    using feed_loop_post [OF fd, of 0 input "target_of P"] d by (simp add: Frame.feed_def)
  show thesis
  proof (cases r)
    case (Ok nf)
    show thesis
    proof (cases "snd nf")
      case None
      with Ok post d show thesis
        by (cases nf) (auto intro!: wait simp: established_def Let_def)
    next
      case (Some f)
      let ?c = "c\<lparr>frame_decoder := d\<rparr>"
      from handler_effect [OF tab, of f] obtain p t where h:
        "handler ?c f = (Ok (), ?c\<lparr>pending_pong := p, link.more := t\<rparr>)"
        "p = pending_pong c \<or> (\<exists>ctx n. p = Some (ctx, n) \<and> length ctx = 16 \<and> n \<le> 16)"
        "tab_ok (?c\<lparr>link.more := t\<rparr>)" "contents (?c\<lparr>link.more := t\<rparr>) = effect (contents ?c) f"
        by auto
      have "tab_ok (?c\<lparr>pending_pong := p, link.more := t\<rparr>)"
        "contents (?c\<lparr>pending_pong := p, link.more := t\<rparr>) = effect (contents c) f"
        using h(3,4) tab_ok_more [of "?c\<lparr>pending_pong := p, link.more := t\<rparr>" "?c\<lparr>link.more := t\<rparr>"]
          contents_more [of "?c\<lparr>pending_pong := p, link.more := t\<rparr>" "?c\<lparr>link.more := t\<rparr>"]
          contents_more [of ?c c]
        by simp_all
      with h(1,2) Ok Some post d show thesis
        by (cases nf) (rule frame [where t = t and p = p], auto simp: established_def Let_def)
    qed
  next
    case (Err e)
    with post d show thesis by (intro bad [of e d]) (auto simp: established_def Let_def)
  next
    case Panic
    with post show thesis by simp
  qed
qed

lemma established_inv:
  assumes "inv accept c"
  shows "inv accept (snd (established P handler c input)) \<and>
    fst (established P handler c input) \<noteq> Panic \<and>
    handshake_of (snd (established P handler c input)) = handshake_of c"
proof -
  have "\<forall>ctx n. Some (ctx, n) = pending_pong c \<longrightarrow> length ctx = 16 \<and> n \<le> 16"
    using assms by (auto simp: client_inv_def link_inv_def dest: sym)
  with assms show ?thesis
    by (rule_tac established_cases [OF assms, where input = input])
       (auto simp: client_inv_def link_inv_def handshake_of_def)
qed

lemma established_rel:
  assumes inv: "inv accept c" and rel: "rel c s" and st: "state c = Established"
    and ok: "established P handler c input = (Ok n, c')"
  shows "rel c' (s @ take n input)"
proof -
  let ?T = "target_of P" and ?CAP = "FRAME_CAP P"
  let ?M = "meaning_of ?T ?CAP ready (mechanism c) (auth c)"
  obtain fs r where m: "?M s = Talking (peer_version_minor c) fs r"
    and hold: "holds ?T ?CAP (frame_decoder c) r"
    and S: "contents c = foldl effect init fs"
    using rel st by (auto simp: client_rel_def link_rel_def Let_def)
  have m': "?M (s @ take n input) =
      (case frames ?T ?CAP (r @ take n input) of (gs, r') \<Rightarrow> Talking (peer_version_minor c) (fs @ gs) r')"
    using meaning_of_append(3) [OF m] .
  show ?thesis
    using inv
  proof (cases rule: established_cases [where input = input])
    case (wait d)
    with ok have "c' = c\<lparr>frame_decoder := d\<rparr>" "n = length input" by auto
    with holds_feed [OF hold wait(1)] st m' S show ?thesis
      by (auto simp: client_rel_def link_rel_def Let_def frames_incomplete)
  next
    case (frame k f d t p)
    with ok have c': "c' = c\<lparr>frame_decoder := d, pending_pong := p, link.more := t\<rparr>" and "k = n" by auto
    with holds_feed [OF hold frame(1)] have "parse_frame ?T ?CAP (r @ take n input) = Complete (length r + n) f"
      "holds ?T ?CAP d []" "n \<le> length input" by auto
    moreover from this have "frames ?T ?CAP (r @ take n input) = ([f], [])"
      by (intro frames_complete) simp
    moreover have "contents c' = foldl effect init (fs @ [f])"
      using frame(6) S c' by simp
    ultimately show ?thesis
      using m' c' st by (auto simp: client_rel_def link_rel_def Let_def)
  next
    case (bad e d)
    with ok show ?thesis by simp
  qed
qed

text \<open>\<^verbatim>\<open>feed\<close> in any state, and every other call.\<close>

lemma inv_more:
  "inv accept c \<Longrightarrow> link_inv (FRAME_CAP P) accept c' \<Longrightarrow> link.more c' = link.more c \<Longrightarrow> inv accept c'"
  using tab_ok_more [of c' c] by (simp add: client_inv_def)

lemma feed_inv:
  assumes "inv accept c"
  shows "inv accept (snd (feed c input))"
proof -
  have link: "link_inv (FRAME_CAP P) accept c" using assms by (simp add: client_inv_def)
  note more = inv_more [OF assms]
  show ?thesis
    using feed_greeting_inv [OF link, of input] ready_inner_inv [OF link, of ready input]
      feed_plain_hello_inv [OF link, of input] established_inv [OF assms, of input] assms more
    by (cases "state c") (auto simp: feed_eq client_feed_def)
qed

lemma feed_safe:
  assumes "inv accept c" and "\<forall>b body. length body \<le> 255 \<longrightarrow> ready b body \<noteq> Panic"
  shows "fst (feed c input) \<noteq> Panic"
proof -
  have link: "link_inv (FRAME_CAP P) accept c" using assms by (simp add: client_inv_def)
  then show ?thesis
    using feed_greeting_inv [OF link, of input] ready_inner_inv [OF link, of ready input]
      feed_plain_hello_inv [OF link, of input] established_inv [OF assms(1), of input] assms(2)
    by (cases "state c") (auto simp: feed_eq client_feed_def)
qed

lemma feed_step:
  assumes "inv accept c"
  shows "hs_step (\<exists>u p. accept u p) (handshake_of c) (handshake_of (snd (feed c input)))"
proof -
  have link: "link_inv (FRAME_CAP P) accept c" and acc: "auth c = accept"
    using assms by (auto simp: client_inv_def link_inv_def)
  note steps = hs_step.peer_ready [of "handshake_of c" "\<exists>u p. accept u p"]
    hs_step.reject [of "handshake_of c" "\<exists>u p. accept u p"] hs_step.idle
    hs_step.hello_accepted [of "handshake_of c" "\<exists>u p. accept u p"]
  show ?thesis
  proof (cases "state c")
    case Greeting
    then show ?thesis using feed_greeting_step [OF link] by (simp add: feed_eq client_feed_def)
  next
    case Ready
    then show ?thesis
      using ready_inner_step [of P ready c input] steps
      by (auto simp: feed_eq feed_eq client_feed_def)
  next
    case PlainHello
    let ?h = "handshake_of (snd (feed_plain_hello P c input))"
    consider "?h = handshake_of c" | "?h = (handshake_of c)\<lparr>hs_state := Failed\<rparr>"
      | "\<exists>u p. accept u p" "?h = (handshake_of c)\<lparr>hs_state := PlainReady\<rparr>"
      using feed_plain_hello_step [of P c input] acc by blast
    then have "hs_step (\<exists>u p. accept u p) (handshake_of c) ?h"
      by cases (use PlainHello steps in simp_all)
    then show ?thesis by (simp add: feed_eq client_feed_def PlainHello)
  next
    case PlainReady
    then show ?thesis
      using ready_inner_step [of P ready c input] steps
      by (auto simp: feed_eq feed_eq client_feed_def)
  next
    case Established
    then show ?thesis
      using established_inv [OF assms, of input] by (simp add: feed_eq client_feed_def hs_step.idle)
  next
    case Failed
    then show ?thesis by (simp add: feed_eq client_feed_def hs_step.idle)
  qed
qed

lemma feed_wrong_state:
  assumes "inv accept c" and "feed c input = (Err WrongState, c')"
  shows "c' = c"
proof -
  have link: "link_inv (FRAME_CAP P) accept c" using assms by (simp add: client_inv_def)
  have "feed_greeting c input \<noteq> (Err WrongState, c')"
    by (auto simp: feed_greeting_eq [OF link] Let_def attempt_def map_err_eq_Err split: outcome.splits if_splits)
  moreover have "ready_inner P ready c input \<noteq> (Err WrongState, c')"
    by (auto simp: ready_inner_def Let_def attempt_def map_err_eq_Err
        split: outcome.splits prod.splits option.splits if_splits)
  moreover have "feed_plain_hello P c input \<noteq> (Err WrongState, c')"
    by (auto simp: feed_plain_hello_def Let_def attempt_def map_err_eq_Err
        split: outcome.splits prod.splits option.splits if_splits)
  moreover have "established P handler c input \<noteq> (Err WrongState, c')"
    by (rule_tac established_cases [OF assms(1), where input = input]) auto
  ultimately show ?thesis
    using assms(2) by (cases "state c") (auto simp: feed_eq client_feed_def split: if_splits)
qed

lemma feed_rel:
  assumes inv: "inv accept c" and rel: "rel c s"
    and ok: "feed c input = (r, c')" "clean (Feed input) r"
  shows "rel c' (s @ consumed (Feed input) r)"
proof (cases "r = Err WrongState")
  case True
  with ok(1) feed_wrong_state [OF inv] have "c' = c" by simp
  with True rel show ?thesis by simp
next
  case False
  with ok(2) obtain n where n: "r = Ok n" by (auto simp: clean_Feed)
  have link: "link_inv (FRAME_CAP P) accept c" using inv by (simp add: client_inv_def)
  obtain fs where fs: "link_rel (target_of P) (FRAME_CAP P) ready fs c s"
    "contents c = foldl effect init fs"
    using rel by (auto simp: client_rel_def)
  have by_link: "rel c' (s @ consumed (Feed input) r)"
    if "link_rel (target_of P) (FRAME_CAP P) ready fs c' (s @ take n input)"
      "link.more c' = link.more c"
    unfolding client_rel_def using that(1) fs(2) contents_more [OF that(2)] n by (intro exI [of _ fs]) simp
  show ?thesis
  proof (cases "state c")
    case Greeting
    with ok n have f: "feed_greeting c input = (Ok n, c')" by (simp add: feed_eq client_feed_def)
    then show ?thesis
      using feed_greeting_rel [OF link Greeting fs(1) f] feed_greeting_inv [OF link, of input]
      by (auto intro: by_link)
  next
    case Ready
    with ok n have f: "ready_inner P ready c input = (Ok n, c')"
      by (simp add: feed_eq feed_eq client_feed_def split: if_splits)
    then show ?thesis
      using ready_inner_rel [OF fs(1) _ f] Ready ready_inner_inv [OF link, of ready input]
      by (auto intro: by_link)
  next
    case PlainHello
    with ok n have f: "feed_plain_hello P c input = (Ok n, c')" by (simp add: feed_eq client_feed_def)
    then show ?thesis
      using feed_plain_hello_rel [OF fs(1) PlainHello f] feed_plain_hello_inv [OF link, of input]
      by (auto intro: by_link)
  next
    case PlainReady
    with ok n have f: "ready_inner P ready c input = (Ok n, c')"
      by (simp add: feed_eq feed_eq client_feed_def split: if_splits)
    then show ?thesis
      using ready_inner_rel [OF fs(1) _ f] PlainReady ready_inner_inv [OF link, of ready input]
      by (auto intro: by_link)
  next
    case Established
    with ok n have "established P handler c input = (Ok n, c')" by (simp add: feed_eq client_feed_def)
    from established_rel [OF inv rel Established this] n show ?thesis by simp
  next
    case Failed
    with ok n show ?thesis by (simp add: feed_eq client_feed_def)
  qed
qed

text \<open>Errors are final.\<close>

lemma poisoned_feed:
  "fd_state d = Poisoned \<Longrightarrow> Frame.feed T CAP d input =
     (if input = [] then (Ok (0, None), d) else (Err DecodeError.ReservedFlagBits, d))"
  by (simp add: Frame.feed_def feed_loop_poisoned feed_loop_end)

lemma feed_dead:
  assumes inv: "inv accept c" and dead: "dead c" and f: "feed c input = (r, c')"
  shows "dead c' \<and> state c' = state c \<and> link.more c' = link.more c \<and>
    (state c \<noteq> Greeting \<longrightarrow> input \<noteq> [] \<longrightarrow> (\<exists>e. r = Err e))"
proof (cases "state c = Greeting")
  case True
  have link: "link_inv (FRAME_CAP P) accept c" using inv by (simp add: client_inv_def)
  from True f have c': "c' = snd (feed_greeting c input)" by (simp add: feed_eq client_feed_def)
  have "link.more c' = link.more c"
    using feed_greeting_inv [OF link, of input] c' by blast
  moreover have "bad_greeting c" using True dead by (simp add: dead_def)
  ultimately show ?thesis
    using feed_greeting_bad [OF link True, of input] True by (simp add: c' dead_def)
next
  case False
  show ?thesis
  proof (cases "state c = Failed")
    case True
    with f show ?thesis by (auto simp: feed_eq client_feed_def dead_def)
  next
    case not_failed: False
    with False dead have "fd_state (frame_decoder c) = Poisoned"
      by (simp add: dead_def split: State.splits)
    with False not_failed f poisoned_feed show ?thesis
      by (cases "state c"; cases "input = []")
         (auto simp: feed_eq client_feed_def ready_inner_def feed_plain_hello_def
           established_def dead_def Let_def split: if_splits)
  qed
qed

lemma feed_err_dead:
  assumes inv: "inv accept c" and f: "feed c input = (Err e, c')" and e: "e \<noteq> WrongState"
  shows "dead c'"
proof -
  have link: "link_inv (FRAME_CAP P) accept c" using inv by (simp add: client_inv_def)
  obtain r d where d: "Frame.feed (target_of P) (FRAME_CAP P) (frame_decoder c) input = (r, d)"
    by fastforce
  have fd: "fd_inv (FRAME_CAP P) (frame_decoder c)" using link by (simp add: link_inv_def)
  have post: "feed_post (FRAME_CAP P) input 0 (r, d)"
    using feed_loop_post [OF fd, of 0 input "target_of P"] d by (simp add: Frame.feed_def)
  have ready: "dead c'" if "ready_inner P ready c input = (Err e, c')" "state c \<noteq> Greeting"
    using that post unfolding ready_inner_def d
    by (auto simp: Let_def attempt_def dead_def map_err_eq_Err
        split: outcome.splits option.splits if_splits State.splits)
  have hello: "dead c'" if "feed_plain_hello P c input = (Err e, c')" "state c \<noteq> Greeting"
    using that post unfolding feed_plain_hello_def d
    by (auto simp: Let_def attempt_def dead_def map_err_eq_Err
        split: outcome.splits option.splits if_splits prod.splits State.splits)
  have est: "dead c'" if est: "established P handler c input = (Err e, c')" and "state c = Established"
  proof (rule_tac established_cases [OF inv, where input = input])
    fix e' d' assume "Frame.feed (target_of P) (FRAME_CAP P) (frame_decoder c) input = (Err e', d')"
      "established P handler c input = (Err (DecodeError e'), c\<lparr>frame_decoder := d'\<rparr>)"
    with est d post that show ?thesis by (auto simp: dead_def)
  qed (use est in auto)
  show ?thesis
  proof (cases "state c")
    case Greeting
    with f have "feed_greeting c input = (Err e, c')" by (simp add: feed_eq client_feed_def)
    from feed_greeting_err [OF link Greeting this] show ?thesis by (simp add: dead_def)
  qed (use f e ready hello est in \<open>auto simp: feed_eq client_feed_def split: if_splits\<close>)
qed

lemma exec_calls:
  "exec c (WriteGreeting out) = (case write_greeting c out of (r, out, c) \<Rightarrow> ((r, out), c))"
  "exec c (WriteReady out) = (case client_write_ready ready_frame c out of (r, out, c) \<Rightarrow> ((r, out), c))"
  "exec c (WriteWelcome out) = (case write_welcome c out of (r, out, c) \<Rightarrow> ((r, out), c))"
  "exec c (Feed input) = (case feed c input of (r, c) \<Rightarrow> ((r, []), c))"
  "exec c (WritePong out) =
     (case write_pong c out of (r, out, c) \<Rightarrow>
        ((and_then r (\<lambda>n. Ok (case n of None \<Rightarrow> 0 | Some n \<Rightarrow> n)), out), c))"
  "exec c (WriteError out) = (write_error c out, c)"
  by (simp_all add: exec_eq feed_eq)

text \<open>The laws of \<^verbatim>\<open>Session\<close>, for every call.\<close>

lemma exec_inv: "inv accept c \<Longrightarrow> inv accept (snd (exec c a))"
  using feed_inv [of accept c]
  by (cases a)
     (auto simp: split_beta exec_calls client_inv_def write_greeting_eq client_write_ready_def write_welcome_eq write_pong_eq
       split: option.splits)

lemma exec_step:
  assumes "inv accept c"
  shows "hs_step (\<exists>u p. accept u p) (handshake_of c) (handshake_of (snd (exec c a)))"
proof -
  note steps = hs_step.idle hs_step.send_greeting [of "handshake_of c" "\<exists>u p. accept u p"]
    hs_step.send_welcome [of "handshake_of c" "\<exists>u p. accept u p"]
    hs_step.send_ready [of "handshake_of c" "\<exists>u p. accept u p"]
  have link: "link_inv (FRAME_CAP P) accept c" using assms by (simp add: client_inv_def)
  show ?thesis
    using steps feed_step [OF assms]
    by (cases a)
       (auto simp: split_beta exec_calls write_greeting_eq client_write_ready_def write_welcome_eq write_pong_eq [OF link]
         split: option.splits)
qed

lemma exec_safe:
  assumes "inv accept c" and "\<forall>b body. length body \<le> 255 \<longrightarrow> ready b body \<noteq> Panic"
  shows "fst (fst (exec c a)) \<noteq> Panic"
proof -
  have link: "link_inv (FRAME_CAP P) accept c" using assms by (simp add: client_inv_def)
  show ?thesis
    using feed_safe [OF assms]
    by (cases a)
       (auto simp: split_beta exec_calls write_greeting_eq client_write_ready_def write_welcome_eq write_pong_eq [OF link] write_error_eq Let_def
         split: option.splits)
qed

lemma exec_rel:
  assumes inv: "inv accept c" and rel: "rel c s"
    and ex: "exec c a = (r, c')" and cl: "clean a (fst r)"
  shows "rel c' (s @ consumed a (fst r))"
proof -
  have link: "link_inv (FRAME_CAP P) accept c" using inv by (simp add: client_inv_def)
  show ?thesis
  proof (cases "\<exists>input. a = Feed input")
    case True
    then obtain input where a: "a = Feed input" ..
    with ex have "feed c input = (fst r, c')" by (auto simp: exec_calls split: prod.splits)
    from feed_rel [OF inv rel this] cl show ?thesis by (simp add: a)
  next
    case False
    with rel ex show ?thesis
      by (cases a)
         (auto simp: client_rel_def exec_calls write_greeting_eq client_write_ready_def write_welcome_eq write_pong_eq [OF link]
           split: option.splits prod.splits if_splits)
  qed
qed

lemma exec_dead:
  assumes inv: "inv accept c" and dead: "dead c" and ex: "exec c a = (r, c')"
  shows "dead c' \<and> state c' = state c \<and> link.more c' = link.more c"
proof -
  have link: "link_inv (FRAME_CAP P) accept c" using inv by (simp add: client_inv_def)
  show ?thesis
  proof (cases "\<exists>input. a = Feed input")
    case True
    then obtain input where a: "a = Feed input" ..
    with ex have "feed c input = (fst r, c')" by (auto simp: exec_calls split: prod.splits)
    from feed_dead [OF inv dead this] show ?thesis by blast
  next
    case False
    with dead ex show ?thesis
      by (cases a)
         (auto simp: exec_calls write_greeting_eq client_write_ready_def write_welcome_eq write_pong_eq [OF link]
           split: option.splits prod.splits if_splits)
  qed
qed

lemma run_dead:
  "inv accept c \<Longrightarrow> dead c \<Longrightarrow> run exec c as = (rs, c') \<Longrightarrow>
     dead c' \<and> state c' = state c \<and> link.more c' = link.more c"
proof (induction as arbitrary: c rs)
  case (Cons a as)
  obtain r d where d: "exec c a = (r, d)" by fastforce
  with Cons.prems obtain rs' where "run (exec) d as = (rs', c')" by (auto split: prod.splits)
  with Cons.IH [of d rs'] exec_dead [OF Cons.prems(1,2) d] exec_inv [OF Cons.prems(1), of a] d
  show ?case by simp
qed simp

end

sublocale client \<subseteq> calls: stream_endpoint exec "inv accept" "\<exists>u p. accept u p" rel
  for accept
  by unfold_locales (simp_all add: exec_inv exec_step exec_rel)

text \<open>A client whose READY parser does not panic on a body that the connection accepts.\<close>

locale safe_client = client +
  assumes ready_safe: "length body \<le> 255 \<Longrightarrow> ready b body \<noteq> Panic"

sublocale safe_client \<subseteq> safe: safe_endpoint exec "inv accept" "\<exists>u p. accept u p"
  for accept
  by unfold_locales (simp add: exec_safe ready_safe)

section \<open>Whole runs\<close>

context client begin

lemma run_handshake:
  assumes "inv accept c0" and "handshake_of c0 = hs_start m" and "run exec c0 as = (rs, c)"
  shows "(hs_step (\<exists>u p. accept u p))\<^sup>*\<^sup>* (hs_start m) (handshake_of c)"
    and "hs_ok (\<exists>u p. accept u p) (handshake_of c)"
    and "inv accept c" and "mechanism c = m" and "auth c = accept"
proof -
  show steps: "(hs_step (\<exists>u p. accept u p))\<^sup>*\<^sup>* (hs_start m) (handshake_of c)"
    using calls.run_steps [OF assms(1,3)] assms(2) by simp
  show "hs_ok (\<exists>u p. accept u p) (handshake_of c)"
    using calls.run_ok [OF assms(1,3)] assms(2) by simp
  show inv: "inv accept c" by (rule calls.run_inv [OF assms(1,3)])
  show "mechanism c = m" using hs_steps_forward [OF steps] by simp
  show "auth c = accept" using inv by (simp add: client_inv_def link_inv_def)
qed

lemma run_established:
  assumes "inv accept c0" and "handshake_of c0 = hs_start m" and "run exec c0 as = (rs, c)"
  shows "(state c = Established \<longrightarrow> our_greeting_sent c \<and> peer_greeting_received c \<and> our_ready_sent c \<and>
       (m = Plain \<longrightarrow> our_welcome_sent c \<and> (\<exists>u p. accept u p))) \<and>
    (state c = PlainReady \<longrightarrow> m = Plain \<and> (\<exists>u p. accept u p)) \<and>
    (state c = Ready \<longrightarrow> m = Null)"
  using run_handshake(2,4) [OF assms] unfolding hs_ok_def handshake_of_simps by blast

lemma rel_stage:
  assumes "inv accept c" and "rel c s"
    and M: "M = meaning_of (target_of P) (FRAME_CAP P) ready (mechanism c) accept s"
  shows "case state c of
      Greeting \<Rightarrow> length s \<le> 64
    | PlainHello \<Rightarrow> (\<exists>r. M = AwaitHello (peer_version_minor c) r)
    | Ready \<Rightarrow> (\<exists>r. M = AwaitReady (peer_version_minor c) r)
    | PlainReady \<Rightarrow> (\<exists>r. M = AwaitReady (peer_version_minor c) r)
    | Failed \<Rightarrow> False
    | Established \<Rightarrow>
        (\<exists>fs r. M = Talking (peer_version_minor c) fs r \<and> contents c = foldl effect init fs)"
proof -
  have "greeting_pos c \<le> 64" "auth c = accept" using assms(1) by (simp_all add: client_inv_def link_inv_def)
  with assms(2) M show ?thesis
    by (cases "state c") (auto simp: client_rel_def link_rel_def Let_def)
qed

lemma run_stream:
  assumes "inv accept c0" and "handshake_of c0 = hs_start m" and "rel c0 []"
    and "run exec c0 as = (rs, c)" and "clean_run as rs"
    and M: "M = meaning_of (target_of P) (FRAME_CAP P) ready m accept (stream_of as rs)"
  shows "case state c of
      Greeting \<Rightarrow> length (stream_of as rs) \<le> 64
    | PlainHello \<Rightarrow> (\<exists>r. M = AwaitHello (peer_version_minor c) r)
    | Ready \<Rightarrow> (\<exists>r. M = AwaitReady (peer_version_minor c) r)
    | PlainReady \<Rightarrow> (\<exists>r. M = AwaitReady (peer_version_minor c) r)
    | Failed \<Rightarrow> False
    | Established \<Rightarrow>
        (\<exists>fs r. M = Talking (peer_version_minor c) fs r \<and> contents c = foldl effect init fs)"
proof -
  note hs = run_handshake [OF assms(1,2,4)]
  have "rel c (stream_of as rs)" using calls.run_rel [OF assms(1,3,4,5)] by simp
  from rel_stage [OF hs(3) this M [folded hs(4)]] show ?thesis .
qed

text \<open>
  PLAIN: whatever calls are made and whichever of them fail, a connection that is past its HELLO has consumed one
  with credentials that its authenticator accepts.
\<close>

lemma rel_heard_hello:
  assumes "inv accept c" and "rel c s" and "mechanism c = Plain" and "state c \<in> {Ready, PlainReady, Established}"
  shows "\<exists>u p. heard_hello (target_of P) (FRAME_CAP P) s u p \<and> accept u p"
  using rel_stage [OF assms(1,2) refl] assms(3,4)
  by (intro meaning_heard_hello [where ready = ready, OF refl]) auto

lemma run_heard_hello:
  assumes "inv accept c" and "rel c s" and "mechanism c = Plain" and "run exec c as = (rs, c')"
    and "state c' \<in> {PlainReady, Established}"
  shows "\<exists>u p. heard_hello (target_of P) (FRAME_CAP P) (s @ stream_of as rs) u p \<and> accept u p"
  using assms
proof (induction as arbitrary: c s rs)
  case Nil
  then show ?case using rel_heard_hello [of accept c s] by auto
next
  case (Cons a as)
  note inv = Cons.prems(1) and rel = Cons.prems(2)
  obtain r d where d: "exec c a = (r, d)" by fastforce
  then obtain rs' where rs': "run exec d as = (rs', c')" "rs = r # rs'"
    using Cons.prems(4) by (auto split: prod.splits)
  have inv': "inv accept d" using exec_inv [OF inv, of a] d by simp
  have mech: "mechanism d = Plain"
    using hs_step_forward(2) [OF exec_step [OF inv, of a]] d Cons.prems(3) by simp
  consider (before) "state c \<in> {Greeting, PlainHello}" | (after) "state c \<in> {Ready, PlainReady, Established}" | (failed) "state c = Failed"
    by (cases "state c") auto
  then show ?case
  proof cases
    case after
    from rel_heard_hello [OF inv rel Cons.prems(3) this] show ?thesis by (meson heard_hello_append)
  next
    case failed
    with rel_stage [OF inv rel refl] show ?thesis by simp
  next
    case before
    show ?thesis
    proof (cases "clean a (fst r)")
      case True
      from Cons.IH [OF inv' exec_rel [OF inv rel d True] mech rs'(1) Cons.prems(5)] rs'(2) show ?thesis by simp
    next
      case False
      then obtain input where a: "a = Feed input" by (cases a) auto
      with d have f: "feed c input = (fst r, d)" by (auto simp: exec_calls split: prod.splits)
      have link: "link_inv (FRAME_CAP P) accept c" using inv by (simp add: client_inv_def)
      have "fst r \<noteq> Panic"
        using before f feed_greeting_inv [OF link, of input] feed_plain_hello_inv [OF link, of input]
        by (auto simp: feed_eq client_feed_def)
      with False a obtain e where e: "fst r = Err e" "e \<noteq> WrongState" by (cases "fst r") auto
      have "state c' = state d"
        using run_dead [OF inv' feed_err_dead [OF inv _ e(2)] rs'(1)] f e(1) by simp
      moreover have "state d = state c \<or> state d = Failed"
        using client_feed_err_state [of P ready handler c input e d] f e(1) before by (auto simp: feed_eq)
      ultimately show ?thesis using before Cons.prems(5) by auto
    qed
  qed
qed

lemma run_same_stream:
  assumes "inv accept c0" and "handshake_of c0 = hs_start m" and "rel c0 []"
    and "run exec c0 as1 = (rs1, c1)" "clean_run as1 rs1" "state c1 = Established"
    and "run exec c0 as2 = (rs2, c2)" "clean_run as2 rs2" "state c2 = Established"
    and "stream_of as1 rs1 = stream_of as2 rs2"
  shows "contents c1 = contents c2 \<and> peer_version_minor c1 = peer_version_minor c2"
  using run_stream [OF assms(1-3,4,5) refl] run_stream [OF assms(1-3,7,8) refl] assms(6,9,10)
  by auto

text \<open>An error of \<^verbatim>\<open>feed\<close> changes nothing when it is \<^verbatim>\<open>WrongState\<close>, and is final when it is not.\<close>

lemma errors_final:
  assumes inv: "inv accept c" and err: "feed c input = (Err e, c1)" "e \<noteq> WrongState"
    and run: "run exec c1 as = (rs, c2)"
  shows "state c2 = state c1 \<and> link.more c2 = link.more c1 \<and>
    (state c \<noteq> Established \<longrightarrow> state c2 \<noteq> Established) \<and>
    (state c = Established \<longrightarrow> state c2 = Established)"
proof -
  have inv1: "inv accept c1" using feed_inv [OF inv, of input] err(1) by simp
  from run_dead [OF inv1 feed_err_dead [OF inv err] run]
  have same: "state c2 = state c1" "link.more c2 = link.more c1" by auto
  have "state c1 \<noteq> Established" if "state c \<noteq> Established"
    using client_feed_err_state [OF err(1) [unfolded feed_eq]] that by auto
  moreover have "state c1 = Established" if "state c = Established"
    using established_inv [OF inv, of input] err(1) that
    by (simp add: feed_eq client_feed_def handshake_of_def)
  ultimately show ?thesis using same by auto
qed

end

end
