(* ===== verification/Connection_Run.thy ===== *)
theory Connection_Run
  imports Client
begin

text \<open>
  Runs of a PUB connection: what a frame does to the subscriptions, and the proof that the connection
  is a \<^verbatim>\<open>client\<close>, so that the properties of whole runs hold of it.
\<close>

section \<open>The effect of a frame on the subscriptions\<close>

definition pub_effect :: "nat \<Rightarrow> nat \<Rightarrow> bytes multiset \<Rightarrow> DecodedFrame \<Rightarrow> bytes multiset" where
  "pub_effect n l S f =
     (if df_is_command f then
        (case split_command (df_body f) of
           None \<Rightarrow> S
         | Some (name, payload) \<Rightarrow>
             if name = ascii ''SUBSCRIBE'' then snd (subscribe_spec n l S payload)
             else if name = ascii ''CANCEL'' then snd (cancel_spec S payload)
             else S)
      else
        (case df_body f of
           [] \<Rightarrow> S
         | b # pfx \<Rightarrow>
             if b = 1 then snd (subscribe_spec n l S pfx)
             else if b = 0 then snd (cancel_spec S pfx) else S))"

abbreviation conn_inv :: "('b, 'v) conn_build \<Rightarrow> auth_check \<Rightarrow> 'v Connection \<Rightarrow> bool" where
  "conn_inv P \<equiv> client_inv P (\<lambda>c. sub_inv (heapless_of P) (SUB_CAP P) (PREFIX_CAP P) (sub_table c))"

abbreviation conn_rel :: "('b, 'v) conn_build \<Rightarrow> 'v Connection \<Rightarrow> bytes \<Rightarrow> bool" where
  "conn_rel P \<equiv> client_rel P (parse_ready_from (target_of P)) (\<lambda>c. subs (heapless_of P) (sub_table c))
     (pub_effect (SUB_CAP P) (PREFIX_CAP P)) {#}"

lemma more_sub_table: "link.more c' = link.more c \<Longrightarrow> sub_table c' = sub_table c"
  by (cases c; cases c') (simp add: Connection.defs)

text \<open>A connection with its \<^verbatim>\<open>heapless\<close> tables, on any target.\<close>

locale pub_build =
  fixes P :: "('b, 'v) conn_build"
  assumes heapless: "heapless_contract (heapless_of P)"
begin

lemma do_subscribe_eq:
  assumes "sub_inv (heapless_of P) (SUB_CAP P) (PREFIX_CAP P) (sub_table c)"
  shows "\<exists>t. do_subscribe P c pfx = (Ok (), c\<lparr>sub_table := t\<rparr>) \<and>
    sub_inv (heapless_of P) (SUB_CAP P) (PREFIX_CAP P) t \<and>
    subs (heapless_of P) t = snd (subscribe_spec (SUB_CAP P) (PREFIX_CAP P) (subs (heapless_of P) (sub_table c)) pfx)"
proof -
  obtain r t where rt: "subscribe (heapless_of P) (SUB_CAP P) (PREFIX_CAP P) (sub_table c) pfx = (r, t)"
    by fastforce
  have "r \<noteq> Panic \<and> sub_inv (heapless_of P) (SUB_CAP P) (PREFIX_CAP P) t"
    using heapless_contract.subscribe_safe [OF heapless assms, of pfx] rt by simp
  moreover have "subs (heapless_of P) t =
      snd (subscribe_spec (SUB_CAP P) (PREFIX_CAP P) (subs (heapless_of P) (sub_table c)) pfx)"
    using heapless_contract.subscribe_refines [OF heapless, of "SUB_CAP P" "PREFIX_CAP P" "sub_table c" pfx] rt
    by (auto dest: sym)
  ultimately show ?thesis by (auto simp: do_subscribe_def rt ignore_err_ok)
qed

lemma do_cancel_eq:
  assumes "sub_inv (heapless_of P) (SUB_CAP P) (PREFIX_CAP P) (sub_table c)"
  shows "\<exists>t. do_cancel P c pfx = (Ok (), c\<lparr>sub_table := t\<rparr>) \<and>
    sub_inv (heapless_of P) (SUB_CAP P) (PREFIX_CAP P) t \<and>
    subs (heapless_of P) t = snd (cancel_spec (subs (heapless_of P) (sub_table c)) pfx)"
proof -
  obtain r t where rt: "cancel (heapless_of P) (sub_table c) pfx = (r, t)" by fastforce
  have "r \<noteq> Panic \<and> sub_inv (heapless_of P) (SUB_CAP P) (PREFIX_CAP P) t"
    using heapless_contract.cancel_safe [OF heapless assms, of pfx] rt by simp
  moreover have "subs (heapless_of P) t = snd (cancel_spec (subs (heapless_of P) (sub_table c)) pfx)"
    using heapless_contract.cancel_refines [OF heapless, of "sub_table c" pfx] rt
    by (auto dest: sym)
  ultimately show ?thesis by (auto simp: do_cancel_def rt ignore_err_ok)
qed

lemma on_frame_effect:
  assumes "sub_inv (heapless_of P) (SUB_CAP P) (PREFIX_CAP P) (sub_table c)"
  shows "\<exists>t p. on_frame P c f = (Ok (), c\<lparr>sub_table := t, pending_pong := p\<rparr>) \<and>
    (p = pending_pong c \<or> (\<exists>ctx n. p = Some (ctx, n) \<and> length ctx = 16 \<and> n \<le> 16)) \<and>
    sub_inv (heapless_of P) (SUB_CAP P) (PREFIX_CAP P) t \<and>
    subs (heapless_of P) t
      = pub_effect (SUB_CAP P) (PREFIX_CAP P) (subs (heapless_of P) (sub_table c)) f"
proof -
  let ?S = "subs (heapless_of P) (sub_table c)"
  let ?eff = "pub_effect (SUB_CAP P) (PREFIX_CAP P) ?S f"
  have idle: ?thesis if "on_frame P c f = (Ok (), c)" "?eff = ?S"
    using that assms by (intro exI [of _ "sub_table c"] exI [of _ "pending_pong c"]) simp
  have subscribes: ?thesis if "on_frame P c f = do_subscribe P c pfx"
    "?eff = snd (subscribe_spec (SUB_CAP P) (PREFIX_CAP P) ?S pfx)" for pfx
  proof -
    obtain t where "do_subscribe P c pfx = (Ok (), c\<lparr>sub_table := t\<rparr>)"
      "sub_inv (heapless_of P) (SUB_CAP P) (PREFIX_CAP P) t"
      "subs (heapless_of P) t = snd (subscribe_spec (SUB_CAP P) (PREFIX_CAP P) ?S pfx)"
      using do_subscribe_eq [OF assms, of pfx] by blast
    with that show ?thesis by (intro exI [of _ t] exI [of _ "pending_pong c"]) simp
  qed
  have cancels: ?thesis if "on_frame P c f = do_cancel P c pfx" "?eff = snd (cancel_spec ?S pfx)" for pfx
  proof -
    obtain t where "do_cancel P c pfx = (Ok (), c\<lparr>sub_table := t\<rparr>)"
      "sub_inv (heapless_of P) (SUB_CAP P) (PREFIX_CAP P) t"
      "subs (heapless_of P) t = snd (cancel_spec ?S pfx)"
      using do_cancel_eq [OF assms, of pfx] by blast
    with that show ?thesis by (intro exI [of _ t] exI [of _ "pending_pong c"]) simp
  qed
  have pings: ?thesis if "on_frame P c f = queue_pong payload c" "?eff = ?S" for payload
  proof -
    define n where "n = min (length payload - 2) 16"
    define p where "p = Some (take n (drop 2 payload) @ replicate (16 - n) (0 :: byte), n)"
    have "queue_pong payload c = (Ok (), c\<lparr>pending_pong := p\<rparr>)" and "n \<le> 16"
      by (simp_all add: queue_pong_eq Let_def n_def p_def)
    with that assms show ?thesis
      by (intro exI [of _ "sub_table c"] exI [of _ p]) (auto simp: p_def n_def)
  qed
  show ?thesis
  proof (cases "df_is_command f")
    case True
    show ?thesis
    proof (cases "split_command (df_body f)")
      case None
      with True show ?thesis by (intro idle) (simp_all add: on_frame_eq pub_effect_def)
    next
      case (Some np)
      obtain name payload where np: "np = (name, payload)" by fastforce
      consider (sub) "name = ascii ''SUBSCRIBE''" | (cancel) "name = ascii ''CANCEL''"
        | (ping) "name = ascii ''PING''" "1 \<le> peer_version_minor c"
        | (other) "name \<noteq> ascii ''SUBSCRIBE''" "name \<noteq> ascii ''CANCEL''"
            "\<not> (name = ascii ''PING'' \<and> 1 \<le> peer_version_minor c)"
        by blast
      then show ?thesis
      proof cases
        case sub
        with True Some np show ?thesis
          by (intro subscribes [of payload]) (simp_all add: on_frame_eq pub_effect_def)
      next
        case cancel
        with True Some np show ?thesis
          by (intro cancels [of payload]) (simp_all add: on_frame_eq pub_effect_def)
      next
        case ping
        with True Some np show ?thesis
          by (intro pings [of payload]) (simp_all add: on_frame_eq pub_effect_def)
      next
        case other
        with True Some np show ?thesis
          by (intro idle) (auto simp: on_frame_eq pub_effect_def simp del: ascii_simps)
      qed
    qed
  next
    case False
    show ?thesis
    proof (cases "df_body f")
      case Nil
      with False show ?thesis by (intro idle) (simp_all add: on_frame_eq pub_effect_def)
    next
      case (Cons b pfx)
      consider (one) "b = 1" | (zero) "b = 0" | (other) "b \<noteq> 1" "b \<noteq> 0" by blast
      then show ?thesis
      proof cases
        case one
        with False Cons show ?thesis
          by (intro subscribes [of pfx]) (simp_all add: on_frame_eq pub_effect_def)
      next
        case zero
        with False Cons show ?thesis
          by (intro cancels [of pfx]) (simp_all add: on_frame_eq pub_effect_def)
      next
        case other
        with False Cons show ?thesis by (intro idle) (simp_all add: on_frame_eq pub_effect_def)
      qed
    qed
  qed
qed

lemma on_frame_law:
  assumes "sub_inv (heapless_of P) (SUB_CAP P) (PREFIX_CAP P) (sub_table c)"
  shows "\<exists>p t. on_frame P c f = (Ok (), c\<lparr>pending_pong := p, link.more := t\<rparr>) \<and>
      (p = pending_pong c \<or> (\<exists>ctx n. p = Some (ctx, n) \<and> length ctx = 16 \<and> n \<le> 16)) \<and>
      sub_inv (heapless_of P) (SUB_CAP P) (PREFIX_CAP P) (sub_table (c\<lparr>link.more := t\<rparr>)) \<and>
      subs (heapless_of P) (sub_table (c\<lparr>link.more := t\<rparr>))
        = pub_effect (SUB_CAP P) (PREFIX_CAP P) (subs (heapless_of P) (sub_table c)) f"
proof -
  obtain t p where t: "on_frame P c f = (Ok (), c\<lparr>sub_table := t, pending_pong := p\<rparr>)"
    "p = pending_pong c \<or> (\<exists>ctx n. p = Some (ctx, n) \<and> length ctx = 16 \<and> n \<le> 16)"
    "sub_inv (heapless_of P) (SUB_CAP P) (PREFIX_CAP P) t"
    "subs (heapless_of P) t = pub_effect (SUB_CAP P) (PREFIX_CAP P) (subs (heapless_of P) (sub_table c)) f"
    using on_frame_effect [OF assms, of f] by blast
  let ?t = "link.more (c\<lparr>sub_table := t\<rparr>)"
  have "c\<lparr>sub_table := t, pending_pong := p\<rparr> = c\<lparr>pending_pong := p, link.more := ?t\<rparr>"
    "sub_table (c\<lparr>link.more := ?t\<rparr>) = t"
    by (cases c; simp)+
  with t show ?thesis by (intro exI [of _ p] exI [of _ ?t]) simp
qed

text \<open>The connection has the common shape, so it is a client.\<close>

lemma feed_client: "feed P = client_feed P (parse_ready_from (target_of P)) (on_frame P)"
  by (simp add: fun_eq_iff feed_def client_feed_def feed_ready_def feed_plain_ready_def feed_ready_inner_eq
      feed_established_def established_def split: State.splits)

lemma write_ready_client: "write_ready = client_write_ready READY_FRAME"
proof -
  have "length READY_FRAME = 27" by (simp add: READY_FRAME_def)
  then show ?thesis by (simp add: fun_eq_iff write_ready_eq client_write_ready_def)
qed

lemma exec_client: "exec P = client_exec P READY_FRAME (parse_ready_from (target_of P)) (on_frame P)"
proof (intro ext)
  fix c a
  show "exec P c a = client_exec P READY_FRAME (parse_ready_from (target_of P)) (on_frame P) c a"
    by (cases a) (simp_all add: feed_client write_ready_client)
qed

lemma start_inv:
  "conn_inv P unit_auth (new_connection P)" "conn_inv P accept (new_plain P accept)"
  by (simp_all add: client_inv_def link_inv_def new_connection_def new_plain_def sub_inv_def
      authenticator_check_def fun_eq_iff heapless_contract.new_sub_table_subs [OF heapless])

lemma start_rel: "conn_rel P (new_connection P) []" "conn_rel P (new_plain P accept) []"
  by (simp_all add: client_rel_def link_rel_def new_connection_def new_plain_def
      heapless_contract.new_sub_table_subs [OF heapless])

end

sublocale pub_build \<subseteq> pub: client P "parse_ready_from (target_of P)" READY_FRAME "on_frame P"
  "\<lambda>c. sub_inv (heapless_of P) (SUB_CAP P) (PREFIX_CAP P) (sub_table c)"
  "\<lambda>c. subs (heapless_of P) (sub_table c)" "pub_effect (SUB_CAP P) (PREFIX_CAP P)" "{#}" "feed P" "exec P"
  by (unfold_locales, erule on_frame_law, (drule more_sub_table, simp)+, rule feed_client, rule exec_client)

text \<open>The same build on a 64-bit target.\<close>

locale pub_build_64 = pub_build +
  assumes bits: "usize_bits (target_of P) = 64"

sublocale pub_build_64 \<subseteq> safe: safe_client P "parse_ready_from (target_of P)" READY_FRAME "on_frame P"
  "\<lambda>c. sub_inv (heapless_of P) (SUB_CAP P) (PREFIX_CAP P) (sub_table c)"
  "\<lambda>c. subs (heapless_of P) (sub_table c)" "pub_effect (SUB_CAP P) (PREFIX_CAP P)" "{#}" "feed P" "exec P"
  by unfold_locales (use parse_ready_safe [OF bits] in simp)

text \<open>A concrete build, with lists as tables.\<close>

definition list_build :: "nat \<Rightarrow> nat \<Rightarrow> nat \<Rightarrow> nat \<Rightarrow> (bytes, bytes list) conn_build" where
  "list_build bits F n l =
     \<lparr>target_of = \<lparr>usize_bits = bits, overflow_checks = True\<rparr>, heapless_of = list_heapless,
      FRAME_CAP = F, SUB_CAP = n, PREFIX_CAP = l\<rparr>"

lemma list_build_simps [simp]:
  "heapless_of (list_build bits F n l) = list_heapless"
  "target_of (list_build bits F n l) = \<lparr>usize_bits = bits, overflow_checks = True\<rparr>"
  "FRAME_CAP (list_build bits F n l) = F"
  "SUB_CAP (list_build bits F n l) = n"
  "PREFIX_CAP (list_build bits F n l) = l"
  by (simp_all add: list_build_def)

interpretation list_pub: pub_build "list_build bits F n l" for bits F n l
  by (rule pub_build.intro) (simp add: list_vec.heapless_contract_axioms)

interpretation list_pub_64: pub_build_64 "list_build 64 F n l" for F n l
  by (rule pub_build_64.intro, rule list_pub.pub_build_axioms, rule pub_build_64_axioms.intro) simp

end
