(* ===== verification/Client_Handshake.thy ===== *)
theory Client_Handshake
  imports Client
begin

text \<open>
  Handshakes with a well-behaved peer, and frames that arrive in one piece, for both connection
  types.
\<close>

section \<open>One frame in one call\<close>

lemma feed_wire_frame:
  assumes "fd_inv CAP d" and "fd_state d = NeedFlags"
    and "\<not> (df_more f \<and> df_is_command f)" "length (df_body f) \<le> CAP"
    and "length (df_body f) < 2 ^ 64" "length (df_body f) < 2 ^ usize_bits T"
  shows "\<exists>d'. Frame.feed T CAP d (wire_frame f) = (Ok (length (wire_frame f), Some f), d') \<and>
    fd_inv CAP d' \<and> fd_state d' = NeedFlags"
proof -
  obtain r d' where d': "Frame.feed T CAP d (wire_frame f) = (r, d')" by fastforce
  have "parse_frame T CAP (wire_frame f @ []) = Complete (length (wire_frame f)) f"
    using assms(3-6) by (rule parse_frame_wire)
  then have "r = Ok (length (wire_frame f), Some f)"
    using feed_fresh [OF assms(1,2), of T "wire_frame f"] d' by (simp add: feed_result_def)
  moreover have "feed_post CAP (wire_frame f) 0 (r, d')"
    using feed_loop_post [OF assms(1), of 0 "wire_frame f" T] d' by (simp add: Frame.feed_def)
  ultimately show ?thesis using d' by auto
qed

section \<open>Greetings\<close>

text \<open>A connection as the constructors make it.\<close>

definition fresh :: "nat \<Rightarrow> Mechanism \<Rightarrow> auth_check \<Rightarrow> 'c link_scheme \<Rightarrow> bool" where
  "fresh CAP m accept c \<longleftrightarrow>
     state c = Greeting \<and> mechanism c = m \<and> auth c = accept \<and> \<not> our_greeting_sent c \<and> \<not> our_welcome_sent c \<and>
     \<not> our_ready_sent c \<and> greeting_pos c = 0 \<and> length (greeting_buf c) = 64 \<and>
     frame_decoder c = new_decoder CAP \<and> pending_pong c = None"

text \<open>The connection after its own greeting went out and the peer's came in.\<close>

definition greeted :: "Mechanism \<Rightarrow> bytes \<Rightarrow> byte \<Rightarrow> 'c link_scheme \<Rightarrow> 'c link_scheme" where
  "greeted m g v c =
     c\<lparr>our_greeting_sent := True, greeting_buf := g, greeting_pos := 64, peer_version_minor := v,
       peer_greeting_received := True, state := (case m of Null \<Rightarrow> Ready | Plain \<Rightarrow> PlainHello)\<rparr>"

lemma greeted_simps [simp]:
  "state (greeted m g v c) = (case m of Null \<Rightarrow> Ready | Plain \<Rightarrow> PlainHello)"
  "peer_version_minor (greeted m g v c) = v" "mechanism (greeted m g v c) = mechanism c"
  "auth (greeted m g v c) = auth c" "frame_decoder (greeted m g v c) = frame_decoder c"
  "our_ready_sent (greeted m g v c) = our_ready_sent c" "our_welcome_sent (greeted m g v c) = our_welcome_sent c"
  "link.more (greeted m g v c) = link.more c"
  by (simp_all add: greeted_def)

definition our_greeting :: "Mechanism \<Rightarrow> bytes" where
  "our_greeting m = (case m of Null \<Rightarrow> encode_greeting [] | Plain \<Rightarrow> encode_plain_greeting [])"

text \<open>A peer's greeting of the mechanism \<^verbatim>\<open>m\<close> with minor version \<^verbatim>\<open>v\<close>.\<close>

definition peer_greets :: "Mechanism \<Rightarrow> byte \<Rightarrow> bytes \<Rightarrow> bool" where
  "peer_greets m v g \<longleftrightarrow> length g = 64 \<and>
     greeting_for (case m of Null \<Rightarrow> ascii ''NULL'' | Plain \<Rightarrow> ascii ''PLAIN'') v g"

lemma peer_greets_parser: "peer_greets m v g \<Longrightarrow> greeting_parser m g = Ok \<lparr>version_minor = v\<rparr>"
  by (auto simp: peer_greets_def greeting_parser_def greeting_for_iff split: Mechanism.splits)

lemma link_inv_fresh: "fresh CAP m accept c \<Longrightarrow> link_inv CAP accept c"
  by (simp add: fresh_def link_inv_def)

text \<open>A short command in a decoder that has seen nothing yet.\<close>

lemma feed_first_command:
  assumes "length body \<le> CAP" "length body < 2 ^ k" "k \<le> usize_bits T" "k \<le> 64"
    and f: "f = \<lparr>df_more = False, df_is_command = True, df_body = body\<rparr>"
    and d: "fd_inv CAP d" "fd_state d = NeedFlags"
  shows "\<exists>d'. Frame.feed T CAP d (wire_frame f) = (Ok (length (wire_frame f), Some f), d') \<and>
    fd_inv CAP d' \<and> fd_state d' = NeedFlags"
proof -
  have "(2::nat) ^ k \<le> 2 ^ usize_bits T" "(2::nat) ^ k \<le> 2 ^ 64"
    using assms(3,4) by (intro power_increasing; simp)+
  with assms(2) have "length body < 2 ^ usize_bits T" "length body < 2 ^ 64" by linarith+
  with assms show ?thesis by (intro feed_wire_frame) simp_all
qed

context client begin

lemma exchange_greetings:
  assumes fresh: "fresh (FRAME_CAP P) m accept c0" and g: "peer_greets m v g" and buf: "64 \<le> length out"
  shows "run exec c0 [WriteGreeting out, Feed g] =
    ([(Ok 64, our_greeting m @ drop 64 out), (Ok 64, [])], greeted m g v c0)"
proof -
  let ?c = "c0\<lparr>our_greeting_sent := True\<rparr>"
  have link: "link_inv (FRAME_CAP P) accept ?c" using link_inv_fresh [OF fresh] by simp
  note parser = peer_greets_parser [OF g]
  have len: "length g = 64" using g by (simp add: peer_greets_def)
  have "parse_partial_greeting (take 11 g) = Ok ()"
  proof (cases "parse_partial_greeting (take 11 g)")
    case (Err e)
    with partial_err [of g e] len parser show ?thesis
      by (auto simp: greeting_parser_def greeting_lens split: Mechanism.splits)
  qed simp_all
  then have "feed ?c g = (Ok 64, greeted m g v c0)"
    using len parser fresh
    by (simp add: feed_eq client_feed_def feed_greeting_eq [OF link] written_0 greeted_def Let_def fresh_def)
  with buf fresh show ?thesis
    by (simp add: exec_calls write_greeting_eq our_greeting_def fresh_def split: Mechanism.splits)
qed

text \<open>
  The peer's READY, once the connection has sent its own: a frame whose body the parser accepts
  establishes the connection.
\<close>

lemma feed_peer_ready:
  assumes "state c = Ready \<or> state c = PlainReady \<and> our_welcome_sent c" and "our_ready_sent c"
    and d: "fd_inv (FRAME_CAP P) (frame_decoder c)" "fd_state (frame_decoder c) = NeedFlags"
    and body: "ready True body = Ok ty" "length body \<le> 255" "length body \<le> FRAME_CAP P"
    and bits: "8 \<le> usize_bits (target_of P)"
    and f: "f = \<lparr>df_more = False, df_is_command = True, df_body = body\<rparr>"
  shows "\<exists>d'. feed c (wire_frame f) = (Ok (length (wire_frame f)), c\<lparr>frame_decoder := d', state := Established\<rparr>)"
proof -
  obtain d' where "Frame.feed (target_of P) (FRAME_CAP P) (frame_decoder c) (wire_frame f)
      = (Ok (length (wire_frame f), Some f), d')"
    using feed_first_command [OF body(3) _ bits _ f d] body(2) by auto
  with assms(1,2) body f show ?thesis
    by (intro exI [of _ d']) (auto simp: feed_eq client_feed_def ready_inner_def Let_def)
qed

lemma null_completes:
  assumes fresh: "fresh (FRAME_CAP P) Null accept c0" and g: "peer_greets Null v g"
    and out: "64 \<le> length out1" "length ready_frame \<le> length out2"
    and body: "ready True body = Ok ty" "length body \<le> 255" "length body \<le> FRAME_CAP P"
    and bits: "8 \<le> usize_bits (target_of P)"
    and f: "f = \<lparr>df_more = False, df_is_command = True, df_body = body\<rparr>"
  shows "\<exists>c. run exec c0 [WriteGreeting out1, Feed g, WriteReady out2, Feed (wire_frame f)] =
      ([(Ok 64, our_greeting Null @ drop 64 out1), (Ok 64, []),
        (Ok (length ready_frame), ready_frame @ drop (length ready_frame) out2), (Ok (length (wire_frame f)), [])], c) \<and>
    state c = Established \<and> peer_version_minor c = v \<and> link.more c = link.more c0"
proof -
  let ?c1 = "greeted Null g v c0" and ?c2 = "(greeted Null g v c0)\<lparr>our_ready_sent := True\<rparr>"
  have c0: "mechanism c0 = Null" "\<not> our_ready_sent c0" "frame_decoder c0 = new_decoder (FRAME_CAP P)"
    using fresh by (simp_all add: fresh_def)
  obtain d where d: "feed ?c2 (wire_frame f) = (Ok (length (wire_frame f)), ?c2\<lparr>frame_decoder := d, state := Established\<rparr>)"
    using feed_peer_ready [OF _ _ _ _ body bits f, of ?c2] c0 by auto
  have "run exec ?c1 [WriteReady out2, Feed (wire_frame f)] =
      ([(Ok (length ready_frame), ready_frame @ drop (length ready_frame) out2), (Ok (length (wire_frame f)), [])],
       ?c2\<lparr>frame_decoder := d, state := Established\<rparr>)"
    using c0 d out(2) by (simp add: exec_calls client_write_ready_def)
  with exchange_greetings [OF fresh g out(1)]
  have "run exec c0 ([WriteGreeting out1, Feed g] @ [WriteReady out2, Feed (wire_frame f)]) =
      ([(Ok 64, our_greeting Null @ drop 64 out1), (Ok 64, []),
        (Ok (length ready_frame), ready_frame @ drop (length ready_frame) out2), (Ok (length (wire_frame f)), [])],
       ?c2\<lparr>frame_decoder := d, state := Established\<rparr>)"
    unfolding run_append by (simp del: run.simps)
  then show ?thesis by simp
qed

text \<open>The answer to a HELLO is the authenticator's.\<close>

lemma feed_hello:
  assumes fresh: "fresh (FRAME_CAP P) Plain accept c0"
    and up: "length u < 256" "length p < 256" "length (hello_body u p) \<le> FRAME_CAP P"
    and bits: "10 \<le> usize_bits (target_of P)"
    and f: "f = \<lparr>df_more = False, df_is_command = True, df_body = hello_body u p\<rparr>"
  shows "\<exists>d. fd_inv (FRAME_CAP P) d \<and> fd_state d = NeedFlags \<and> feed (greeted Plain g v c0) (wire_frame f) =
      (if accept u p then Ok (length (wire_frame f)) else Err (PlainError AuthFailed),
       (greeted Plain g v c0)\<lparr>frame_decoder := d, state := (if accept u p then PlainReady else Failed)\<rparr>)"
proof -
  have c0: "auth c0 = accept" "frame_decoder c0 = new_decoder (FRAME_CAP P)"
    using fresh by (simp_all add: fresh_def)
  have "length (hello_body u p) < 2 ^ 10" using up by (simp add: hello_body_def)
  from feed_first_command [OF up(3) this bits _ f fd_inv_new new_decoder_state]
  obtain d where "Frame.feed (target_of P) (FRAME_CAP P) (new_decoder (FRAME_CAP P)) (wire_frame f)
      = (Ok (length (wire_frame f), Some f), d)" "fd_inv (FRAME_CAP P) d" "fd_state d = NeedFlags"
    by auto
  moreover have "parse_hello_from True (hello_body u p) = Ok (u, p)"
    using parse_hello_body [of u p "[]"] up by simp
  ultimately show ?thesis
    using c0 by (intro exI [of _ d]) (simp add: feed_eq client_feed_def feed_plain_hello_def Let_def f)
qed

lemma greet_and_hello:
  assumes fresh: "fresh (FRAME_CAP P) Plain accept c0" and g: "peer_greets Plain v g" and out: "64 \<le> length out"
    and up: "length u < 256" "length p < 256" "length (hello_body u p) \<le> FRAME_CAP P"
    and bits: "10 \<le> usize_bits (target_of P)"
    and f: "f = \<lparr>df_more = False, df_is_command = True, df_body = hello_body u p\<rparr>"
  shows "\<exists>d. fd_inv (FRAME_CAP P) d \<and> fd_state d = NeedFlags \<and>
    run exec c0 [WriteGreeting out, Feed g, Feed (wire_frame f)] =
      ([(Ok 64, our_greeting Plain @ drop 64 out), (Ok 64, []),
        (if accept u p then Ok (length (wire_frame f)) else Err (PlainError AuthFailed), [])],
       (greeted Plain g v c0)\<lparr>frame_decoder := d, state := (if accept u p then PlainReady else Failed)\<rparr>)"
proof -
  from feed_hello [OF fresh up bits f, of g v] obtain d where d: "fd_inv (FRAME_CAP P) d" "fd_state d = NeedFlags"
    "feed (greeted Plain g v c0) (wire_frame f) =
      (if accept u p then Ok (length (wire_frame f)) else Err (PlainError AuthFailed),
       (greeted Plain g v c0)\<lparr>frame_decoder := d, state := (if accept u p then PlainReady else Failed)\<rparr>)"
    by blast
  have "run exec c0 ([WriteGreeting out, Feed g] @ [Feed (wire_frame f)]) =
      ([(Ok 64, our_greeting Plain @ drop 64 out), (Ok 64, []),
        (if accept u p then Ok (length (wire_frame f)) else Err (PlainError AuthFailed), [])],
       (greeted Plain g v c0)\<lparr>frame_decoder := d, state := (if accept u p then PlainReady else Failed)\<rparr>)"
    unfolding run_append exchange_greetings [OF fresh g out] by (simp add: exec_calls d(3))
  with d(1,2) show ?thesis by auto
qed

lemma plain_completes:
  assumes fresh: "fresh (FRAME_CAP P) Plain accept c0" and g: "peer_greets Plain v g"
    and up: "length u < 256" "length p < 256" "length (hello_body u p) \<le> FRAME_CAP P" "accept u p"
    and out: "64 \<le> length out1" "10 \<le> length out2" "length ready_frame \<le> length out3"
    and body: "ready True body = Ok ty" "length body \<le> 255" "length body \<le> FRAME_CAP P"
    and bits: "10 \<le> usize_bits (target_of P)"
    and f: "f = \<lparr>df_more = False, df_is_command = True, df_body = hello_body u p\<rparr>"
      "f' = \<lparr>df_more = False, df_is_command = True, df_body = body\<rparr>"
  shows "\<exists>c. run exec c0 [WriteGreeting out1, Feed g, Feed (wire_frame f), WriteWelcome out2, WriteReady out3,
        Feed (wire_frame f')] =
      ([(Ok 64, our_greeting Plain @ drop 64 out1), (Ok 64, []), (Ok (length (wire_frame f)), []),
        (Ok 10, WELCOME_FRAME @ drop 10 out2),
        (Ok (length ready_frame), ready_frame @ drop (length ready_frame) out3), (Ok (length (wire_frame f')), [])], c) \<and>
    state c = Established \<and> peer_version_minor c = v \<and> link.more c = link.more c0"
proof -
  have c0: "mechanism c0 = Plain" "\<not> our_ready_sent c0" "\<not> our_welcome_sent c0"
    using fresh by (simp_all add: fresh_def)
  from greet_and_hello [OF fresh g out(1) up(1-3) bits f(1)] up(4) obtain d where
    d: "fd_inv (FRAME_CAP P) d" "fd_state d = NeedFlags"
      "run exec c0 [WriteGreeting out1, Feed g, Feed (wire_frame f)] =
      ([(Ok 64, our_greeting Plain @ drop 64 out1), (Ok 64, []), (Ok (length (wire_frame f)), [])],
       (greeted Plain g v c0)\<lparr>frame_decoder := d, state := PlainReady\<rparr>)"
    by (auto simp del: run.simps)
  define c1 where "c1 = (greeted Plain g v c0)\<lparr>frame_decoder := d, state := PlainReady\<rparr>"
  define c2 where "c2 = c1\<lparr>our_welcome_sent := True, our_ready_sent := True\<rparr>"
  have "feed c2 (wire_frame f') = (Ok (length (wire_frame f')), c2\<lparr>frame_decoder := d', state := Established\<rparr>)
      \<Longrightarrow> ?thesis" for d'
  proof -
    assume d': "feed c2 (wire_frame f') = (Ok (length (wire_frame f')), c2\<lparr>frame_decoder := d', state := Established\<rparr>)"
    have "run exec c1 [WriteWelcome out2, WriteReady out3, Feed (wire_frame f')] =
        ([(Ok 10, WELCOME_FRAME @ drop 10 out2),
          (Ok (length ready_frame), ready_frame @ drop (length ready_frame) out3), (Ok (length (wire_frame f')), [])],
         c2\<lparr>frame_decoder := d', state := Established\<rparr>)"
      using c0 out d' by (simp add: exec_calls client_write_ready_def write_welcome_eq c2_def c1_def)
    with d(3) have "run exec c0 ([WriteGreeting out1, Feed g, Feed (wire_frame f)] @
        [WriteWelcome out2, WriteReady out3, Feed (wire_frame f')]) =
      ([(Ok 64, our_greeting Plain @ drop 64 out1), (Ok 64, []), (Ok (length (wire_frame f)), []),
        (Ok 10, WELCOME_FRAME @ drop 10 out2),
        (Ok (length ready_frame), ready_frame @ drop (length ready_frame) out3), (Ok (length (wire_frame f')), [])],
       c2\<lparr>frame_decoder := d', state := Established\<rparr>)"
      unfolding run_append by (simp del: run.simps add: c1_def)
    then show ?thesis by (simp add: c2_def c1_def)
  qed
  moreover have "\<exists>d'. feed c2 (wire_frame f') = (Ok (length (wire_frame f')), c2\<lparr>frame_decoder := d', state := Established\<rparr>)"
    by (rule feed_peer_ready [OF _ _ _ _ body _ f(2)]) (use d bits in \<open>simp_all add: c2_def c1_def\<close>)
  ultimately show ?thesis by blast
qed

end

end
