(* ===== verification/Connection_Properties.thy ===== *)
theory Connection_Properties
  imports Connection_Run Test_Helpers
begin

text \<open>The properties of PUB connections.\<close>

section \<open>Starting points\<close>

definition start :: "('b, 'v) conn_build \<Rightarrow> Mechanism \<Rightarrow> authenticator \<Rightarrow> 'v Connection" where
  "start P m accept = (case m of Null \<Rightarrow> new_connection P | Plain \<Rightarrow> new_plain P accept)"

definition start_auth :: "Mechanism \<Rightarrow> authenticator \<Rightarrow> auth_check" where
  "start_auth m accept = (case m of Null \<Rightarrow> unit_auth | Plain \<Rightarrow> accept)"

lemma start_simps [simp]:
  "handshake_of (start P m accept) = hs_start m" "state (start P m accept) = Greeting"
  "mechanism (start P m accept) = m" "auth (start P m accept) = start_auth m accept"
  by (cases m; simp add: start_def start_auth_def new_connection_def new_plain_def handshake_of_def
      hs_start_def authenticator_check_def fun_eq_iff)+

lemma can_auth_start: "(\<exists>u p. start_auth m accept u p) \<longleftrightarrow> m = Plain \<and> (\<exists>u p. accept u p)"
  by (cases m) (auto simp: start_auth_def unit_auth_def)

context pub_build begin

lemma start_conn_inv: "conn_inv P (start_auth m accept) (start P m accept)"
  and start_conn_rel: "conn_rel P (start P m accept) []"
  using start_inv start_rel
  by (cases m; simp add: start_def start_auth_def)+

lemmas start_run_inv = pub.calls.run_inv [OF start_conn_inv]
lemmas start_handshake = pub.run_handshake [OF start_conn_inv start_simps(1)]
lemmas start_established = pub.run_established [OF start_conn_inv start_simps(1)]
lemmas start_stream = pub.run_stream [OF start_conn_inv start_simps(1) start_conn_rel]
lemmas feed_inv = pub.feed_inv
lemmas run_final = pub.calls.run_final
lemmas feed_wrong_state = pub.feed_wrong_state
lemmas errors_final = pub.errors_final
lemmas start_heard_hello = pub.run_heard_hello [OF start_conn_inv start_conn_rel start_simps(3)]
lemmas start_same_stream = pub.run_same_stream [OF start_conn_inv start_simps(1) start_conn_rel]

end

context pub_build_64 begin

lemmas run_safe = safe.safe.run_safe

end

text \<open>A complete handshake with the peer of the unit tests, and a subscription.\<close>

definition example_calls :: "call list" where
  "example_calls =
     [WriteGreeting (replicate 64 0), Feed sub_greeting, WriteReady (replicate 27 0),
      Feed sub_ready, Feed (sub_subscribe (ascii ''ab''))]"

definition example_plain_calls :: "call list" where
  "example_plain_calls =
     [WriteGreeting (replicate 64 0), Feed plain_sub_greeting, Feed (plain_hello [117] [112]),
      WriteWelcome (replicate 10 0), WriteReady (replicate 27 0), Feed sub_ready]"

definition example_accept :: authenticator where
  "example_accept u p \<longleftrightarrow> u = [117] \<and> p = [112]"

section \<open>Properties\<close>

text \<open>
  C2. The handshake is followed: whatever calls an application makes with whatever inputs, the
  connection moves along the steps of the abstract handshake. So an established connection has sent
  its greeting and READY and received the peer's greeting; with PLAIN it has also sent WELCOME, and
  the bytes it has consumed start with a PLAIN greeting and a HELLO whose user name and password the
  authenticator accepts. Before such a HELLO it does not even get to the state in which WELCOME is sent.
\<close>

theorem pub_follows_handshake:
  assumes "heapless_contract (heapless_of P)"
    and "run (exec P) (start P m accept) calls = (rs, c)"
  shows "(hs_step (m = Plain \<and> (\<exists>u p. accept u p)))\<^sup>*\<^sup>* (hs_start m) (handshake_of c) \<and>
    (state c = Established \<longrightarrow> our_greeting_sent c \<and> peer_greeting_received c \<and> our_ready_sent c \<and>
       (m = Plain \<longrightarrow> our_welcome_sent c)) \<and>
    (state c = PlainReady \<longrightarrow> m = Plain) \<and> (state c = Ready \<longrightarrow> m = Null) \<and>
    (m = Plain \<and> state c \<in> {PlainReady, Established} \<longrightarrow>
       (\<exists>u p. heard_hello (target_of P) (FRAME_CAP P) (stream_of calls rs) u p \<and> accept u p))"
proof -
  have build: "pub_build P" using assms(1) by (rule pub_build.intro)
  have "\<exists>u p. heard_hello (target_of P) (FRAME_CAP P) (stream_of calls rs) u p \<and> accept u p"
    if "m = Plain" "state c \<in> {PlainReady, Established}"
    using pub_build.start_heard_hello [OF build assms(2) [unfolded that(1)] that(2)] by (simp add: start_auth_def)
  then show ?thesis
    using pub_build.start_handshake(1) [OF build assms(2)] pub_build.start_established [OF build assms(2)]
    by (auto simp: can_auth_start)
qed

theorem pub_follows_handshake_witness:
  "\<exists>c. snd (run (exec (list_build 64 64 2 8)) (start (list_build 64 64 2 8) Plain example_accept)
      example_plain_calls) = c \<and> state c = Established \<and> our_welcome_sent c \<and> our_ready_sent c \<and>
    (\<exists>u p. heard_hello \<lparr>usize_bits = 64, overflow_checks = True\<rparr> 64 (stream_of example_plain_calls
      (fst (run (exec (list_build 64 64 2 8)) (start (list_build 64 64 2 8) Plain example_accept) example_plain_calls))) u p \<and>
      example_accept u p)"
proof -
  let ?P = "list_build 64 64 2 8"
  have "state (snd (run (exec ?P) (start ?P Plain example_accept) example_plain_calls)) = Established"
    by code_simp
  then show ?thesis
    using pub_follows_handshake [of ?P Plain example_accept example_plain_calls, OF _ prod.collapse [symmetric]]
      list_vec.heapless_contract_axioms
    by auto
qed

text \<open>
  C1. The connection understands the peer's bytes: after any run in which no \<^verbatim>\<open>feed\<close> failed, the
  state is what the consumed bytes mean when they are parsed in one go. Once established, the
  peer's version is the one its greeting announced, and the subscriptions are exactly what
  the frames after the handshake make of an empty set, in order and with the table's limits; so
  a topic matches when one of those prefixes is a prefix of it.
\<close>

theorem pub_stream_refinement:
  assumes "heapless_contract (heapless_of P)"
    and "run (exec P) (start P m accept) calls = (rs, c)" and "clean_run calls rs"
    and M: "M = meaning_of (target_of P) (FRAME_CAP P) (parse_ready_from (target_of P)) m (start_auth m accept)
      (stream_of calls rs)"
  shows "case state c of
      Greeting \<Rightarrow> length (stream_of calls rs) \<le> 64
    | PlainHello \<Rightarrow> (\<exists>r. M = AwaitHello (peer_version_minor c) r)
    | Ready \<Rightarrow> (\<exists>r. M = AwaitReady (peer_version_minor c) r)
    | PlainReady \<Rightarrow> (\<exists>r. M = AwaitReady (peer_version_minor c) r)
    | Failed \<Rightarrow> False
    | Established \<Rightarrow>
        (\<exists>fs r S. M = Talking (peer_version_minor c) fs r \<and>
          S = foldl (pub_effect (SUB_CAP P) (PREFIX_CAP P)) {#} fs \<and>
          subs (heapless_of P) (sub_table c) = S \<and>
          (\<forall>topic. sub_matches (heapless_of P) (sub_table c) topic \<longleftrightarrow> (\<exists>p\<in>#S. prefix p topic)))"
proof -
  have build: "pub_build P" using assms(1) by (rule pub_build.intro)
  have "sub_matches (heapless_of P) t topic \<longleftrightarrow> (\<exists>p\<in>#subs (heapless_of P) t. prefix p topic)" for t topic
    using heapless_contract.sub_matches_refines [OF assms(1)] by (simp add: matches_spec_def)
  with pub_build.start_stream [OF build assms(2,3) M] show ?thesis
    by (cases "state c") auto
qed

theorem pub_stream_refinement_witness:
  "\<exists>c. snd (run (exec (list_build 64 64 2 8)) (start (list_build 64 64 2 8) Null example_accept) example_calls) = c \<and>
     state c = Established \<and> (\<exists>fs. foldl (pub_effect 2 8) {#} fs = subs list_heapless (sub_table c)) \<and>
     sub_matches list_heapless (sub_table c) (ascii ''abc'')"
proof -
  let ?P = "list_build 64 64 2 8"
  define c where "c = snd (run (exec ?P) (start ?P Null example_accept) example_calls)"
  define rs where "rs = fst (run (exec ?P) (start ?P Null example_accept) example_calls)"
  have run: "run (exec ?P) (start ?P Null example_accept) example_calls = (rs, c)"
    by (simp add: rs_def c_def)
  have st: "state c = Established" "sub_matches list_heapless (sub_table c) (ascii ''abc'')"
    unfolding c_def by code_simp+
  have "clean_run example_calls rs" unfolding rs_def by code_simp
  from pub_stream_refinement [of ?P, OF _ run this refl] st show ?thesis
    using list_vec.heapless_contract_axioms by (auto simp flip: c_def)
qed

text \<open>
  Chunking does not matter: two connections that have consumed the same bytes of their peers
  without an error, in whatever pieces and with whatever other calls between them, and are both
  established, have the same subscriptions, match the same topics and know the same peer version.
\<close>

lemma pub_chunking_irrelevant:
  assumes "heapless_contract (heapless_of P)"
    and 1: "run (exec P) (start P m accept) calls1 = (rs1, c1)" "clean_run calls1 rs1" "state c1 = Established"
    and 2: "run (exec P) (start P m accept) calls2 = (rs2, c2)" "clean_run calls2 rs2" "state c2 = Established"
    and same: "stream_of calls1 rs1 = stream_of calls2 rs2"
  shows "subs (heapless_of P) (sub_table c1) = subs (heapless_of P) (sub_table c2) \<and>
    (\<forall>topic. sub_matches (heapless_of P) (sub_table c1) topic = sub_matches (heapless_of P) (sub_table c2) topic) \<and>
    peer_version c1 = peer_version c2"
proof -
  have build: "pub_build P" using assms(1) by (rule pub_build.intro)
  from pub_build.start_same_stream [OF build 1 2 same] show ?thesis
    by (simp add: heapless_contract.sub_matches_refines [OF assms(1)] peer_version_def)
qed

lemma pub_chunking_irrelevant_witness:
  "let P = list_build 64 64 2 8; c0 = start P Null example_accept;
       chunked = take 3 example_calls @ map (\<lambda>b. Feed [b]) sub_ready @
         map (\<lambda>b. Feed [b]) (sub_subscribe (ascii ''ab'')) @ [WritePong []]
   in subs list_heapless (sub_table (snd (run (exec P) c0 example_calls)))
     = subs list_heapless (sub_table (snd (run (exec P) c0 chunked)))"
proof -
  let ?P = "list_build 64 64 2 8"
  let ?c0 = "start ?P Null example_accept"
  let ?chunked = "take 3 example_calls @ map (\<lambda>b. Feed [b]) sub_ready @
         map (\<lambda>b. Feed [b]) (sub_subscribe (ascii ''ab'')) @ [WritePong []]"
  have "clean_run example_calls (fst (run (exec ?P) ?c0 example_calls))"
    "clean_run ?chunked (fst (run (exec ?P) ?c0 ?chunked))"
    "state (snd (run (exec ?P) ?c0 example_calls)) = Established"
    "state (snd (run (exec ?P) ?c0 ?chunked)) = Established"
    "stream_of example_calls (fst (run (exec ?P) ?c0 example_calls))
       = stream_of ?chunked (fst (run (exec ?P) ?c0 ?chunked))"
    by code_simp+
  with pub_chunking_irrelevant [of ?P Null example_accept example_calls _ _ ?chunked, OF _ prod.collapse [symmetric]
      _ _ prod.collapse [symmetric]]
  show ?thesis
    using list_vec.heapless_contract_axioms by (simp add: Let_def)
qed

text \<open>
  The sizes that Rust's types give the fields of a connection: the arrays and what indexes them, the decoder,
  the table, the states that its mechanism has, and the authenticator it was made with.
\<close>

fun mechanism_state :: "Mechanism \<Rightarrow> State \<Rightarrow> bool" where
  "mechanism_state Null s \<longleftrightarrow> s \<in> {Greeting, Ready, Established, Failed}"
| "mechanism_state Plain s \<longleftrightarrow> s \<in> {Greeting, PlainHello, PlainReady, Established, Failed}"

definition well_formed :: "('b, 'v) conn_build \<Rightarrow> Mechanism \<Rightarrow> authenticator \<Rightarrow> 'v Connection \<Rightarrow> bool" where
  "well_formed P m accept c \<longleftrightarrow>
     length (greeting_buf c) = 64 \<and> greeting_pos c \<le> 64 \<and> fd_inv (FRAME_CAP P) (frame_decoder c) \<and>
     (case pending_pong c of None \<Rightarrow> True | Some (ctx, n) \<Rightarrow> length ctx = 16 \<and> n \<le> 16) \<and>
     size (subs (heapless_of P) (sub_table c)) \<le> SUB_CAP P \<and>
     (\<forall>p \<in># subs (heapless_of P) (sub_table c). length p \<le> PREFIX_CAP P) \<and>
     mechanism c = m \<and> mechanism_state m (state c) \<and> auth c = start_auth m accept"

lemma hs_step_mechanism_state:
  "hs_step b h h' \<Longrightarrow> mechanism_state (hs_mechanism h) (hs_state h) \<Longrightarrow>
     mechanism_state (hs_mechanism h') (hs_state h')"
  by (induction rule: hs_step.induct) (auto split: Mechanism.splits elim!: mechanism_state.elims)

lemma hs_steps_mechanism_state:
  "(hs_step b)\<^sup>*\<^sup>* (hs_start m) h \<Longrightarrow> mechanism_state (hs_mechanism h) (hs_state h)"
proof (induction rule: rtranclp_induct)
  case base
  then show ?case by (cases m) simp_all
qed (rule hs_step_mechanism_state)

text \<open>
  C29. Every operation keeps a connection well-formed: after any calls with any inputs, failed ones and, on a
  32-bit target, panicking ones included, the greeting buffer, the decoder and the pending
  PONG keep their sizes, every subscription and their number fit the capacities, the connection is
  in a state of its own mechanism, and mechanism and authenticator are those it was made with.
\<close>

theorem pub_stays_well_formed:
  assumes "heapless_contract (heapless_of P)" and "run (exec P) (start P m accept) calls = (rs, c)"
  shows "well_formed P m accept c"
proof -
  have build: "pub_build P" using assms(1) by (rule pub_build.intro)
  note h = pub_build.start_handshake [OF build assms(2)]
  from hs_steps_mechanism_state [OF h(1)] h(3-5) show ?thesis
    by (auto simp: well_formed_def client_inv_def link_inv_def sub_inv_def split: option.splits prod.splits)
qed

theorem pub_stays_well_formed_witness:
  "well_formed (list_build 32 64 2 8) Null example_accept
     (snd (run (exec (list_build 32 64 2 8)) (start (list_build 32 64 2 8) Null example_accept)
       (example_calls @ [Feed [255], WriteError []])))"
  by (rule pub_stays_well_formed [OF _ prod.collapse [symmetric]]) (simp add: list_vec.heapless_contract_axioms)

text \<open>
  C28. On a 64-bit target nothing a peer or an application does makes a connection panic: every call
  of every run returns \<^verbatim>\<open>Ok\<close> or \<^verbatim>\<open>Err\<close>.
\<close>

theorem pub_never_panics_64:
  assumes "heapless_contract (heapless_of P)" and "usize_bits (target_of P) = 64"
    and "run (exec P) (start P m accept) calls = (rs, c)"
  shows "Panic \<notin> fst ` set rs"
proof -
  have build: "pub_build P" using assms(1) by (rule pub_build.intro)
  then have "pub_build_64 P" using assms(2) by (intro pub_build_64.intro pub_build_64_axioms.intro)
  then show ?thesis
    by (rule pub_build_64.run_safe [OF _ pub_build.start_conn_inv [OF build] assms(3)])
qed

theorem pub_never_panics_64_witness:
  "Panic \<notin> fst ` set (fst (run (exec (list_build 64 64 2 8)) (start (list_build 64 64 2 8) Null example_accept)
     [Feed (replicate 100 255), WriteGreeting [], Feed []]))"
  by (rule pub_never_panics_64 [OF _ _ prod.collapse [symmetric]])
     (simp_all add: list_vec.heapless_contract_axioms)

text \<open>
  C27. The two kinds of errors of \<^verbatim>\<open>feed\<close>. \<^verbatim>\<open>WrongState\<close> changes nothing: the connection is the one it was before
  the call. Every other error is final: the connection stays in the state it is in, whatever calls
  follow, and its subscriptions do not change any more; so a connection that was not established then never
  will be, and one that was stays established.
\<close>

theorem pub_errors_final:
  assumes "heapless_contract (heapless_of P)"
    and "run (exec P) (start P m accept) calls = (rs, c)"
    and "feed P c input = (Err e, c1)"
    and "run (exec P) c1 calls' = (rs', c2)"
  shows "if e = WrongState then c1 = c
    else state c2 = state c1 \<and> sub_table c2 = sub_table c1 \<and>
      (state c2 = Established \<longleftrightarrow> state c = Established)"
proof -
  have build: "pub_build P" using assms(1) by (rule pub_build.intro)
  note inv = pub_build.start_run_inv [OF build assms(2)]
  show ?thesis
    using pub_build.errors_final [OF build inv assms(3) _ assms(4)] more_sub_table [of c2 c1]
      pub_build.feed_wrong_state [OF build inv, of input c1] assms(3)
    by auto
qed

theorem pub_errors_final_witness:
  "let P = list_build 64 64 2 8; c = snd (run (exec P) (start P Null example_accept) (take 3 example_calls));
       c1 = snd (feed P c pub_ready)
   in fst (feed P c pub_ready) = Err (NullError WrongSocketType) \<and>
      state (snd (run (exec P) c1 [Feed sub_ready, Feed sub_ready])) = state c1"
proof -
  let ?P = "list_build 64 64 2 8"
  let ?c = "snd (run (exec ?P) (start ?P Null example_accept) (take 3 example_calls))"
  have err: "fst (feed ?P ?c pub_ready) = Err (NullError WrongSocketType)" by code_simp
  then have "feed ?P ?c pub_ready = (Err (NullError WrongSocketType), snd (feed ?P ?c pub_ready))"
    by (simp add: prod_eq_iff)
  from pub_errors_final [of ?P, OF _ prod.collapse [symmetric] this prod.collapse [symmetric],
      of "[Feed sub_ready, Feed sub_ready]"] err
  show ?thesis using list_vec.heapless_contract_axioms by (simp add: Let_def)
qed

end
