(* ===== verification/Connection_Messages.thy ===== *)
theory Connection_Messages
  imports Connection_Properties Client_Handshake
begin

text \<open>
  What a PUB connection sends once it is established: messages and PONGs; and how a handshake
  with a well-behaved peer completes.
\<close>

section \<open>Publishing\<close>

definition topic_frame :: "bytes \<Rightarrow> DecodedFrame" where
  "topic_frame topic = \<lparr>df_more = True, df_is_command = False, df_body = topic\<rparr>"

definition payload_frame :: "bytes \<Rightarrow> DecodedFrame" where
  "payload_frame payload = \<lparr>df_more = False, df_is_command = False, df_body = payload\<rparr>"

text \<open>The two frames of a message on the wire.\<close>

definition wire_message :: "bytes \<Rightarrow> bytes \<Rightarrow> bytes" where
  "wire_message topic payload = wire_frame (topic_frame topic) @ wire_frame (payload_frame payload)"

lemma frame_header_le: "length (frame_header m c n) \<le> MAX_FRAME_HEADER"
  by (simp add: length_frame_header MAX_FRAME_HEADER_def)

text \<open>The two headers, each in its array of 9 bytes, and the copying of a message into a buffer.\<close>

definition message_headers :: "bytes \<Rightarrow> bytes \<Rightarrow> PublishHeaders" where
  "message_headers topic payload =
     (let th = frame_header True False (length topic); ph = frame_header False False (length payload) in
      (th @ replicate (9 - length th) 0, length th, ph @ replicate (9 - length ph) 0, length ph))"

definition send_message :: "(PublishHeaders option, ConnError) outcome \<Rightarrow> bytes \<Rightarrow> bytes \<Rightarrow> bytes \<Rightarrow>
    (nat, ConnError) outcome \<times> bytes" where
  "send_message headers topic payload out =
     attempt headers out (\<lambda>headers.
       case headers of
         None \<Rightarrow> (Ok 0, out)
       | Some (th, th_n, ph, ph_n) \<Rightarrow>
           let total = th_n + length topic + ph_n + length payload in
           if length out < total then (Err ConnError.BufferTooSmall, out)
           else
             attempt (slice th 0 th_n) out (\<lambda>th.
             attempt (slice ph 0 ph_n) out (\<lambda>ph.
               let w = 0 in
               copy_then out w (w + th_n) th (\<lambda>out.
               let w = w + th_n in
               copy_then out w (w + length topic) topic (\<lambda>out.
               let w = w + length topic in
               copy_then out w (w + ph_n) ph (\<lambda>out.
               let w = w + ph_n in
               copy_then out w (w + length payload) payload (\<lambda>out.
               let w = w + length payload in
               (Ok w, out))))))))"

lemma encode_headers:
  "encode_message_frame (replicate MAX_FRAME_HEADER 0) (length topic) m =
     (Ok (length (frame_header m False (length topic))),
      frame_header m False (length topic) @ replicate (9 - length (frame_header m False (length topic))) 0)"
  using frame_header_le [of m False "length topic"]
  by (simp add: encode_message_frame_eq MAX_FRAME_HEADER_def Let_def not_less)

lemma send_message_eq:
  "send_message (Ok (Some (message_headers topic payload))) topic payload out =
     (let msg = wire_message topic payload in
      if length out < length msg then (Err ConnError.BufferTooSmall, out)
      else (Ok (length msg), msg @ drop (length msg) out))"
proof -
  let ?th = "frame_header True False (length topic)" and ?ph = "frame_header False False (length payload)"
  have msg: "wire_message topic payload = ?th @ topic @ ?ph @ payload"
    by (simp add: wire_message_def wire_frame_def topic_frame_def payload_frame_def)
  have "written (written (written (written out 0 ?th) (length ?th) topic) (length ?th + length topic) ?ph)
      (length ?th + length topic + length ?ph) payload = wire_message topic payload @ drop (length (wire_message topic payload)) out"
    if "length (wire_message topic payload) \<le> length out"
    using that by (simp add: msg written_def add.commute add.left_commute)
  then show ?thesis
    by (simp add: send_message_def message_headers_def Let_def not_less msg)
qed

lemma publish_headers_eq:
  "publish_headers P c topic payload =
     (if state c \<noteq> Established then Err WrongState
      else if \<not> sub_matches (heapless_of P) (sub_table c) topic then Ok None
      else Ok (Some (message_headers topic payload)))"
  by (simp add: publish_headers_def encode_headers message_headers_def Let_def)

lemma publish_eq:
  "publish P c topic payload out =
     (if state c \<noteq> Established then (Err WrongState, out)
      else if \<not> sub_matches (heapless_of P) (sub_table c) topic then (Ok 0, out)
      else
        let msg = wire_message topic payload in
        if length out < length msg then (Err ConnError.BufferTooSmall, out)
        else (Ok (length msg), msg @ drop (length msg) out))"
proof -
  have "publish P c topic payload out = send_message (publish_headers P c topic payload) topic payload out"
    by (simp only: publish_def send_message_def)
  then show ?thesis by (simp add: publish_headers_eq send_message_eq) (simp add: send_message_def)
qed

lemma frames_wire_message:
  assumes "length topic \<le> CAP" "length payload \<le> CAP"
    and "length topic < 2 ^ 64" "length topic < 2 ^ usize_bits T"
    and "length payload < 2 ^ 64" "length payload < 2 ^ usize_bits T"
  shows "frames T CAP (wire_message topic payload @ rest) =
    (case frames T CAP rest of (fs, r) \<Rightarrow> (topic_frame topic # payload_frame payload # fs, r))"
proof -
  have "parse_frame T CAP (wire_frame (topic_frame topic) @ bs)
      = Complete (length (wire_frame (topic_frame topic))) (topic_frame topic)"
    "parse_frame T CAP (wire_frame (payload_frame payload) @ bs)
      = Complete (length (wire_frame (payload_frame payload))) (payload_frame payload)" for bs
    using assms by (auto intro!: parse_frame_wire simp: topic_frame_def payload_frame_def)
  then show ?thesis
    by (simp add: wire_message_def frames.simps [of T CAP "wire_frame _ @ _"] split: prod.splits)
qed

text \<open>
  C4. \<^verbatim>\<open>publish\<close> does what it promises: it is refused unless the connection is established, sends
  nothing when no subscription of the peer is a prefix of the topic, refuses a buffer that is too
  small without touching it, and otherwise writes exactly the two frames of the message and leaves
  the rest of the buffer alone; a peer that decodes those bytes gets the topic with the MORE flag
  and then the payload.
\<close>

theorem publish_delivers:
  assumes "heapless_contract (heapless_of P)"
    and "length topic \<le> CAP" "length payload \<le> CAP"
    and "length topic < 2 ^ 64" "length topic < 2 ^ usize_bits T"
    and "length payload < 2 ^ 64" "length payload < 2 ^ usize_bits T"
  shows "publish P c topic payload out =
     (if state c \<noteq> Established then (Err WrongState, out)
      else if \<not> (\<exists>p\<in>#subs (heapless_of P) (sub_table c). prefix p topic) then (Ok 0, out)
      else if length out < length (wire_message topic payload) then (Err ConnError.BufferTooSmall, out)
      else (Ok (length (wire_message topic payload)),
        wire_message topic payload @ drop (length (wire_message topic payload)) out)) \<and>
    frames T CAP (wire_message topic payload) = ([topic_frame topic, payload_frame payload], [])"
  using frames_wire_message [of topic CAP payload T "[]"] assms(2-7)
  by (simp add: publish_eq heapless_contract.sub_matches_refines [OF assms(1)] matches_spec_def Let_def
      frames_incomplete)

theorem publish_delivers_witness:
  "let P = list_build 64 64 2 8;
       c = snd (run (exec P) (start P Null example_accept) example_calls)
   in publish P c (ascii ''abc'') [1, 2] (replicate 10 0)
        = (Ok 9, wire_message (ascii ''abc'') [1, 2] @ [0]) \<and>
      publish P c (ascii ''xyz'') [1, 2] (replicate 10 0) = (Ok 0, replicate 10 0)"
proof -
  let ?P = "list_build 64 64 2 8"
  let ?c = "snd (run (exec ?P) (start ?P Null example_accept) example_calls)"
  have st: "state ?c = Established" "subs list_heapless (sub_table ?c) = {#ascii ''ab''#}"
    by code_simp+
  have len: "length (wire_message (ascii ''abc'') [1, 2]) = 9" by code_simp
  have pre: "prefix (ascii ''ab'') (ascii ''abc'')" "\<not> prefix (ascii ''ab'') (ascii ''xyz'')" by simp_all
  have "publish ?P ?c t [1, 2] (replicate 10 0) =
      (if \<not> prefix (ascii ''ab'') t then (Ok 0, replicate 10 0)
       else if 10 < length (wire_message t [1, 2]) then (Err ConnError.BufferTooSmall, replicate 10 0)
       else (Ok (length (wire_message t [1, 2])),
         wire_message t [1, 2] @ drop (length (wire_message t [1, 2])) (replicate 10 0)))"
    if "length t \<le> 64" for t
    using publish_delivers [of ?P t 64 "[1, 2]" "target_of ?P" ?c "replicate 10 0"] that st
      list_vec.heapless_contract_axioms
    by simp
  from this [of "ascii ''abc''"] this [of "ascii ''xyz''"] len pre show ?thesis
    by (simp add: Let_def del: ascii_simps)
qed

section \<open>Heartbeats\<close>

definition ping_frame :: "bytes \<Rightarrow> bytes \<Rightarrow> DecodedFrame" where
  "ping_frame ttl ctx = \<lparr>df_more = False, df_is_command = True, df_body = command_body (ascii ''PING'') (ttl @ ctx)\<rparr>"

lemma ping_frame_simps [simp]:
  "df_more (ping_frame ttl ctx) = False" "df_is_command (ping_frame ttl ctx)"
  "df_body (ping_frame ttl ctx) = command_body (ascii ''PING'') (ttl @ ctx)"
  by (simp_all add: ping_frame_def)

lemma feed_ping:
  assumes "conn_inv P accept c" and "state c = Established" and "fd_state (frame_decoder c) = NeedFlags"
    and ttl: "length ttl = 2" and len: "7 + length ctx \<le> FRAME_CAP P" "7 + length ctx < 2 ^ 64"
      "7 + length ctx < 2 ^ usize_bits (target_of P)"
  shows "\<exists>d. fd_inv (FRAME_CAP P) d \<and> fd_state d = NeedFlags \<and>
    feed P c (wire_frame (ping_frame ttl ctx)) =
      (Ok (length (wire_frame (ping_frame ttl ctx))),
       c\<lparr>frame_decoder := d, pending_pong :=
         if 1 \<le> peer_version_minor c
         then Some (take 16 ctx @ replicate (16 - length (take 16 ctx)) 0, length (take 16 ctx))
         else pending_pong c\<rparr>)"
proof -
  have "fd_inv (FRAME_CAP P) (frame_decoder c)" using assms(1) by (simp add: client_inv_def link_inv_def)
  from feed_wire_frame [OF this assms(3), of "ping_frame ttl ctx" "target_of P"] ttl len
  obtain d where d: "Frame.feed (target_of P) (FRAME_CAP P) (frame_decoder c) (wire_frame (ping_frame ttl ctx))
      = (Ok (length (wire_frame (ping_frame ttl ctx)), Some (ping_frame ttl ctx)), d)"
    "fd_inv (FRAME_CAP P) d" "fd_state d = NeedFlags"
    by (auto simp: command_body_def)
  have n: "min (length (ttl @ ctx) - 2) 16 = length (take 16 ctx)" "drop 2 (ttl @ ctx) = ctx"
    "take (length (take 16 ctx)) ctx = take 16 ctx"
    using ttl by (simp_all add: min_def)
  have q: "queue_pong (ttl @ ctx) (c\<lparr>frame_decoder := d\<rparr>) =
      (Ok (), c\<lparr>frame_decoder := d, pending_pong := Some (take 16 ctx @ replicate (16 - length (take 16 ctx)) 0,
        length (take 16 ctx))\<rparr>)"
    unfolding queue_pong_eq Let_def n by simp
  have "on_frame P (c\<lparr>frame_decoder := d\<rparr>) (ping_frame ttl ctx) =
      (if 1 \<le> peer_version_minor c then queue_pong (ttl @ ctx) (c\<lparr>frame_decoder := d\<rparr>)
       else (Ok (), c\<lparr>frame_decoder := d\<rparr>))"
    by (simp add: on_frame_eq)
  with d q assms(2) show ?thesis
    by (intro exI [of _ d]) (simp add: feed_def feed_established_def)
qed

text \<open>
  C31. Heartbeats: an established connection whose decoder is between two frames answers a PING of
  a ZMTP 3.1 peer with exactly one PONG that carries the first 16 bytes of the ping's context; the PONG is
  written once, and a peer that announced minor version 0 gets none.
\<close>

theorem ping_answered:
  assumes "heapless_contract (heapless_of P)"
    and "run (exec P) (start P m accept) calls = (rs, c)"
    and "state c = Established" and "fd_state (frame_decoder c) = NeedFlags"
    and "pending_pong c = None"
    and "length ttl = 2" and "7 + length ctx \<le> FRAME_CAP P" "7 + length ctx < 2 ^ 64"
      "7 + length ctx < 2 ^ usize_bits (target_of P)"
    and "23 \<le> length out"
  shows "fst (run (exec P) c [Feed (wire_frame (ping_frame ttl ctx)), WritePong out, WritePong out]) =
    (let pong = wire_frame (pong_frame (take 16 ctx)) in
     [(Ok (length (wire_frame (ping_frame ttl ctx))), []),
      (if 1 \<le> peer_version_minor c then (Ok (length pong), pong @ drop (length pong) out) else (Ok 0, out)),
      (Ok 0, out)])"
proof -
  have build: "pub_build P" using assms(1) by (rule pub_build.intro)
  have inv: "conn_inv P (start_auth m accept) c"
    by (rule pub_build.start_run_inv [OF build assms(2)])
  from feed_ping [OF inv assms(3,4,6-9)] obtain d where f: "feed P c (wire_frame (ping_frame ttl ctx)) =
      (Ok (length (wire_frame (ping_frame ttl ctx))),
       c\<lparr>frame_decoder := d, pending_pong :=
         if 1 \<le> peer_version_minor c
         then Some (take 16 ctx @ replicate (16 - length (take 16 ctx)) 0, length (take 16 ctx))
         else pending_pong c\<rparr>)" (is "_ = (_, ?c1)")
    by blast
  have "conn_inv P (start_auth m accept) ?c1"
    using pub_build.feed_inv [OF build inv, of "wire_frame (ping_frame ttl ctx)"] f by simp
  then have link: "link_inv (FRAME_CAP P) (start_auth m accept) ?c1" by (simp add: client_inv_def)
  have len: "length (wire_frame (pong_frame (take 16 ctx))) = 7 + length (take 16 ctx)"
    by (simp add: wire_frame_def pong_frame_def command_body_def length_frame_header)
  have none: "write_pong c' out = (Ok None, out, c')" if "pending_pong c' = None" for c' :: "'b Connection"
    using that by (simp add: write_pong_def)
  have out: "\<not> length out < 7 + length (take 16 ctx)" using assms(10) by simp
  have pong: "write_pong ?c1 out =
      (if 1 \<le> peer_version_minor c
       then (Ok (Some (7 + length (take 16 ctx))), wire_frame (pong_frame (take 16 ctx)) @ drop (7 + length (take 16 ctx)) out,
         ?c1\<lparr>pending_pong := None\<rparr>)
       else (Ok None, out, ?c1))"
    using out assms(5) unfolding write_pong_eq [OF link] by (simp add: min_def)
  show ?thesis
    using f pong len assms(5) by (simp add: none Let_def)
qed

theorem ping_answered_witness:
  "let P = list_build 64 64 2 8;
       c = snd (run (exec P) (start P Null example_accept) example_calls)
   in snd (fst (run (exec P) c [Feed (wire_frame (ping_frame [0, 60] [1, 2, 3])), WritePong (replicate 23 0),
        WritePong (replicate 23 0)]) ! 1) = wire_frame (pong_frame [1, 2, 3]) @ replicate 13 0"
proof -
  let ?P = "list_build 64 64 2 8"
  let ?c = "snd (run (exec ?P) (start ?P Null example_accept) example_calls)"
  have st: "state ?c = Established" "fd_state (frame_decoder ?c) = NeedFlags" "pending_pong ?c = None"
    "peer_version_minor ?c = 1"
    by code_simp+
  have len: "length (wire_frame (pong_frame [1, 2, 3])) = 10" by code_simp
  let ?calls = "[Feed (wire_frame (ping_frame [0, 60] [1, 2, 3])), WritePong (replicate 23 0), WritePong (replicate 23 0)]"
  have "fst (run (exec ?P) ?c ?calls) =
      [(Ok (length (wire_frame (ping_frame [0, 60] [1, 2, 3]))), []),
       (Ok 10, wire_frame (pong_frame [1, 2, 3]) @ replicate 13 0), (Ok 0, replicate 23 0)]"
    using ping_answered [of ?P, OF _ prod.collapse [symmetric] st(1,2,3), of "[0, 60]" "[1, 2, 3]" "replicate 23 0"]
      list_vec.heapless_contract_axioms st(4) len
    by (simp add: Let_def del: run.simps)
  then show ?thesis by (simp add: Let_def del: run.simps)
qed

section \<open>Handshakes with a well-behaved peer\<close>

lemma start_fresh:
  "fresh (FRAME_CAP P) Null unit_auth (new_connection P)"
  "fresh (FRAME_CAP P) Plain accept (new_plain P accept)"
  by (simp_all add: fresh_def new_connection_def new_plain_def authenticator_check_def fun_eq_iff)

context pub_build begin

lemmas null_completes = pub.null_completes [OF start_fresh(1)]
lemmas null_greets = pub.exchange_greetings [OF start_fresh(1)]
lemmas plain_greets = pub.greet_and_hello [OF start_fresh(2)]

end

text \<open>
  C30. The handshake completes: a NULL connection that sends its greeting and READY into buffers
  that are large enough, and is fed any greeting of the NULL mechanism and any READY command of a
  SUB or XSUB peer, is established; every call succeeds, what it sends is its greeting and its
  READY, and it starts with the peer's version and no subscription.
\<close>

theorem null_handshake_completes:
  assumes "heapless_contract (heapless_of P)"
    and "length g = 64" "greeting_for (ascii ''NULL'') v g"
    and "64 \<le> length out1" "27 \<le> length out2"
    and "parse_ready_from (target_of P) True body = Ok ty"
    and "length body \<le> 255" "length body \<le> FRAME_CAP P" "8 \<le> usize_bits (target_of P)"
    and f: "f = \<lparr>df_more = False, df_is_command = True, df_body = body\<rparr>"
  shows "\<exists>c. run (exec P) (new_connection P)
      [WriteGreeting out1, Feed g, WriteReady out2, Feed (wire_frame f)] =
      ([(Ok 64, encode_greeting [] @ drop 64 out1), (Ok 64, []), (Ok 27, READY_FRAME @ drop 27 out2),
        (Ok (length (wire_frame f)), [])], c) \<and>
    state c = Established \<and> peer_version_minor c = v \<and> subs (heapless_of P) (sub_table c) = {#}"
proof -
  have build: "pub_build P" using assms(1) by (rule pub_build.intro)
  have greets: "peer_greets Null v g" using assms(2,3) by (simp add: peer_greets_def)
  have len: "length READY_FRAME = 27" by (simp add: READY_FRAME_def)
  with assms(5) have "length READY_FRAME \<le> length out2" by simp
  from pub_build.null_completes [OF build greets assms(4) this assms(6-9) f]
  obtain c where c: "run (exec P) (new_connection P) [WriteGreeting out1, Feed g, WriteReady out2, Feed (wire_frame f)] =
      ([(Ok 64, our_greeting Null @ drop 64 out1), (Ok 64, []), (Ok 27, READY_FRAME @ drop 27 out2),
        (Ok (length (wire_frame f)), [])], c)"
    "state c = Established" "peer_version_minor c = v" "link.more c = link.more (new_connection P)"
    by (auto simp: len simp del: run.simps)
  then have "subs (heapless_of P) (sub_table c) = {#}"
    using more_sub_table [of c "new_connection P"] heapless_contract.new_sub_table_subs [OF assms(1)]
    by (simp add: new_connection_def)
  with c show ?thesis by (simp add: our_greeting_def del: run.simps)
qed

theorem null_handshake_completes_witness:
  "\<exists>c. snd (run (exec (list_build 32 64 2 8)) (new_connection (list_build 32 64 2 8))
      [WriteGreeting (replicate 64 0), Feed sub_greeting, WriteReady (replicate 27 0),
       Feed (wire_frame \<lparr>df_more = False, df_is_command = True, df_body = drop 2 sub_ready\<rparr>)]) = c \<and>
     state c = Established"
proof -
  have "greeting_for (ascii ''NULL'') 1 sub_greeting" "length sub_greeting = 64"
    "parse_ready_from \<lparr>usize_bits = 32, overflow_checks = True\<rparr> True (drop 2 sub_ready) = Ok Sub"
    "length (drop 2 sub_ready) = 25"
    by code_simp+
  with null_handshake_completes [of "list_build 32 64 2 8" sub_greeting 1 "replicate 64 0" "replicate 27 0"
      "drop 2 sub_ready" Sub "\<lparr>df_more = False, df_is_command = True, df_body = drop 2 sub_ready\<rparr>"]
  show ?thesis
    using list_vec.heapless_contract_axioms by (auto simp del: run.simps)
qed

text \<open>
  C3. PLAIN admits exactly the credentials its authenticator accepts: after the greetings, a HELLO
  with a username and a password makes the connection ready for WELCOME when they are accepted;
  otherwise the call returns \<^verbatim>\<open>AuthFailed\<close> and the connection has failed for good, whatever it is
  fed afterwards.
\<close>

theorem plain_admits_accepted:
  assumes "heapless_contract (heapless_of P)"
    and "length g = 64" "greeting_for (ascii ''PLAIN'') v g" and "64 \<le> length out"
    and "length u < 256" "length p < 256" and "length (hello_body u p) \<le> FRAME_CAP P"
    and "10 \<le> usize_bits (target_of P)"
    and f: "f = \<lparr>df_more = False, df_is_command = True, df_body = hello_body u p\<rparr>"
    and run: "run (exec P) (new_plain P accept) ([WriteGreeting out, Feed g, Feed (wire_frame f)] @ calls) = (rs, c)"
  shows "if accept u p
    then fst (rs ! 2) = Ok (length (wire_frame f)) \<and> (calls = [] \<longrightarrow> state c = PlainReady)
    else fst (rs ! 2) = Err (PlainError AuthFailed) \<and> state c = Failed"
proof -
  have build: "pub_build P" using assms(1) by (rule pub_build.intro)
  have greets: "peer_greets Plain v g" using assms(2,3) by (simp add: peer_greets_def)
  from pub_build.plain_greets [OF build greets assms(4-8) f, of accept] obtain d where
    d: "run (exec P) (new_plain P accept) [WriteGreeting out, Feed g, Feed (wire_frame f)] =
      ([(Ok 64, our_greeting Plain @ drop 64 out), (Ok 64, []),
        (if accept u p then Ok (length (wire_frame f)) else Err (PlainError AuthFailed), [])],
       (greeted Plain g v (new_plain P accept))\<lparr>frame_decoder := d, state := (if accept u p then PlainReady else Failed)\<rparr>)"
      (is "_ = (_, ?c1)")
    by (auto simp del: run.simps)
  obtain rs' where rest: "run (exec P) ?c1 calls = (rs', c)"
    and rs: "rs = [(Ok 64, our_greeting Plain @ drop 64 out), (Ok 64, []),
        (if accept u p then Ok (length (wire_frame f)) else Err (PlainError AuthFailed), [])] @ rs'"
    using run unfolding run_append d by (auto split: prod.splits)
  have inv1: "conn_inv P (start_auth Plain accept) ?c1"
    by (rule pub_build.start_run_inv [OF build, of Plain accept, unfolded start_def Mechanism.case, OF d])
  show ?thesis
  proof (cases "accept u p")
    case True
    with rest rs show ?thesis by auto
  next
    case False
    with pub_build.run_final [OF build inv1 rest] rs show ?thesis by simp
  qed
qed

theorem plain_admits_accepted_witness:
  "let P = list_build 64 64 2 8;
       calls = (\<lambda>u. [WriteGreeting (replicate 64 0), Feed plain_sub_greeting,
         Feed (wire_frame \<lparr>df_more = False, df_is_command = True, df_body = hello_body u [112]\<rparr>)])
   in state (snd (run (exec P) (new_plain P example_accept) (calls [117]))) = PlainReady \<and>
      state (snd (run (exec P) (new_plain P example_accept) (calls [118]))) = Failed"
proof -
  let ?P = "list_build 64 64 2 8"
  let ?calls = "\<lambda>u. [WriteGreeting (replicate 64 0), Feed plain_sub_greeting,
         Feed (wire_frame \<lparr>df_more = False, df_is_command = True, df_body = hello_body u [112]\<rparr>)]"
  have g: "greeting_for (ascii ''PLAIN'') 1 plain_sub_greeting" "length plain_sub_greeting = 64"
    by code_simp+
  have "if example_accept u [112]
    then state (snd (run (exec ?P) (new_plain ?P example_accept) (?calls u))) = PlainReady
    else state (snd (run (exec ?P) (new_plain ?P example_accept) (?calls u))) = Failed"
    if "length u = 1" for u
  proof -
    obtain rs c where run: "run (exec ?P) (new_plain ?P example_accept) (?calls u @ []) = (rs, c)"
      by fastforce
    then have "run (exec ?P) (new_plain ?P example_accept) (?calls u) = (rs, c)"
      by (simp only: append_Nil2)
    moreover have "if example_accept u [112]
      then fst (rs ! 2) = Ok (length (wire_frame \<lparr>df_more = False, df_is_command = True, df_body = hello_body u [112]\<rparr>)) \<and>
        ([] = ([] :: call list) \<longrightarrow> state c = PlainReady)
      else fst (rs ! 2) = Err (PlainError AuthFailed) \<and> state c = Failed"
      by (rule plain_admits_accepted [OF _ g(2,1) _ _ _ _ _ refl run])
         (use that list_vec.heapless_contract_axioms in \<open>simp_all add: hello_body_def\<close>)
    ultimately show ?thesis by (simp del: run.simps split: if_splits)
  qed
  from this [of "[117]"] this [of "[118]"] show ?thesis
    by (simp add: example_accept_def Let_def del: run.simps)
qed

text \<open>
  C32. The same command that crashes the parser on a 32-bit target crashes a connection: a peer
  that completes the greetings and sends a READY with one property of announced length 2^32 - 1
  makes \<^verbatim>\<open>feed\<close> panic, whatever the profile.
\<close>

theorem remote_panic_32:
  assumes "heapless_contract (heapless_of P)" and "usize_bits (target_of P) = 32"
    and "length g = 64" "greeting_for (ascii ''NULL'') v g"
    and "64 \<le> length out1" "27 \<le> length out2" and "12 \<le> FRAME_CAP P"
    and f: "f = \<lparr>df_more = False, df_is_command = True, df_body = overflowing_ready\<rparr>"
  shows "map fst (fst (run (exec P) (new_connection P)
      [WriteGreeting out1, Feed g, WriteReady out2, Feed (wire_frame f)])) = [Ok 64, Ok 64, Ok 27, Panic]"
proof -
  have build: "pub_build P" using assms(1) by (rule pub_build.intro)
  have "peer_greets Null v g" using assms(3,4) by (simp add: peer_greets_def)
  from pub_build.null_greets [OF build this assms(5)]
  have first: "run (exec P) (new_connection P) [WriteGreeting out1, Feed g] =
      ([(Ok 64, our_greeting Null @ drop 64 out1), (Ok 64, [])], greeted Null g v (new_connection P))" .
  have len: "length overflowing_ready = 12" by (simp add: overflowing_ready_def command_body_def)
  have c: "mechanism (new_connection P) = Null" "\<not> our_ready_sent (new_connection P)"
    "frame_decoder (new_connection P) = new_decoder (FRAME_CAP P)"
    using start_fresh(1) [of P] by (simp_all add: fresh_def)
  obtain d where "Frame.feed (target_of P) (FRAME_CAP P) (new_decoder (FRAME_CAP P)) (wire_frame f)
      = (Ok (length (wire_frame f), Some f), d)"
    using feed_wire_frame [OF fd_inv_new new_decoder_state, of f "FRAME_CAP P" "target_of P"] assms(2,7) len
    by (auto simp: f)
  then have second: "map fst (fst (run (exec P) (greeted Null g v (new_connection P))
      [WriteReady out2, Feed (wire_frame f)])) = [Ok 27, Panic]"
    using assms(6) len parse_overflowing_ready [OF assms(2)] c
    by (simp add: write_ready_eq feed_def feed_ready_def feed_ready_inner_def Let_def f)
  have "run (exec P) (new_connection P) ([WriteGreeting out1, Feed g] @ [WriteReady out2, Feed (wire_frame f)]) =
     (case run (exec P) (greeted Null g v (new_connection P)) [WriteReady out2, Feed (wire_frame f)] of
        (rs, c) \<Rightarrow> ([(Ok 64, our_greeting Null @ drop 64 out1), (Ok 64, [])] @ rs, c))"
    unfolding run_append first by (simp split: prod.splits del: run.simps)
  with second show ?thesis by (simp add: split_beta del: run.simps)
qed

theorem remote_panic_32_witness:
  "map fst (fst (run (exec (list_build 32 64 2 8)) (new_connection (list_build 32 64 2 8))
      [WriteGreeting (replicate 64 0), Feed sub_greeting, WriteReady (replicate 27 0),
       Feed (wire_frame \<lparr>df_more = False, df_is_command = True, df_body = overflowing_ready\<rparr>)]))
     = [Ok 64, Ok 64, Ok 27, Panic]"
proof -
  have "greeting_for (ascii ''NULL'') 1 sub_greeting" "length sub_greeting = 64"
    by code_simp+
  then show ?thesis
    using list_vec.heapless_contract_axioms by (intro remote_panic_32) simp_all
qed

end
