(* ===== verification/Radio_Run.thy ===== *)
theory Radio_Run
  imports Client Radio_Connection
begin

text \<open>
  Runs of a RADIO connection: the functions it shares with the PUB connection, what a frame does to
  its groups, and the proof that it is a \<^verbatim>\<open>client\<close>.
\<close>

section \<open>The repeated code\<close>

text \<open>
  Everything that \<^verbatim>\<open>src/radio_connection.rs\<close> repeats of \<^verbatim>\<open>src/connection.rs\<close> without a change is the
  same function, so the lemmas of \<^verbatim>\<open>Connection_Spec\<close> hold of it.
\<close>

lemma radio_write_greeting: "Radio_Connection.write_greeting = Connection.write_greeting"
  by (simp add: fun_eq_iff Radio_Connection.write_greeting_def Connection.write_greeting_def)

lemma radio_write_welcome: "Radio_Connection.write_welcome = Connection.write_welcome"
  by (simp add: fun_eq_iff Radio_Connection.write_welcome_def Connection.write_welcome_def)

lemma radio_feed_greeting: "Radio_Connection.feed_greeting = Connection.feed_greeting"
  by (intro ext) (simp only: Radio_Connection.feed_greeting_def Connection.feed_greeting_def)

lemma radio_feed_plain_hello: "Radio_Connection.feed_plain_hello = Connection.feed_plain_hello"
  by (intro ext) (simp only: Radio_Connection.feed_plain_hello_def Connection.feed_plain_hello_def)

lemma radio_queue_pong: "Radio_Connection.queue_pong = Connection.queue_pong"
  by (intro ext) (simp only: Radio_Connection.queue_pong_def Connection.queue_pong_def)

lemma radio_write_error: "Radio_Connection.write_error = Connection.write_error"
  by (intro ext) (simp only: Radio_Connection.write_error_def Connection.write_error_def)

lemma radio_write_pong: "Radio_Connection.write_pong = Connection.write_pong"
  by (intro ext) (simp only: Radio_Connection.write_pong_def Connection.write_pong_def)

lemma radio_feed_ready_inner:
  "Radio_Connection.feed_ready_inner P = ready_inner P (parse_ready_radio_from (target_of P))"
  by (intro ext) (simp only: Radio_Connection.feed_ready_inner_def ready_inner_def)

lemmas radio_repeats = radio_write_greeting radio_write_welcome radio_feed_greeting radio_feed_plain_hello
  radio_queue_pong radio_write_error radio_write_pong

text \<open>The READY command is the one of a RADIO socket.\<close>

lemma radio_write_ready: "Radio_Connection.write_ready = client_write_ready RADIO_READY_FRAME"
proof -
  have len: "length RADIO_READY_FRAME = 29" by (simp add: RADIO_READY_FRAME_def)
  show ?thesis
  proof (intro ext)
    fix c :: "'c link_scheme" and out
    show "Radio_Connection.write_ready c out = client_write_ready RADIO_READY_FRAME c out"
      by (cases "mechanism c")
         (auto simp: Radio_Connection.write_ready_def client_write_ready_def encode_ready_radio_eq RADIO_READY_LEN_def
           Let_def len)
  qed
qed

section \<open>The effect of a frame on the groups\<close>

definition radio_effect :: "nat \<Rightarrow> nat \<Rightarrow> bytes set \<Rightarrow> DecodedFrame \<Rightarrow> bytes set" where
  "radio_effect n l G f =
     (if df_is_command f then
        (case split_command (df_body f) of
           None \<Rightarrow> G
         | Some (name, payload) \<Rightarrow>
             if name = ascii ''JOIN'' then snd (join_spec n l G payload)
             else if name = ascii ''LEAVE'' then snd (leave_spec G payload)
             else G)
      else G)"

lemma radio_on_frame_eq:
  "Radio_Connection.on_frame P c f =
     (if df_is_command f then
        (case split_command (df_body f) of
           None \<Rightarrow> (Ok (), c)
         | Some (name, payload) \<Rightarrow>
             if name = ascii ''JOIN'' then do_join P c payload
             else if name = ascii ''LEAVE'' then do_leave P c payload
             else if name = ascii ''PING'' \<and> 1 \<le> peer_version_minor c then Connection.queue_pong payload c
             else (Ok (), c))
      else (Ok (), c))"
  by (cases "df_body f")
     (auto simp: Radio_Connection.on_frame_def split_command_eq Let_def radio_queue_pong simp del: ascii_simps)

abbreviation radio_tab_ok :: "('b, 'v) radio_build \<Rightarrow> 'v RadioConnection \<Rightarrow> bool" where
  "radio_tab_ok P c \<equiv> group_inv (heapless_of P) (GROUP_CAP P) (GROUP_LEN_CAP P) (group_table c)"

abbreviation radio_groups :: "('b, 'v) radio_build \<Rightarrow> 'v RadioConnection \<Rightarrow> bytes set" where
  "radio_groups P c \<equiv> groups (heapless_of P) (group_table c)"

abbreviation radio_inv :: "('b, 'v) radio_build \<Rightarrow> auth_check \<Rightarrow> 'v RadioConnection \<Rightarrow> bool" where
  "radio_inv P \<equiv> client_inv P (radio_tab_ok P)"

abbreviation radio_rel :: "('b, 'v) radio_build \<Rightarrow> 'v RadioConnection \<Rightarrow> bytes \<Rightarrow> bool" where
  "radio_rel P \<equiv> client_rel P (parse_ready_radio_from (target_of P)) (radio_groups P)
     (radio_effect (GROUP_CAP P) (GROUP_LEN_CAP P)) {}"

lemma more_group_table: "link.more c' = link.more c \<Longrightarrow> group_table c' = group_table c"
  by (cases c; cases c') (simp add: RadioConnection.defs)

text \<open>A connection with its \<^verbatim>\<open>heapless\<close> tables, on any target.\<close>

locale dish_build =
  fixes P :: "('b, 'v) radio_build"
  assumes heapless: "heapless_contract (heapless_of P)"
begin

lemma do_join_eq:
  assumes "radio_tab_ok P c"
  shows "\<exists>t. do_join P c grp = (Ok (), c\<lparr>group_table := t\<rparr>) \<and>
    group_inv (heapless_of P) (GROUP_CAP P) (GROUP_LEN_CAP P) t \<and>
    groups (heapless_of P) t = snd (join_spec (GROUP_CAP P) (GROUP_LEN_CAP P) (radio_groups P c) grp)"
proof -
  obtain r t where rt: "join (heapless_of P) (GROUP_CAP P) (GROUP_LEN_CAP P) (group_table c) grp = (r, t)"
    by fastforce
  have "groups (heapless_of P) t = snd (join_spec (GROUP_CAP P) (GROUP_LEN_CAP P) (radio_groups P c) grp)"
    using heapless_contract.join_refines [OF heapless assms, of grp] rt by (metis map_prod_simp snd_conv)
  with rt heapless_contract.join_safe [OF heapless assms, of grp] show ?thesis
    by (intro exI [of _ t]) (simp add: do_join_def ignore_err_ok)
qed

lemma do_leave_eq:
  assumes "radio_tab_ok P c"
  shows "\<exists>t. do_leave P c grp = (Ok (), c\<lparr>group_table := t\<rparr>) \<and>
    group_inv (heapless_of P) (GROUP_CAP P) (GROUP_LEN_CAP P) t \<and>
    groups (heapless_of P) t = snd (leave_spec (radio_groups P c) grp)"
proof -
  obtain r t where rt: "leave (heapless_of P) (group_table c) grp = (r, t)" by fastforce
  have "groups (heapless_of P) t = snd (leave_spec (radio_groups P c) grp)"
    using heapless_contract.leave_refines [OF heapless assms, of grp] rt by (metis map_prod_simp snd_conv)
  with rt heapless_contract.leave_safe [OF heapless assms, of grp] show ?thesis
    by (intro exI [of _ t]) (simp add: do_leave_def ignore_err_ok)
qed

text \<open>The law of the handler, by the command in the frame.\<close>

lemma table_law:
  assumes "handler = (Ok (), c\<lparr>group_table := t\<rparr>)" and "group_inv (heapless_of P) (GROUP_CAP P) (GROUP_LEN_CAP P) t"
    and "groups (heapless_of P) t = G"
  shows "\<exists>p t. handler = (Ok (), c\<lparr>pending_pong := p, link.more := t\<rparr>) \<and>
      (p = pending_pong c \<or> (\<exists>ctx n. p = Some (ctx, n) \<and> length ctx = 16 \<and> n \<le> 16)) \<and>
      radio_tab_ok P (c\<lparr>link.more := t\<rparr>) \<and> radio_groups P (c\<lparr>link.more := t\<rparr>) = G"
proof -
  let ?t = "link.more (c\<lparr>group_table := t\<rparr>)"
  have "c\<lparr>group_table := t\<rparr> = c\<lparr>pending_pong := pending_pong c, link.more := ?t\<rparr>"
    "group_table (c\<lparr>link.more := ?t\<rparr>) = t"
    by (cases c; simp)+
  with assms show ?thesis by (intro exI [of _ "pending_pong c"] exI [of _ ?t]) simp
qed

lemma on_frame_law:
  assumes tab: "radio_tab_ok P c"
  shows "\<exists>p t. Radio_Connection.on_frame P c f = (Ok (), c\<lparr>pending_pong := p, link.more := t\<rparr>) \<and>
      (p = pending_pong c \<or> (\<exists>ctx n. p = Some (ctx, n) \<and> length ctx = 16 \<and> n \<le> 16)) \<and>
      radio_tab_ok P (c\<lparr>link.more := t\<rparr>) \<and>
      radio_groups P (c\<lparr>link.more := t\<rparr>) = radio_effect (GROUP_CAP P) (GROUP_LEN_CAP P) (radio_groups P c) f"
proof -
  let ?eff = "radio_effect (GROUP_CAP P) (GROUP_LEN_CAP P) (radio_groups P c) f"
  have idle: ?thesis if "Radio_Connection.on_frame P c f = (Ok (), c)" "?eff = radio_groups P c"
    by (rule table_law [where t = "group_table c"]) (simp_all only: that tab RadioConnection.surjective, simp_all)
  show ?thesis
  proof (cases "if df_is_command f then split_command (df_body f) else None")
    case None
    then show ?thesis
      by (intro idle) (auto simp: radio_on_frame_eq radio_effect_def split: if_splits)
  next
    case (Some np)
    obtain name payload where np: "np = (name, payload)" by fastforce
    have f: "df_is_command f" "split_command (df_body f) = Some (name, payload)"
      using Some np by (auto split: if_splits)
    consider (join) "name = ascii ''JOIN''" | (leave) "name = ascii ''LEAVE''"
      | (ping) "name = ascii ''PING''" "1 \<le> peer_version_minor c"
      | (other) "name \<noteq> ascii ''JOIN''" "name \<noteq> ascii ''LEAVE''"
          "\<not> (name = ascii ''PING'' \<and> 1 \<le> peer_version_minor c)"
      by blast
    then show ?thesis
    proof cases
      case join
      with f do_join_eq [OF tab, of payload] show ?thesis
        by (auto intro!: table_law simp: radio_on_frame_eq radio_effect_def)
    next
      case leave
      with f do_leave_eq [OF tab, of payload] show ?thesis
        by (auto intro!: table_law simp: radio_on_frame_eq radio_effect_def)
    next
      case ping
      define n where "n = min (length payload - 2) 16"
      define p where "p = Some (take n (drop 2 payload) @ replicate (16 - n) (0 :: byte), n)"
      have "Connection.queue_pong payload c = (Ok (), c\<lparr>pending_pong := p, link.more := link.more c\<rparr>)"
        and "n \<le> 16" "c\<lparr>link.more := link.more c\<rparr> = c"
        by (simp_all add: queue_pong_eq Let_def n_def p_def)
      with f ping tab show ?thesis
        by (intro exI [of _ p] exI [of _ "link.more c"])
           (auto simp: radio_on_frame_eq radio_effect_def p_def n_def)
    next
      case other
      with f show ?thesis
        by (intro idle) (auto simp: radio_on_frame_eq radio_effect_def simp del: ascii_simps)
    qed
  qed
qed

lemma feed_client:
  "Radio_Connection.feed P = client_feed P (parse_ready_radio_from (target_of P)) (Radio_Connection.on_frame P)"
  by (simp add: fun_eq_iff Radio_Connection.feed_def client_feed_def Radio_Connection.feed_ready_def
      Radio_Connection.feed_plain_ready_def radio_feed_ready_inner radio_repeats
      Radio_Connection.feed_established_def established_def split: State.splits)

lemma exec_client: "Radio_Connection.exec P =
  client_exec P RADIO_READY_FRAME (parse_ready_radio_from (target_of P)) (Radio_Connection.on_frame P)"
proof (intro ext)
  fix c a
  show "Radio_Connection.exec P c a =
    client_exec P RADIO_READY_FRAME (parse_ready_radio_from (target_of P)) (Radio_Connection.on_frame P) c a"
    by (cases a) (simp_all add: feed_client radio_write_ready radio_repeats)
qed

lemma start_inv: "radio_inv P unit_auth (new_radio P)" "radio_inv P accept (new_radio_plain P accept)"
  by (simp_all add: client_inv_def link_inv_def new_radio_def new_radio_plain_def group_inv_def groups_def
      authenticator_check_def fun_eq_iff heapless_contract.new_group_table_groups [OF heapless])

lemma start_rel: "radio_rel P (new_radio P) []" "radio_rel P (new_radio_plain P accept) []"
  by (simp_all add: client_rel_def link_rel_def new_radio_def new_radio_plain_def groups_def
      heapless_contract.new_group_table_groups [OF heapless])

end

sublocale dish_build \<subseteq> radio: client P "parse_ready_radio_from (target_of P)" RADIO_READY_FRAME
  "Radio_Connection.on_frame P" "radio_tab_ok P" "radio_groups P"
  "radio_effect (GROUP_CAP P) (GROUP_LEN_CAP P)" "{}" "Radio_Connection.feed P" "Radio_Connection.exec P"
  by (unfold_locales, erule on_frame_law, (drule more_group_table, simp)+, rule feed_client, rule exec_client)

text \<open>The same build on a 64-bit target.\<close>

locale dish_build_64 = dish_build +
  assumes bits: "usize_bits (target_of P) = 64"

sublocale dish_build_64 \<subseteq> safe: safe_client P "parse_ready_radio_from (target_of P)" RADIO_READY_FRAME
  "Radio_Connection.on_frame P" "radio_tab_ok P" "radio_groups P"
  "radio_effect (GROUP_CAP P) (GROUP_LEN_CAP P)" "{}" "Radio_Connection.feed P" "Radio_Connection.exec P"
  by unfold_locales (use parse_ready_safe [OF bits] in simp)

text \<open>A concrete build, with lists as tables.\<close>

definition list_radio_build :: "nat \<Rightarrow> nat \<Rightarrow> nat \<Rightarrow> nat \<Rightarrow> (bytes, bytes list) radio_build" where
  "list_radio_build bits F n l =
     \<lparr>target_of = \<lparr>usize_bits = bits, overflow_checks = True\<rparr>, heapless_of = list_heapless,
      FRAME_CAP = F, GROUP_CAP = n, GROUP_LEN_CAP = l\<rparr>"

lemma list_radio_build_simps [simp]:
  "heapless_of (list_radio_build bits F n l) = list_heapless"
  "target_of (list_radio_build bits F n l) = \<lparr>usize_bits = bits, overflow_checks = True\<rparr>"
  "FRAME_CAP (list_radio_build bits F n l) = F"
  "GROUP_CAP (list_radio_build bits F n l) = n"
  "GROUP_LEN_CAP (list_radio_build bits F n l) = l"
  by (simp_all add: list_radio_build_def)

interpretation list_dish: dish_build "list_radio_build bits F n l" for bits F n l
  by (rule dish_build.intro) (simp add: list_vec.heapless_contract_axioms)

interpretation list_dish_64: dish_build_64 "list_radio_build 64 F n l" for F n l
  by (rule dish_build_64.intro, rule list_dish.dish_build_axioms, rule dish_build_64_axioms.intro) simp

end
