(* ===== verification/Radio_Properties.thy ===== *)
theory Radio_Properties
  imports Radio_Run Connection_Messages
begin

text \<open>The properties of RADIO connections.\<close>

section \<open>Starting points\<close>

definition start_radio :: "('b, 'v) radio_build \<Rightarrow> Mechanism \<Rightarrow> authenticator \<Rightarrow> 'v RadioConnection" where
  "start_radio P m accept = (case m of Null \<Rightarrow> new_radio P | Plain \<Rightarrow> new_radio_plain P accept)"

lemma start_radio_fresh: "fresh (FRAME_CAP P) m (start_auth m accept) (start_radio P m accept)"
  by (cases m) (simp_all add: fresh_def start_radio_def new_radio_def new_radio_plain_def start_auth_def
      authenticator_check_def fun_eq_iff)

lemma start_radio_simps [simp]:
  "handshake_of (start_radio P m accept) = hs_start m"
  "group_table (start_radio P m accept) = new_group_table (heapless_of P)"
  by (cases m; simp add: start_radio_def new_radio_def new_radio_plain_def handshake_of_def hs_start_def)+

lemma start_radio_mechanism: "mechanism (start_radio P m accept) = m"
  by (cases m) (simp_all add: start_radio_def new_radio_def new_radio_plain_def)

context dish_build begin

lemma start_radio_inv: "radio_inv P (start_auth m accept) (start_radio P m accept)"
  and start_radio_rel: "radio_rel P (start_radio P m accept) []"
  using start_inv start_rel by (cases m; simp add: start_radio_def start_auth_def)+

lemmas start_run_inv = radio.calls.run_inv [OF start_radio_inv]
lemmas start_handshake = radio.run_handshake [OF start_radio_inv start_radio_simps(1)]
lemmas start_established = radio.run_established [OF start_radio_inv start_radio_simps(1)]
lemmas start_heard_hello = radio.run_heard_hello [OF start_radio_inv start_radio_rel start_radio_mechanism]
lemmas start_stream = radio.run_stream [OF start_radio_inv start_radio_simps(1) start_radio_rel]
lemmas errors_final = radio.errors_final
lemmas feed_wrong_state = radio.feed_wrong_state
lemmas plain_completes = radio.plain_completes [OF start_radio_fresh [of P Plain]]

end

context dish_build_64 begin

lemmas run_safe = safe.safe.run_safe

end

text \<open>A complete handshake with the DISH peer of the unit tests, a JOIN, and a message of ZMTP 3.0.\<close>

definition example_radio_calls :: "call list" where
  "example_radio_calls =
     [WriteGreeting (replicate 64 0), Feed dish_greeting, WriteReady (replicate 29 0),
      Feed dish_ready, Feed (dish_join (ascii ''ab'')), Feed [0, 2, 1, 97]]"

section \<open>Properties\<close>

text \<open>
  C8. A RADIO connection understands its peer: after any run in which no \<^verbatim>\<open>feed\<close> failed, the state is
  what the consumed bytes mean when they are parsed in one go. Once established, the joined
  groups are exactly what the JOIN and LEAVE commands after the handshake make of the empty set
  (every other frame, the subscription messages of ZMTP 3.0 included, changes nothing), there are at most
  \<^verbatim>\<open>GROUP_CAP\<close> of them, and a group matches when it is one of them.
\<close>

theorem radio_stream_refinement:
  assumes "heapless_contract (heapless_of P)"
    and "run (Radio_Connection.exec P) (start_radio P m accept) calls = (rs, c)" and "clean_run calls rs"
    and M: "M = meaning_of (target_of P) (FRAME_CAP P) (parse_ready_radio_from (target_of P)) m (start_auth m accept)
      (stream_of calls rs)"
  shows "case state c of
      Greeting \<Rightarrow> length (stream_of calls rs) \<le> 64
    | PlainHello \<Rightarrow> (\<exists>r. M = AwaitHello (peer_version_minor c) r)
    | Ready \<Rightarrow> (\<exists>r. M = AwaitReady (peer_version_minor c) r)
    | PlainReady \<Rightarrow> (\<exists>r. M = AwaitReady (peer_version_minor c) r)
    | Failed \<Rightarrow> False
    | Established \<Rightarrow>
        (\<exists>fs r G. M = Talking (peer_version_minor c) fs r \<and>
          G = foldl (radio_effect (GROUP_CAP P) (GROUP_LEN_CAP P)) {} (filter df_is_command fs) \<and>
          card G \<le> GROUP_CAP P \<and>
          (\<forall>grp. group_matches (heapless_of P) (group_table c) grp \<longleftrightarrow> grp \<in> G))"
proof -
  have build: "dish_build P" using assms(1) by (rule dish_build.intro)
  have skip: "foldl (radio_effect n l) G (filter df_is_command fs) = foldl (radio_effect n l) G fs" for n l G fs
    by (induction fs arbitrary: G) (auto simp: radio_effect_def)
  have "group_inv (heapless_of P) (GROUP_CAP P) (GROUP_LEN_CAP P) (group_table c)"
    using dish_build.start_run_inv [OF build assms(2)] by (simp add: client_inv_def)
  then have "card (groups (heapless_of P) (group_table c)) \<le> GROUP_CAP P"
    using group_card by (metis group_inv_def)
  with dish_build.start_stream [OF build assms(2,3) M] heapless_contract.group_matches_refines [OF assms(1)]
  show ?thesis by (cases "state c") (auto simp: skip)
qed

theorem radio_stream_refinement_witness:
  "\<exists>c. snd (run (Radio_Connection.exec (list_radio_build 64 64 2 8))
      (start_radio (list_radio_build 64 64 2 8) Null example_accept) example_radio_calls) = c \<and>
     state c = Established \<and> group_matches list_heapless (group_table c) (ascii ''ab'') \<and>
     (\<exists>fs. ascii ''ab'' \<in> foldl (radio_effect 2 8) {} (filter df_is_command fs))"
proof -
  let ?P = "list_radio_build 64 64 2 8"
  define c where "c = snd (run (Radio_Connection.exec ?P) (start_radio ?P Null example_accept) example_radio_calls)"
  define rs where "rs = fst (run (Radio_Connection.exec ?P) (start_radio ?P Null example_accept) example_radio_calls)"
  have run: "run (Radio_Connection.exec ?P) (start_radio ?P Null example_accept) example_radio_calls = (rs, c)"
    by (simp add: rs_def c_def)
  have st: "state c = Established" "group_matches list_heapless (group_table c) (ascii ''ab'')"
    unfolding c_def by code_simp+
  have "clean_run example_radio_calls rs" unfolding rs_def by code_simp
  from radio_stream_refinement [of ?P, OF _ run this refl] st show ?thesis
    using list_vec.heapless_contract_axioms by (auto simp flip: c_def simp del: ascii_simps)
qed

text \<open>
  C9. A RADIO connection follows the same handshake as a PUB connection, whatever calls are made: an
  established one has exchanged greetings and sent READY, and with PLAIN also WELCOME, after it
  consumed a HELLO whose user name and password the authenticator accepts.
\<close>

theorem radio_follows_handshake:
  assumes "heapless_contract (heapless_of P)"
    and "run (Radio_Connection.exec P) (start_radio P m accept) calls = (rs, c)"
  shows "(hs_step (m = Plain \<and> (\<exists>u p. accept u p)))\<^sup>*\<^sup>* (hs_start m) (handshake_of c) \<and>
    (state c = Established \<longrightarrow> our_greeting_sent c \<and> peer_greeting_received c \<and> our_ready_sent c \<and>
       (m = Plain \<longrightarrow> our_welcome_sent c \<and> (\<exists>u p. accept u p))) \<and>
    (state c = PlainReady \<longrightarrow> m = Plain \<and> (\<exists>u p. accept u p)) \<and>
    (state c = Ready \<longrightarrow> m = Null) \<and>
    (m = Plain \<and> state c \<in> {PlainReady, Established} \<longrightarrow>
       (\<exists>u p. heard_hello (target_of P) (FRAME_CAP P) (stream_of calls rs) u p \<and> accept u p))"
proof -
  have build: "dish_build P" using assms(1) by (rule dish_build.intro)
  have "\<exists>u p. heard_hello (target_of P) (FRAME_CAP P) (stream_of calls rs) u p \<and> accept u p"
    if "m = Plain" "state c \<in> {PlainReady, Established}"
    using dish_build.start_heard_hello [OF build assms(2) [unfolded that(1)] that(2)] by (simp add: start_auth_def)
  then show ?thesis
    using dish_build.start_handshake(1) [OF build assms(2)] dish_build.start_established [OF build assms(2)]
    by (auto simp: can_auth_start)
qed

theorem radio_follows_handshake_witness:
  "\<exists>c. snd (run (Radio_Connection.exec (list_radio_build 64 64 2 8))
      (start_radio (list_radio_build 64 64 2 8) Null example_accept) example_radio_calls) = c \<and>
     state c = Established \<and> our_ready_sent c \<and> peer_greeting_received c"
proof -
  let ?P = "list_radio_build 64 64 2 8"
  have "state (snd (run (Radio_Connection.exec ?P) (start_radio ?P Null example_accept) example_radio_calls)) = Established"
    by code_simp
  then show ?thesis
    using radio_follows_handshake [of ?P Null example_accept example_radio_calls, OF _ prod.collapse [symmetric]]
      list_vec.heapless_contract_axioms
    by auto
qed

text \<open>
  C12. On a 64-bit target no call of any run of a RADIO connection panics. When \<^verbatim>\<open>feed\<close> returns
  \<^verbatim>\<open>WrongState\<close>, the connection is the one it was before; when it returns another error, the connection stays in
  its state for good, its groups do not change any more, and no later call panics either.
\<close>

theorem radio_safe_and_final:
  assumes "heapless_contract (heapless_of P)" and "usize_bits (target_of P) = 64"
    and run: "run (Radio_Connection.exec P) (start_radio P m accept) calls = (rs, c)"
  shows "Panic \<notin> fst ` set rs \<and> fst (Radio_Connection.feed P c input) \<noteq> Panic \<and>
    (\<forall>e c1 calls' rs' c2. Radio_Connection.feed P c input = (Err e, c1) \<longrightarrow>
      run (Radio_Connection.exec P) c1 calls' = (rs', c2) \<longrightarrow>
      Panic \<notin> fst ` set rs' \<and>
      (if e = WrongState then c1 = c
       else state c2 = state c1 \<and> group_table c2 = group_table c1 \<and> (state c2 = Established \<longleftrightarrow> state c = Established)))"
proof (intro conjI allI impI)
  have build: "dish_build P" using assms(1) by (rule dish_build.intro)
  then have build64: "dish_build_64 P" using assms(2) by (intro dish_build_64.intro dish_build_64_axioms.intro)
  note safe = dish_build_64.run_safe [OF build64 dish_build.start_radio_inv [OF build]]
  note inv = dish_build.start_run_inv [OF build run]
  show "Panic \<notin> fst ` set rs" by (rule safe [OF run])
  obtain r d where "Radio_Connection.feed P c input = (r, d)" by fastforce
  moreover from this have "run (Radio_Connection.exec P) (start_radio P m accept) (calls @ [Feed input]) = (rs @ [(r, [])], d)"
    by (simp add: run_append run)
  ultimately show "fst (Radio_Connection.feed P c input) \<noteq> Panic" using safe by fastforce
  fix e c1 calls' rs' c2
  assume f: "Radio_Connection.feed P c input = (Err e, c1)" and run': "run (Radio_Connection.exec P) c1 calls' = (rs', c2)"
  have "run (Radio_Connection.exec P) (start_radio P m accept) (calls @ Feed input # calls')
      = (rs @ (Err e, []) # rs', c2)"
    by (simp add: run_append run f run')
  from safe [OF this] show "Panic \<notin> fst ` set rs'" by auto
  show "if e = WrongState then c1 = c
    else state c2 = state c1 \<and> group_table c2 = group_table c1 \<and> (state c2 = Established \<longleftrightarrow> state c = Established)"
    using dish_build.errors_final [OF build inv f _ run'] more_group_table [of c2 c1]
      dish_build.feed_wrong_state [OF build inv, of input c1] f
    by auto
qed

theorem radio_safe_and_final_witness:
  "let P = list_radio_build 64 64 2 8;
       c = snd (run (Radio_Connection.exec P) (start_radio P Null example_accept) (take 3 example_radio_calls));
       c1 = snd (Radio_Connection.feed P c sub_ready)
   in fst (Radio_Connection.feed P c sub_ready) = Err (NullError WrongSocketType) \<and>
      state (snd (run (Radio_Connection.exec P) c1 [Feed dish_ready, Feed dish_ready])) = state c1"
proof -
  let ?P = "list_radio_build 64 64 2 8"
  let ?c = "snd (run (Radio_Connection.exec ?P) (start_radio ?P Null example_accept) (take 3 example_radio_calls))"
  have err: "fst (Radio_Connection.feed ?P ?c sub_ready) = Err (NullError WrongSocketType)" by code_simp
  then have "Radio_Connection.feed ?P ?c sub_ready
      = (Err (NullError WrongSocketType), snd (Radio_Connection.feed ?P ?c sub_ready))"
    by (simp add: prod_eq_iff)
  with radio_safe_and_final [of ?P, OF _ _ prod.collapse [symmetric], of Null example_accept "take 3 example_radio_calls"
      sub_ready]
  show ?thesis
    using list_vec.heapless_contract_axioms err
    by (simp add: Let_def del: run.simps) (metis prod.collapse ConnError.distinct)
qed
section \<open>Publishing to a group\<close>

lemma radio_publish_headers_eq:
  "Radio_Connection.publish_headers P c grp body =
     (if state c \<noteq> Established then Err WrongState
      else if \<not> group_matches (heapless_of P) (group_table c) grp then Ok None
      else Ok (Some (message_headers grp body)))"
  by (simp add: Radio_Connection.publish_headers_def encode_headers message_headers_def Let_def)

lemma radio_publish_eq:
  "Radio_Connection.publish P c grp body out =
     (if state c \<noteq> Established then (Err WrongState, out)
      else if \<not> group_matches (heapless_of P) (group_table c) grp then (Ok 0, out)
      else
        let msg = wire_message grp body in
        if length out < length msg then (Err ConnError.BufferTooSmall, out)
        else (Ok (length msg), msg @ drop (length msg) out))"
proof -
  have "Radio_Connection.publish P c grp body out
      = send_message (Radio_Connection.publish_headers P c grp body) grp body out"
    by (simp only: Radio_Connection.publish_def send_message_def)
  then show ?thesis by (simp add: radio_publish_headers_eq send_message_eq) (simp add: send_message_def)
qed

text \<open>
  C10. What a RADIO connection publishes after any run reaches the members of the group and no one
  else: \<^verbatim>\<open>publish\<close> writes nothing unless the connection is established and its peer has joined
  exactly this group (a prefix is not enough); then, given room, it writes the two frames of the message and
  nothing more, and a peer that decodes them gets the group with the MORE flag and then the body.
\<close>

theorem radio_publish_delivers:
  assumes "heapless_contract (heapless_of P)"
    and "length grp \<le> CAP" "length body \<le> CAP"
    and "length grp < 2 ^ 64" "length grp < 2 ^ usize_bits T"
    and "length body < 2 ^ 64" "length body < 2 ^ usize_bits T"
  shows "Radio_Connection.publish P c grp body out =
     (if state c \<noteq> Established then (Err WrongState, out)
      else if grp \<notin> groups (heapless_of P) (group_table c) then (Ok 0, out)
      else if length out < length (wire_message grp body) then (Err ConnError.BufferTooSmall, out)
      else (Ok (length (wire_message grp body)),
        wire_message grp body @ drop (length (wire_message grp body)) out)) \<and>
    frames T CAP (wire_message grp body) = ([topic_frame grp, payload_frame body], [])"
  using frames_wire_message [of grp CAP body T "[]"] assms(2-7)
  by (simp add: radio_publish_eq heapless_contract.group_matches_refines [OF assms(1)] Let_def frames_incomplete)

theorem radio_publish_delivers_witness:
  "let P = list_radio_build 64 64 2 8;
       c = snd (run (Radio_Connection.exec P) (start_radio P Null example_accept) example_radio_calls)
   in Radio_Connection.publish P c (ascii ''ab'') [1, 2] (replicate 9 0)
        = (Ok 8, wire_message (ascii ''ab'') [1, 2] @ [0]) \<and>
      Radio_Connection.publish P c (ascii ''abc'') [1, 2] (replicate 9 0) = (Ok 0, replicate 9 0)"
proof -
  let ?P = "list_radio_build 64 64 2 8"
  let ?c = "snd (run (Radio_Connection.exec ?P) (start_radio ?P Null example_accept) example_radio_calls)"
  have st: "state ?c = Established" "groups list_heapless (group_table ?c) = {ascii ''ab''}"
    by code_simp+
  have len: "length (wire_message (ascii ''ab'') [1, 2]) = 8" by code_simp
  have neq: "ascii ''abc'' \<noteq> ascii ''ab''" by simp
  have "Radio_Connection.publish ?P ?c t [1, 2] (replicate 9 0) =
      (if t \<noteq> ascii ''ab'' then (Ok 0, replicate 9 0)
       else if 9 < length (wire_message t [1, 2]) then (Err ConnError.BufferTooSmall, replicate 9 0)
       else (Ok (length (wire_message t [1, 2])),
         wire_message t [1, 2] @ drop (length (wire_message t [1, 2])) (replicate 9 0)))"
    if "length t \<le> 64" for t
    using radio_publish_delivers [of ?P t 64 "[1, 2]" "target_of ?P" ?c "replicate 9 0"] that st
      list_vec.heapless_contract_axioms
    by (simp del: ascii_simps)
  from this [of "ascii ''abc''"] this [of "ascii ''ab''"] len neq show ?thesis
    by (simp add: Let_def del: ascii_simps)
qed

text \<open>
  C11. The PLAIN handshake completes: a RADIO connection whose peer sends a PLAIN greeting, a HELLO
  with credentials that the authenticator accepts, and the READY command of a DISH socket, is established after the
  calls of the protocol in order; every call succeeds, and what it has sent is its greeting,
  WELCOME and READY.
\<close>

theorem radio_plain_completes:
  assumes "heapless_contract (heapless_of P)"
    and "length g = 64" "greeting_for (ascii ''PLAIN'') v g"
    and "length u < 256" "length p < 256" "length (hello_body u p) \<le> FRAME_CAP P" "accept u p"
    and "64 \<le> length out1" "10 \<le> length out2" "29 \<le> length out3"
    and "parse_ready_radio_from (target_of P) True body = Ok ty" "length body \<le> 255" "length body \<le> FRAME_CAP P"
    and "10 \<le> usize_bits (target_of P)"
    and f: "f = \<lparr>df_more = False, df_is_command = True, df_body = hello_body u p\<rparr>"
      "f' = \<lparr>df_more = False, df_is_command = True, df_body = body\<rparr>"
  shows "\<exists>c. run (Radio_Connection.exec P) (new_radio_plain P accept)
      [WriteGreeting out1, Feed g, Feed (wire_frame f), WriteWelcome out2, WriteReady out3, Feed (wire_frame f')] =
      ([(Ok 64, encode_plain_greeting [] @ drop 64 out1), (Ok 64, []), (Ok (length (wire_frame f)), []),
        (Ok 10, WELCOME_FRAME @ drop 10 out2), (Ok 29, RADIO_READY_FRAME @ drop 29 out3),
        (Ok (length (wire_frame f')), [])], c) \<and>
    state c = Established \<and> peer_version_minor c = v \<and> groups (heapless_of P) (group_table c) = {}"
proof -
  have build: "dish_build P" using assms(1) by (rule dish_build.intro)
  have greets: "peer_greets Plain v g" using assms(2,3) by (simp add: peer_greets_def)
  have len: "length RADIO_READY_FRAME = 29" by (simp add: RADIO_READY_FRAME_def)
  with assms(10) have "length RADIO_READY_FRAME \<le> length out3" by simp
  moreover have "start_auth Plain accept u p" using assms(7) by (simp add: start_auth_def)
  ultimately obtain c where c: "run (Radio_Connection.exec P) (start_radio P Plain accept)
      [WriteGreeting out1, Feed g, Feed (wire_frame f), WriteWelcome out2, WriteReady out3, Feed (wire_frame f')] =
      ([(Ok 64, our_greeting Plain @ drop 64 out1), (Ok 64, []), (Ok (length (wire_frame f)), []),
        (Ok 10, WELCOME_FRAME @ drop 10 out2), (Ok 29, RADIO_READY_FRAME @ drop 29 out3),
        (Ok (length (wire_frame f')), [])], c)"
    "state c = Established" "peer_version_minor c = v" "link.more c = link.more (start_radio P Plain accept)"
    using dish_build.plain_completes [OF build greets assms(4-6) _ assms(8,9) _ assms(11-14) f, of accept]
    by (auto simp: len simp del: run.simps)
  then have "groups (heapless_of P) (group_table c) = {}"
    using more_group_table [of c "start_radio P Plain accept"] heapless_contract.new_group_table_groups [OF assms(1)]
    by (simp add: groups_def)
  with c show ?thesis by (simp add: our_greeting_def start_radio_def del: run.simps)
qed

theorem radio_plain_completes_witness:
  "\<exists>c. snd (run (Radio_Connection.exec (list_radio_build 64 64 2 8)) (new_radio_plain (list_radio_build 64 64 2 8) example_accept)
      [WriteGreeting (replicate 64 0), Feed plain_sub_greeting,
       Feed (wire_frame \<lparr>df_more = False, df_is_command = True, df_body = hello_body [117] [112]\<rparr>),
       WriteWelcome (replicate 10 0), WriteReady (replicate 29 0),
       Feed (wire_frame \<lparr>df_more = False, df_is_command = True, df_body = drop 2 dish_ready\<rparr>)]) = c \<and>
     state c = Established"
proof -
  have "greeting_for (ascii ''PLAIN'') 1 plain_sub_greeting" "length plain_sub_greeting = 64"
    "parse_ready_radio_from \<lparr>usize_bits = 64, overflow_checks = True\<rparr> True (drop 2 dish_ready) = Ok Dish"
    "length (drop 2 dish_ready) = 26" "length (hello_body [117] [112]) = 10"
    by code_simp+
  with radio_plain_completes [of "list_radio_build 64 64 2 8" plain_sub_greeting 1 "[117]" "[112]" example_accept
      "replicate 64 0" "replicate 10 0" "replicate 29 0" "drop 2 dish_ready" Dish
      "\<lparr>df_more = False, df_is_command = True, df_body = hello_body [117] [112]\<rparr>"
      "\<lparr>df_more = False, df_is_command = True, df_body = drop 2 dish_ready\<rparr>"]
  show ?thesis
    using list_vec.heapless_contract_axioms by (auto simp: example_accept_def simp del: run.simps)
qed

end
