(* ===== verification/Transport.thy ===== *)
theory Transport
  imports Link
begin

text \<open>
  The transport under the drivers. The drivers are generic over a type that implements the traits
  \<^verbatim>\<open>Read\<close> and \<^verbatim>\<open>Write\<close> of the third-party crate \<^verbatim>\<open>embedded_io\<close>, so its operations are a parameter:
  \<^verbatim>\<open>read\<close> into a buffer (the result, the buffer afterwards, the transport afterwards), \<^verbatim>\<open>write_all\<close>,
  and \<^verbatim>\<open>kind() as usize\<close> of its error type. What the drivers rely on is the contract \<^verbatim>\<open>byte_stream\<close>.
\<close>

record ('t, 'e) transport_impl =
  t_read :: "'t \<Rightarrow> bytes \<Rightarrow> (nat, 'e) outcome \<times> bytes \<times> 't"
  t_write_all :: "'t \<Rightarrow> bytes \<Rightarrow> (unit, 'e) outcome \<times> 't"
  t_kind :: "'e \<Rightarrow> nat"

text \<open>
  The documented behaviour of a byte stream: \<^verbatim>\<open>received t\<close> is what has been read from it so far and
  \<^verbatim>\<open>sent t\<close> what it has accepted. A read fills the first bytes of the buffer it is given and takes
  them from the stream; \<^verbatim>\<open>write_all\<close> accepts all bytes or fails having accepted some of them.
\<close>

locale byte_stream =
  fixes T :: "('t, 'e) transport_impl"
    and received :: "'t \<Rightarrow> bytes"
    and sent :: "'t \<Rightarrow> bytes"
  assumes read_ok: "t_read T t buf = (Ok n, buf', t') \<Longrightarrow>
      n \<le> length buf \<and> length buf' = length buf \<and> received t' = received t @ take n buf' \<and> sent t' = sent t"
    and read_err: "t_read T t buf = (Err e, buf', t') \<Longrightarrow>
      length buf' = length buf \<and> received t' = received t \<and> sent t' = sent t"
    and write_ok: "t_write_all T t bs = (Ok (), t') \<Longrightarrow> sent t' = sent t @ bs \<and> received t' = received t"
    and write_err: "t_write_all T t bs = (Err e, t') \<Longrightarrow>
      (\<exists>k\<le>length bs. sent t' = sent t @ take k bs) \<and> received t' = received t"
    and read_not_Panic: "fst (t_read T t buf) \<noteq> Panic"
    and write_not_Panic: "fst (t_write_all T t bs) \<noteq> Panic"

section \<open>Drivers\<close>

text \<open>
  The four driver structs have the same fields: the connection, the transport, and a receive buffer
  of 512 bytes of which \<^verbatim>\<open>rx_len\<close> are in use.
\<close>

record ('c, 't) Driver =
  conn :: 'c
  transport :: 't
  rx_buf :: bytes
  rx_len :: nat

text \<open>\<^verbatim>\<open>self.transport.write_all(bs).map_err(|e| ConnError::IoError(e.kind() as usize))\<close>.\<close>

definition transmit :: "('t, 'e) transport_impl \<Rightarrow> ('c, 't) Driver \<Rightarrow> bytes \<Rightarrow>
    (unit, ConnError) outcome \<times> ('c, 't) Driver" where
  "transmit T d bs =
     (case t_write_all T (transport d) bs of
        (r, t) \<Rightarrow> (map_err (\<lambda>e. IoError (t_kind T e)) r, d\<lparr>transport := t\<rparr>))"

text \<open>
  \<^verbatim>\<open>self.transport.read(&mut self.rx_buf[self.rx_len..])\<close>: the read fills the free part of the
  buffer.
\<close>

definition receive :: "('t, 'e) transport_impl \<Rightarrow> ('c, 't) Driver \<Rightarrow> (nat, ConnError) outcome \<times> ('c, 't) Driver" where
  "receive T d =
     attempt (slice (rx_buf d) (rx_len d) (length (rx_buf d))) d (\<lambda>free.
       case t_read T (transport d) free of
         (r, free, t) \<Rightarrow>
           (map_err (\<lambda>e. IoError (t_kind T e)) r,
            d\<lparr>rx_buf := take (rx_len d) (rx_buf d) @ free, transport := t\<rparr>))"

text \<open>\<^verbatim>\<open>self.rx_buf.copy_within(total..self.rx_len, 0); self.rx_len -= total\<close>.\<close>

definition discard :: "nat \<Rightarrow> ('c, 't) Driver \<Rightarrow> (unit, ConnError) outcome \<times> ('c, 't) Driver" where
  "discard total_consumed d =
     attempt (slice (rx_buf d) total_consumed (rx_len d)) d (\<lambda>rest.
     attempt (copy_range (rx_buf d) 0 (length rest) rest) d (\<lambda>buf.
       if rx_len d < total_consumed then (Panic, d) else (Ok (), d\<lparr>rx_buf := buf, rx_len := rx_len d - total_consumed\<rparr>)))"

lemma try_then_eq:
  "try_then r k = (case r of (Ok a, s) \<Rightarrow> k a s | (Err e, s) \<Rightarrow> (Err e, s) | (Panic, s) \<Rightarrow> (Panic, s))"
  by (cases r; cases "fst r") auto

lemma transmit_fields [simp]:
  "conn (snd (transmit T d bs)) = conn d" "rx_buf (snd (transmit T d bs)) = rx_buf d"
  "rx_len (snd (transmit T d bs)) = rx_len d"
  by (simp_all add: transmit_def split_beta)

end
