(* ===== verification/Write_All.thy ===== *)
theory Write_All
  imports Transport
begin

text \<open>
  \<^verbatim>\<open>write_all\<close>, a provided method of the trait \<^verbatim>\<open>Write\<close> of the third-party crate \<^verbatim>\<open>embedded_io\<close>: the adapter and the
  transports of the tests implement only \<^verbatim>\<open>write\<close>. It is a parameter, a function of the \<^verbatim>\<open>write\<close> it is for. Its contract is
  the documentation of the method: it calls \<^verbatim>\<open>write\<close> in a loop until the whole buffer has been written, returns the first
  error, and panics if \<^verbatim>\<open>write\<close> returns \<^verbatim>\<open>Ok(0)\<close>, which the trait forbids for a buffer that is not empty.
\<close>

type_synonym ('t, 'e) write_op = "'t \<Rightarrow> bytes \<Rightarrow> (nat, 'e) outcome \<times> 't"
type_synonym ('t, 'e) write_all_op = "('t, 'e) write_op \<Rightarrow> 't \<Rightarrow> bytes \<Rightarrow> (unit, 'e) outcome \<times> 't"

locale write_all_contract =
  fixes all :: "('t, 'e) write_all_op"
  assumes all_Nil: "all w t [] = (Ok (), t)"
    and all_part: "bs \<noteq> [] \<Longrightarrow> w t bs = (Ok n, t') \<Longrightarrow> 0 < n \<Longrightarrow> n \<le> length bs \<Longrightarrow> all w t bs = all w t' (drop n bs)"
    and all_zero: "bs \<noteq> [] \<Longrightarrow> w t bs = (Ok 0, t') \<Longrightarrow> all w t bs = (Panic, t')"
    and all_err: "bs \<noteq> [] \<Longrightarrow> w t bs = (Err e, t') \<Longrightarrow> all w t bs = (Err e, t')"
begin

text \<open>One \<^verbatim>\<open>write\<close> that takes everything is enough.\<close>

lemma all_at_once: "bs \<noteq> [] \<Longrightarrow> w t bs = (Ok (length bs), t') \<Longrightarrow> all w t bs = (Ok (), t')"
  using all_part [of bs w t "length bs" t'] by (simp add: all_Nil)

end

text \<open>
  A function with this contract. The fixtures of the tests and the witnesses run on it; no \<^verbatim>\<open>write\<close> of the fixtures
  returns 0.
\<close>

function write_all_of :: "('t \<Rightarrow> bytes \<Rightarrow> (nat, 'e) outcome \<times> 't) \<Rightarrow> 't \<Rightarrow> bytes \<Rightarrow> (unit, 'e) outcome \<times> 't" where
  "write_all_of write t buf =
     (if buf = [] then (Ok (), t)
      else
        (case write t buf of
           (Ok n, t) \<Rightarrow> if n = 0 then (Panic, t) else write_all_of write t (drop n buf)
         | (Err e, t) \<Rightarrow> (Err e, t)
         | (Panic, t) \<Rightarrow> (Panic, t)))"
  by pat_completeness auto
termination
  by (relation "measure (\<lambda>(write, t, buf). length buf)") auto

declare write_all_of.simps [simp del]

interpretation write_loop: write_all_contract write_all_of
  by unfold_locales (simp_all add: write_all_of.simps)

end
