(* ===== verification/Awaited.thy ===== *)
theory Awaited
  imports Transport
begin

text \<open>
  Asynchronous code. An \<^verbatim>\<open>async fn\<close> runs from one \<^verbatim>\<open>await\<close> to the next, and its future may be
  dropped while it waits: then it does not go on, and what it has changed so far stays changed. So
  an operation that is awaited has one more outcome, \<^verbatim>\<open>Dropped\<close>. The transport is a parameter as
  before (its traits are those of the third-party crate \<^verbatim>\<open>embedded_io_async\<close>).
\<close>

datatype 'a awaited = Completed 'a | Dropped

record ('t, 'e) async_impl =
  a_read :: "'t \<Rightarrow> bytes \<Rightarrow> (nat, 'e) outcome awaited \<times> bytes \<times> 't"
  a_write_all :: "'t \<Rightarrow> bytes \<Rightarrow> (unit, 'e) outcome awaited \<times> 't"
  a_kind :: "'e \<Rightarrow> nat"

text \<open>\<^verbatim>\<open>.await?\<close>, and \<^verbatim>\<open>?\<close> on a result that is there at once.\<close>

definition await_then :: "('a, 'e) outcome awaited \<times> 's \<Rightarrow> ('a \<Rightarrow> 's \<Rightarrow> ('b, 'e) outcome awaited \<times> 's) \<Rightarrow>
    ('b, 'e) outcome awaited \<times> 's" where
  "await_then r k =
     (case r of
        (Completed (Ok a), s) \<Rightarrow> k a s
      | (Completed (Err e), s) \<Rightarrow> (Completed (Err e), s)
      | (Completed Panic, s) \<Rightarrow> (Completed Panic, s)
      | (Dropped, s) \<Rightarrow> (Dropped, s))"

definition attempt_now :: "('a, 'e) outcome \<Rightarrow> 's \<Rightarrow> ('a \<Rightarrow> ('b, 'e) outcome awaited \<times> 's) \<Rightarrow>
    ('b, 'e) outcome awaited \<times> 's" where
  "attempt_now r s k =
     (case r of Ok a \<Rightarrow> k a | Err e \<Rightarrow> (Completed (Err e), s) | Panic \<Rightarrow> (Completed Panic, s))"

fun map_awaited :: "('a \<Rightarrow> 'b) \<Rightarrow> 'a awaited \<Rightarrow> 'b awaited" where
  "map_awaited f (Completed a) = Completed (f a)"
| "map_awaited f Dropped = Dropped"

definition async_transmit :: "('t, 'e) async_impl \<Rightarrow> ('c, 't) Driver \<Rightarrow> bytes \<Rightarrow>
    (unit, ConnError) outcome awaited \<times> ('c, 't) Driver" where
  "async_transmit T d bs =
     (case a_write_all T (transport d) bs of
        (r, t) \<Rightarrow> (map_awaited (map_err (\<lambda>e. IoError (a_kind T e))) r, d\<lparr>transport := t\<rparr>))"

definition async_receive :: "('t, 'e) async_impl \<Rightarrow> ('c, 't) Driver \<Rightarrow>
    (nat, ConnError) outcome awaited \<times> ('c, 't) Driver" where
  "async_receive T d =
     attempt_now (slice (rx_buf d) (rx_len d) (length (rx_buf d))) d (\<lambda>free.
       case a_read T (transport d) free of
         (r, free, t) \<Rightarrow>
           (map_awaited (map_err (\<lambda>e. IoError (a_kind T e))) r,
            d\<lparr>rx_buf := take (rx_len d) (rx_buf d) @ free, transport := t\<rparr>))"

text \<open>A transport whose futures are never dropped, as a blocking one.\<close>

definition blocking :: "('t, 'e) async_impl \<Rightarrow> ('t, 'e) transport_impl \<Rightarrow> bool" where
  "blocking A T \<longleftrightarrow> a_kind A = t_kind T \<and>
     (\<forall>t buf. a_read A t buf = (case t_read T t buf of (r, buf, t) \<Rightarrow> (Completed r, buf, t))) \<and>
     (\<forall>t bs. a_write_all A t bs = (case t_write_all T t bs of (r, t) \<Rightarrow> (Completed r, t)))"

definition completed :: "'r \<times> 's \<Rightarrow> 'r awaited \<times> 's" where
  "completed rs = (Completed (fst rs), snd rs)"

lemma completed_simps [simp]: "completed (r, s) = (Completed r, s)"
  by (simp add: completed_def)

lemma await_then_simps [simp]:
  "await_then (Completed (Ok a), s) k = k a s" "await_then (Completed (Err e), s) k = (Completed (Err e), s)"
  "await_then (Completed Panic, s) k = (Completed Panic, s)" "await_then (Dropped, s) k = (Dropped, s)"
  by (simp_all add: await_then_def)

lemma attempt_now_simps [simp]:
  "attempt_now (Ok a) s k = k a" "attempt_now (Err e) s k = (Completed (Err e), s)"
  "attempt_now Panic s k = (Completed Panic, s)"
  by (simp_all add: attempt_now_def)

section \<open>The blocking counterpart\<close>

text \<open>
  An asynchronous computation \<^verbatim>\<open>follows\<close> a blocking one: it leaves the same state, and it either completes with
  the same result, or it is dropped where the blocking one fails. With \<open>may_drop\<close> false only
  the first is left.
\<close>

definition follows :: "bool \<Rightarrow> ('a, 'e) outcome awaited \<times> 's \<Rightarrow> ('a, 'e) outcome \<times> 's \<Rightarrow> bool" where
  "follows may_drop x y \<longleftrightarrow> snd x = snd y \<and>
     (fst x = Completed (fst y) \<or> may_drop \<and> fst x = Dropped \<and> (\<exists>e. fst y = Err e))"

lemma follows_simps [simp]:
  "follows b (Completed r, s) (q, s') \<longleftrightarrow> r = q \<and> s = s'"
  "follows b (Dropped, s) (q, s') \<longleftrightarrow> s = s' \<and> b \<and> (\<exists>e. q = Err e)"
  by (auto simp: follows_def)

lemma follows_never: "follows False x y \<longleftrightarrow> x = completed y"
  by (cases x) (auto simp: follows_def completed_def)

lemma follows_await:
  assumes "follows b x y" and "\<And>a s. y = (Ok a, s) \<Longrightarrow> follows b (k' a s) (k a s)"
  shows "follows b (await_then x k') (try_then y k)"
  using assms by (cases x; cases y; cases "fst y") (auto simp: follows_def)

lemma follows_attempt:
  assumes "\<And>a. r = Ok a \<Longrightarrow> follows b (k' a) (k a)"
  shows "follows b (attempt_now r s k') (attempt r s k)"
  using assms by (cases r) (auto simp: follows_def)

text \<open>
  A blocking transport that stands for an asynchronous one does the same and, where a future is dropped,
  fails. There is always one: \<open>None\<close> is its error for a dropped future.
\<close>

definition stands_for :: "bool \<Rightarrow> ('t, 'f) transport_impl \<Rightarrow> ('t, 'e) async_impl \<Rightarrow> bool" where
  "stands_for may_drop T A \<longleftrightarrow>
     (\<forall>t buf. follows may_drop
        (case a_read A t buf of (r, s) \<Rightarrow> (map_awaited (map_err (a_kind A)) r, s))
        (case t_read T t buf of (r, s) \<Rightarrow> (map_err (t_kind T) r, s))) \<and>
     (\<forall>t bs. follows may_drop
        (case a_write_all A t bs of (r, s) \<Rightarrow> (map_awaited (map_err (a_kind A)) r, s))
        (case t_write_all T t bs of (r, s) \<Rightarrow> (map_err (t_kind T) r, s)))"

definition failing_for_dropped :: "('t, 'e) async_impl \<Rightarrow> ('t, 'e option) transport_impl" where
  "failing_for_dropped A =
     \<lparr>t_read = (\<lambda>t buf.
        case a_read A t buf of
          (Completed r, s) \<Rightarrow> (map_err Some r, s)
        | (Dropped, s) \<Rightarrow> (Err None, s)),
      t_write_all = (\<lambda>t bs.
        case a_write_all A t bs of
          (Completed r, s) \<Rightarrow> (map_err Some r, s)
        | (Dropped, s) \<Rightarrow> (Err None, s)),
      t_kind = (\<lambda>e. case e of Some e \<Rightarrow> a_kind A e | None \<Rightarrow> 0)\<rparr>"

lemma map_err_map_err: "map_err f (map_err g r) = map_err (\<lambda>e. f (g e)) r"
  by (cases r) simp_all

lemma failing_for_dropped_stands: "stands_for True (failing_for_dropped A) A"
  by (auto simp: stands_for_def failing_for_dropped_def follows_def map_err_map_err split: prod.splits awaited.splits)

lemma blocking_stands: "blocking A T \<Longrightarrow> stands_for False T A"
  by (simp add: blocking_def stands_for_def follows_never split: prod.splits)

lemma follows_map_err:
  assumes "follows b (map_awaited (map_err f) r, s) (map_err g q, s')"
  shows "follows b (map_awaited (map_err (\<lambda>e. h (f e))) r, s) (map_err (\<lambda>e. h (g e)) q, s')"
proof (cases r)
  case (Completed x)
  with assms show ?thesis by (cases x; cases q) (auto simp: follows_def)
qed (use assms in \<open>auto simp: follows_def map_err_eq_Err\<close>)

lemma follows_frame:
  assumes "follows b (r, s) (q, s')"
  shows "follows b (r, f s) (q, f s')"
  using assms by (auto simp: follows_def)

lemma async_transmit_follows:
  assumes "stands_for b T A"
  shows "follows b (async_transmit A d bs) (transmit T d bs)"
proof -
  obtain r s q s' where eq: "a_write_all A (transport d) bs = (r, s)" "t_write_all T (transport d) bs = (q, s')"
    by fastforce
  have "follows b
      (case a_write_all A (transport d) bs of (r, s) \<Rightarrow> (map_awaited (map_err (a_kind A)) r, s))
      (case t_write_all T (transport d) bs of (r, s) \<Rightarrow> (map_err (t_kind T) r, s))"
    using assms unfolding stands_for_def by blast
  from follows_frame [OF follows_map_err [OF this [unfolded eq prod.case], of IoError], of "\<lambda>t. d\<lparr>transport := t\<rparr>"]
  show ?thesis by (simp add: async_transmit_def transmit_def eq)
qed

lemma async_receive_follows:
  assumes "stands_for b T A"
  shows "follows b (async_receive A d) (receive T d)"
  unfolding async_receive_def receive_def
proof (rule follows_attempt)
  fix free
  obtain r s q s' where eq: "a_read A (transport d) free = (r, s)" "t_read T (transport d) free = (q, s')"
    by (meson surj_pair)
  have "follows b
      (case a_read A (transport d) free of (r, s) \<Rightarrow> (map_awaited (map_err (a_kind A)) r, s))
      (case t_read T (transport d) free of (r, s) \<Rightarrow> (map_err (t_kind T) r, s))"
    using assms unfolding stands_for_def by blast
  from follows_frame [OF follows_map_err [OF this [unfolded eq prod.case], of IoError],
      of "\<lambda>(buf, t). d\<lparr>rx_buf := take (rx_len d) (rx_buf d) @ buf, transport := t\<rparr>"]
  show "follows b
      (case a_read A (transport d) free of (r, free, t) \<Rightarrow>
        (map_awaited (map_err (\<lambda>e. IoError (a_kind A e))) r, d\<lparr>rx_buf := take (rx_len d) (rx_buf d) @ free, transport := t\<rparr>))
      (case t_read T (transport d) free of (r, free, t) \<Rightarrow>
        (map_err (\<lambda>e. IoError (t_kind T e)) r, d\<lparr>rx_buf := take (rx_len d) (rx_buf d) @ free, transport := t\<rparr>))"
    by (simp add: eq split_beta)
qed

lemma async_slice_follows:
  assumes "stands_for b T A"
  shows "follows b (attempt_now r d (async_transmit A d')) (attempt r d (transmit T d'))"
  by (intro follows_attempt async_transmit_follows assms)



lemma pong_await:
  "(case x of (Completed (Ok _), d) \<Rightarrow> k d | (Completed (Err e), d) \<Rightarrow> (Completed (Err e), d)
     | (Completed Panic, d) \<Rightarrow> (Completed Panic, d) | (Dropped, d) \<Rightarrow> (Dropped, d)) = await_then x (\<lambda>_. k)"
  "(case y of (Ok _, d) \<Rightarrow> k' d | (Err e, d) \<Rightarrow> (Err e, d) | (Panic, d) \<Rightarrow> (Panic, d)) = try_then y (\<lambda>_. k')"
  by (auto simp: await_then_def try_then_eq split: prod.splits awaited.splits outcome.splits)

lemma ignored_follows:
  assumes "stands_for b T A"
  shows "follows b
    (await_then (attempt_now r d (\<lambda>bs. case async_transmit A d bs of (r, d) \<Rightarrow> (map_awaited ignore_err r, d)))
      (\<lambda>_ d. (Completed (Err e), d)))
    (try_then (attempt r d (\<lambda>bs. case transmit T d bs of (r, d) \<Rightarrow> (ignore_err r, d))) (\<lambda>_ d. (Err e, d)))"
proof (cases r)
  case (Ok bs)
  obtain x s y s' where t: "async_transmit A d bs = (x, s)" "transmit T d bs = (y, s')" by fastforce
  with async_transmit_follows [OF assms, of d bs] have "follows b (x, s) (y, s')" by simp
  with Ok t show ?thesis by (cases x; cases y) (auto simp: follows_def)
qed simp_all

lemma case_follows: "follows b (case rs of (r, s) \<Rightarrow> (Completed r, s)) rs"
  by (simp add: split_beta follows_def)

lemma async_greeting_follows:
  assumes "stands_for b T A"
  shows "follows b
     ((case and_then r f of
        Ok bs \<Rightarrow> (case a_write_all A t bs of (r, t) \<Rightarrow>
          map_awaited (\<lambda>r. and_then (map_err (\<lambda>e. IoError (a_kind A e)) r) (\<lambda>_. Ok (g t))) r)
      | Err e \<Rightarrow> Completed (Err e) | Panic \<Rightarrow> Completed Panic), ())
     (and_then r (\<lambda>n. and_then (f n) (\<lambda>bs. case t_write_all T t bs of (r, t) \<Rightarrow>
          and_then (map_err (\<lambda>e. IoError (t_kind T e)) r) (\<lambda>_. Ok (g t)))), ())"
proof -
  have greet: "follows b
      ((case a_write_all A t bs of (r, t) \<Rightarrow>
          map_awaited (\<lambda>r. and_then (map_err (\<lambda>e. IoError (a_kind A e)) r) (\<lambda>_. Ok (g t))) r), ())
      ((case t_write_all T t bs of (r, t) \<Rightarrow> and_then (map_err (\<lambda>e. IoError (t_kind T e)) r) (\<lambda>_. Ok (g t))), ())" for bs
  proof -
    obtain x s q s' where eq: "a_write_all A t bs = (x, s)" "t_write_all T t bs = (q, s')" by fastforce
    have "follows b (case a_write_all A t bs of (r, s) \<Rightarrow> (map_awaited (map_err (a_kind A)) r, s))
        (case t_write_all T t bs of (r, s) \<Rightarrow> (map_err (t_kind T) r, s))"
      using assms unfolding stands_for_def by blast
    from follows_map_err [OF this [unfolded eq prod.case], of IoError] eq show ?thesis
      by (cases x; cases q) (auto simp: follows_def)
  qed
  show ?thesis by (cases r) (auto simp: greet split: outcome.splits)
qed

end
