(* ===== verification/Mock_Transport.thy ===== *)
theory Mock_Transport
  imports Awaited Write_All
begin

text \<open>
  The transports that the repository's driver tests use (\<^verbatim>\<open>src/test_helpers.rs\<close>): concrete
  transports for the properties of the drivers. Their error type \<^verbatim>\<open>ErrorKind\<close> is third-party code and
  stays a parameter, as does the constant \<^verbatim>\<open>BrokenPipe\<close> of it. They implement \<^verbatim>\<open>write\<close>; their \<^verbatim>\<open>write_all\<close> is the
  provided method of the trait, for which the instance of its contract stands (theory Write_All).
\<close>

section \<open>MockTransport\<close>

record MockTransport =
  peer_bytes :: bytes
  peer_pos :: nat
  our_bytes :: bytes

definition new_mock :: "bytes \<Rightarrow> MockTransport" where
  "new_mock bs = \<lparr>peer_bytes = bs, peer_pos = 0, our_bytes = []\<rparr>"

definition mock_read :: "MockTransport \<Rightarrow> bytes \<Rightarrow> (nat, 'k) outcome \<times> bytes \<times> MockTransport" where
  "mock_read t buf =
     (if length (peer_bytes t) \<le> peer_pos t then (Ok 0, buf, t)
      else
        let to_copy = min (length buf) (length (peer_bytes t) - peer_pos t) in
        attempt (and_then (slice (peer_bytes t) (peer_pos t) (peer_pos t + to_copy)) (copy_range buf 0 to_copy))
          (buf, t) (\<lambda>buf. (Ok to_copy, buf, t\<lparr>peer_pos := peer_pos t + to_copy\<rparr>)))"

definition mock_write :: "MockTransport \<Rightarrow> bytes \<Rightarrow> (nat, 'k) outcome \<times> MockTransport" where
  "mock_write t buf = (Ok (length buf), t\<lparr>our_bytes := our_bytes t @ buf\<rparr>)"

definition mock_impl :: "('k \<Rightarrow> nat) \<Rightarrow> (MockTransport, 'k) transport_impl" where
  "mock_impl kind = \<lparr>t_read = mock_read, t_write_all = write_all_of mock_write, t_kind = kind\<rparr>"

lemma mock_read_eq:
  "mock_read t buf =
     (let bs = take (length buf) (drop (peer_pos t) (peer_bytes t)) in
      (Ok (length bs), bs @ drop (length bs) buf,
       if length (peer_bytes t) \<le> peer_pos t then t else t\<lparr>peer_pos := peer_pos t + length bs\<rparr>))"
  by (simp add: mock_read_def Let_def written_def min_def not_le)

lemma write_all_mock: "write_all_of mock_write t buf = (Ok (), t\<lparr>our_bytes := our_bytes t @ buf\<rparr>)"
  by (subst write_all_of.simps) (simp add: mock_write_def write_all_of.simps [of _ _ "[]"])

interpretation mock: byte_stream "mock_impl kind" "\<lambda>t. take (peer_pos t) (peer_bytes t)" our_bytes for kind
  by unfold_locales
    (auto simp: mock_impl_def mock_read_eq write_all_mock Let_def min_def take_add split: if_splits)

section \<open>ChunkedReadTransport\<close>

record ChunkedReadTransport =
  c_peer_bytes :: bytes
  c_peer_pos :: nat

definition new_chunked :: "bytes \<Rightarrow> ChunkedReadTransport" where
  "new_chunked bs = \<lparr>c_peer_bytes = bs, c_peer_pos = 0\<rparr>"

definition chunked_read :: "ChunkedReadTransport \<Rightarrow> bytes \<Rightarrow> (nat, 'k) outcome \<times> bytes \<times> ChunkedReadTransport" where
  "chunked_read t buf =
     (if length (c_peer_bytes t) \<le> c_peer_pos t then (Ok 0, buf, t)
      else if buf = [] then (Ok 0, buf, t)
      else (Ok 1, buf[0 := c_peer_bytes t ! c_peer_pos t], t\<lparr>c_peer_pos := c_peer_pos t + 1\<rparr>))"

definition chunked_write :: "ChunkedReadTransport \<Rightarrow> bytes \<Rightarrow> (nat, 'k) outcome \<times> ChunkedReadTransport" where
  "chunked_write t buf = (Ok (length buf), t)"

definition chunked_impl :: "('k \<Rightarrow> nat) \<Rightarrow> (ChunkedReadTransport, 'k) transport_impl" where
  "chunked_impl kind = \<lparr>t_read = chunked_read, t_write_all = write_all_of chunked_write, t_kind = kind\<rparr>"

section \<open>WriteFailTransport\<close>

record WriteFailTransport =
  w_peer_bytes :: bytes
  w_peer_pos :: nat
  w_our_bytes :: bytes
  write_count :: nat
  fail_after :: nat

definition new_write_fail :: "bytes \<Rightarrow> nat \<Rightarrow> WriteFailTransport" where
  "new_write_fail bs n =
     \<lparr>w_peer_bytes = bs, w_peer_pos = 0, w_our_bytes = [], write_count = 0, fail_after = n\<rparr>"

definition write_fail_read :: "WriteFailTransport \<Rightarrow> bytes \<Rightarrow> (nat, 'k) outcome \<times> bytes \<times> WriteFailTransport" where
  "write_fail_read t buf =
     (if length (w_peer_bytes t) \<le> w_peer_pos t then (Ok 0, buf, t)
      else
        let to_copy = min (length buf) (length (w_peer_bytes t) - w_peer_pos t) in
        attempt (and_then (slice (w_peer_bytes t) (w_peer_pos t) (w_peer_pos t + to_copy)) (copy_range buf 0 to_copy))
          (buf, t) (\<lambda>buf. (Ok to_copy, buf, t\<lparr>w_peer_pos := w_peer_pos t + to_copy\<rparr>)))"

definition write_fail_write :: "'k \<Rightarrow> WriteFailTransport \<Rightarrow> bytes \<Rightarrow> (nat, 'k) outcome \<times> WriteFailTransport" where
  "write_fail_write broken_pipe t buf =
     (let t = t\<lparr>write_count := write_count t + 1\<rparr> in
      if fail_after t < write_count t then (Err broken_pipe, t)
      else (Ok (length buf), t\<lparr>w_our_bytes := w_our_bytes t @ buf\<rparr>))"

definition write_fail_impl :: "'k \<Rightarrow> ('k \<Rightarrow> nat) \<Rightarrow> (WriteFailTransport, 'k) transport_impl" where
  "write_fail_impl broken_pipe kind =
     \<lparr>t_read = write_fail_read, t_write_all = write_all_of (write_fail_write broken_pipe), t_kind = kind\<rparr>"

section \<open>The asynchronous MockTransport\<close>

text \<open>
  The module \<^verbatim>\<open>async_mock\<close> has a struct of its own with the same fields. Its futures are ready at
  once; a caller may still drop them before they are polled.
\<close>

type_synonym AsyncMockTransport = MockTransport

definition async_new_mock :: "bytes \<Rightarrow> AsyncMockTransport" where
  "async_new_mock bs = \<lparr>peer_bytes = bs, peer_pos = 0, our_bytes = []\<rparr>"

definition async_mock_read :: "AsyncMockTransport \<Rightarrow> bytes \<Rightarrow> (nat, 'k) outcome awaited \<times> bytes \<times> AsyncMockTransport" where
  "async_mock_read t buf =
     (if length (peer_bytes t) \<le> peer_pos t then (Completed (Ok 0), buf, t)
      else
        let to_copy = min (length buf) (length (peer_bytes t) - peer_pos t) in
        attempt_now (and_then (slice (peer_bytes t) (peer_pos t) (peer_pos t + to_copy)) (copy_range buf 0 to_copy))
          (buf, t) (\<lambda>buf. (Completed (Ok to_copy), buf, t\<lparr>peer_pos := peer_pos t + to_copy\<rparr>)))"

definition async_mock_write :: "AsyncMockTransport \<Rightarrow> bytes \<Rightarrow> (nat, 'k) outcome awaited \<times> AsyncMockTransport" where
  "async_mock_write t buf = (Completed (Ok (length buf)), t\<lparr>our_bytes := our_bytes t @ buf\<rparr>)"

text \<open>The same instance over a \<^verbatim>\<open>write\<close> that is awaited.\<close>

function async_write_all_of :: "('t \<Rightarrow> bytes \<Rightarrow> (nat, 'e) outcome awaited \<times> 't) \<Rightarrow> 't \<Rightarrow> bytes \<Rightarrow>
    (unit, 'e) outcome awaited \<times> 't" where
  "async_write_all_of write t buf =
     (if buf = [] then (Completed (Ok ()), t)
      else
        (case write t buf of
           (Completed (Ok n), t) \<Rightarrow> if n = 0 then (Completed Panic, t) else async_write_all_of write t (drop n buf)
         | (Completed (Err e), t) \<Rightarrow> (Completed (Err e), t)
         | (Completed Panic, t) \<Rightarrow> (Completed Panic, t)
         | (Dropped, t) \<Rightarrow> (Dropped, t)))"
  by pat_completeness auto
termination
  by (relation "measure (\<lambda>(write, t, buf). length buf)") auto

declare async_write_all_of.simps [simp del]

definition async_mock_impl :: "('k \<Rightarrow> nat) \<Rightarrow> (AsyncMockTransport, 'k) async_impl" where
  "async_mock_impl kind =
     \<lparr>a_read = async_mock_read, a_write_all = async_write_all_of async_mock_write, a_kind = kind\<rparr>"

lemma async_write_all_mock:
  "async_write_all_of async_mock_write t buf = (Completed (Ok ()), t\<lparr>our_bytes := our_bytes t @ buf\<rparr>)"
  by (subst async_write_all_of.simps) (simp add: async_mock_write_def async_write_all_of.simps [of _ _ "[]"])

lemma async_mock_blocking: "blocking (async_mock_impl kind) (mock_impl kind)"
  by (auto simp: blocking_def async_mock_impl_def mock_impl_def async_write_all_mock write_all_mock
      async_mock_read_def mock_read_def Let_def not_le)

end
