(* ===== verification/Drive.thy ===== *)
theory Drive
  imports Transport Client_Handshake Connection_Messages
begin

text \<open>
  What the drivers do, over the calls of a connection: the same loop for both connection types.
  The interface \<^verbatim>\<open>driver_client\<close> puts a connection type and a transport together, and the lemmas
  follow a driver through its polls and publishes: the bytes received are those the connection has
  consumed followed by those in the buffer, and the bytes sent are the handshake commands and
  complete frames.
\<close>

section \<open>A driver over the calls of a connection\<close>

definition gen_send :: "('c link_scheme \<Rightarrow> call \<Rightarrow> reply \<times> 'c link_scheme) \<Rightarrow> ('t, 'e) transport_impl \<Rightarrow> call \<Rightarrow>
    ('c link_scheme, 't) Driver \<Rightarrow> (unit, ConnError) outcome \<times> ('c link_scheme, 't) Driver" where
  "gen_send ex T a d =
     (case ex (conn d) a of ((r, out), c) \<Rightarrow>
        try_then (r, d\<lparr>conn := c\<rparr>) (\<lambda>n d. attempt (slice out 0 n) d (transmit T d)))"

abbreviation "gen_ready ex T \<equiv> gen_send ex T (WriteReady (replicate 32 0))"
abbreviation "gen_welcome ex T \<equiv> gen_send ex T (WriteWelcome (replicate 10 0))"

definition gen_pong :: "('c link_scheme \<Rightarrow> call \<Rightarrow> reply \<times> 'c link_scheme) \<Rightarrow> ('t, 'e) transport_impl \<Rightarrow>
    ('c link_scheme, 't) Driver \<Rightarrow> (unit, ConnError) outcome \<times> ('c link_scheme, 't) Driver" where
  "gen_pong ex T d =
     (if pending_pong (conn d) = None then (Ok (), d) else gen_send ex T (WritePong (replicate 23 0)) d)"

definition gen_error :: "('c link_scheme \<Rightarrow> call \<Rightarrow> reply \<times> 'c link_scheme) \<Rightarrow> ('t, 'e) transport_impl \<Rightarrow>
    ('c link_scheme, 't) Driver \<Rightarrow> (unit, ConnError) outcome \<times> ('c link_scheme, 't) Driver" where
  "gen_error ex T d =
     (if state (conn d) = Failed then
        (case ex (conn d) (WriteError (replicate 32 0)) of
           ((Ok n, buf), _) \<Rightarrow> attempt (slice buf 0 n) d (\<lambda>bs. case transmit T d bs of (r, d) \<Rightarrow> (ignore_err r, d))
         | ((Err _, _), _) \<Rightarrow> (Ok (), d)
         | ((Panic, _), _) \<Rightarrow> (Panic, d))
      else (Ok (), d))"

lemma gen_send_fields [simp]:
  "rx_buf (snd (gen_send ex T a d)) = rx_buf d" "rx_len (snd (gen_send ex T a d)) = rx_len d"
  by (auto simp: gen_send_def attempt_def try_then_eq split: outcome_splits)

lemma gen_pong_fields [simp]:
  "rx_buf (snd (gen_pong ex T d)) = rx_buf d" "rx_len (snd (gen_pong ex T d)) = rx_len d"
  by (simp_all add: gen_pong_def)

text \<open>The constructor: the greeting goes out before there is a driver.\<close>

definition gen_new :: "('c link_scheme \<Rightarrow> call \<Rightarrow> reply \<times> 'c link_scheme) \<Rightarrow> ('t, 'e) transport_impl \<Rightarrow>
    'c link_scheme \<Rightarrow> 't \<Rightarrow> (('c link_scheme, 't) Driver, ConnError) outcome" where
  "gen_new ex T c t =
     (case ex c (WriteGreeting (replicate 64 0)) of ((r, greeting), c) \<Rightarrow>
        and_then r (\<lambda>n.
        and_then (slice greeting 0 n) (\<lambda>bs.
          case t_write_all T t bs of (r, t) \<Rightarrow>
            and_then (map_err (\<lambda>e. IoError (t_kind T e)) r) (\<lambda>_.
              Ok \<lparr>conn = c, transport = t, rx_buf = replicate 512 0, rx_len = 0\<rparr>))))"

function gen_loop :: "('c link_scheme \<Rightarrow> call \<Rightarrow> reply \<times> 'c link_scheme) \<Rightarrow> ('t, 'e) transport_impl \<Rightarrow> nat \<Rightarrow>
    ('c link_scheme, 't) Driver \<Rightarrow> (nat, ConnError) outcome \<times> ('c link_scheme, 't) Driver" where
  "gen_loop ex T tot d =
     (if tot < rx_len d then
        let prev_state = state (conn d) in
        attempt (slice (rx_buf d) tot (rx_len d)) d (\<lambda>input.
          case ex (conn d) (Feed input) of
            ((Ok n, _), c) \<Rightarrow>
              let d = d\<lparr>conn := c\<rparr>;
                  tot = tot + n in
              if prev_state = Greeting \<and> state c = Ready then
                try_then (gen_ready ex T d) (\<lambda>_ d. (Ok tot, d))
              else if prev_state = PlainHello \<and> state c = PlainReady then
                try_then (gen_welcome ex T d) (\<lambda>_ d. try_then (gen_ready ex T d) (\<lambda>_ d. (Ok tot, d)))
              else
                (case gen_pong ex T d of
                   (Ok _, d) \<Rightarrow> if n = 0 then (Ok tot, d) else gen_loop ex T tot d
                 | (Err e, d) \<Rightarrow> (Err e, d)
                 | (Panic, d) \<Rightarrow> (Panic, d))
          | ((Err e, _), c) \<Rightarrow> try_then (gen_error ex T (d\<lparr>conn := c\<rparr>)) (\<lambda>_ d. (Err e, d))
          | ((Panic, _), c) \<Rightarrow> (Panic, d\<lparr>conn := c\<rparr>))
      else (Ok tot, d))"
  by pat_completeness auto
termination
proof (relation "measure (\<lambda>(ex, T, tot, d). rx_len d - tot)", goal_cases)
  case (2 ex T tot d)
  then show ?case by (auto dest!: arg_cong [of _ _ "\<lambda>r. rx_len (snd r)"])
qed simp

declare gen_loop.simps [simp del]

definition gen_drain :: "('c link_scheme \<Rightarrow> call \<Rightarrow> reply \<times> 'c link_scheme) \<Rightarrow> ('t, 'e) transport_impl \<Rightarrow>
    ('c link_scheme, 't) Driver \<Rightarrow> (unit, ConnError) outcome \<times> ('c link_scheme, 't) Driver" where
  "gen_drain ex T d =
     try_then (gen_loop ex T 0 d) (\<lambda>tot d. if 0 < tot then discard tot d else (Ok (), d))"

definition gen_read :: "('c link_scheme \<Rightarrow> call \<Rightarrow> reply \<times> 'c link_scheme) \<Rightarrow> ('t, 'e) transport_impl \<Rightarrow>
    ('c link_scheme, 't) Driver \<Rightarrow> (bool, ConnError) outcome \<times> ('c link_scheme, 't) Driver" where
  "gen_read ex T d =
     try_then (receive T d) (\<lambda>n d.
       if n = 0 then (Err (IoError 0), d)
       else
         try_then (gen_drain ex T (d\<lparr>rx_len := rx_len d + n\<rparr>)) (\<lambda>_ d.
           (Ok (state (conn d) = Established), d)))"

definition gen_poll :: "('c link_scheme \<Rightarrow> call \<Rightarrow> reply \<times> 'c link_scheme) \<Rightarrow> ('t, 'e) transport_impl \<Rightarrow>
    ('c link_scheme, 't) Driver \<Rightarrow> (bool, ConnError) outcome \<times> ('c link_scheme, 't) Driver" where
  "gen_poll ex T d =
     (let drain = (\<lambda>d.
        if 0 < rx_len d then
          try_then (gen_drain ex T d) (\<lambda>_ d'.
            if rx_len d' < rx_len d then (Ok (state (conn d') = Established), d') else gen_read ex T d')
        else gen_read ex T d) in
      if state (conn d) = Ready then
        (case ex (conn d) (WriteReady (replicate 32 0)) of
           ((Ok n, ready), c) \<Rightarrow>
             try_then (attempt (slice ready 0 n) (d\<lparr>conn := c\<rparr>) (transmit T (d\<lparr>conn := c\<rparr>))) (\<lambda>_ d. (Ok False, d))
         | ((Err WrongState, _), c) \<Rightarrow> drain (d\<lparr>conn := c\<rparr>)
         | ((Err e, _), c) \<Rightarrow> (Err e, d\<lparr>conn := c\<rparr>)
         | ((Panic, _), c) \<Rightarrow> (Panic, d\<lparr>conn := c\<rparr>))
      else drain d)"

text \<open>The variant that returns once the buffer has been drained, whether anything was consumed or not.\<close>

definition gen_poll_once :: "('c link_scheme \<Rightarrow> call \<Rightarrow> reply \<times> 'c link_scheme) \<Rightarrow> ('t, 'e) transport_impl \<Rightarrow>
    ('c link_scheme, 't) Driver \<Rightarrow> (bool, ConnError) outcome \<times> ('c link_scheme, 't) Driver" where
  "gen_poll_once ex T d =
     (let drain = (\<lambda>d.
        if 0 < rx_len d then try_then (gen_drain ex T d) (\<lambda>_ d. (Ok (state (conn d) = Established), d))
        else gen_read ex T d) in
      if state (conn d) = Ready then
        (case ex (conn d) (WriteReady (replicate 32 0)) of
           ((Ok n, ready), c) \<Rightarrow>
             try_then (attempt (slice ready 0 n) (d\<lparr>conn := c\<rparr>) (transmit T (d\<lparr>conn := c\<rparr>))) (\<lambda>_ d. (Ok False, d))
         | ((Err WrongState, _), c) \<Rightarrow> drain (d\<lparr>conn := c\<rparr>)
         | ((Err e, _), c) \<Rightarrow> (Err e, d\<lparr>conn := c\<rparr>)
         | ((Panic, _), c) \<Rightarrow> (Panic, d\<lparr>conn := c\<rparr>))
      else drain d)"

text \<open>Publishing with the headers that the connection gives.\<close>

definition gen_publish :: "(PublishHeaders option, ConnError) outcome \<Rightarrow> ('t, 'e) transport_impl \<Rightarrow>
    ('c, 't) Driver \<Rightarrow> bytes \<Rightarrow> bytes \<Rightarrow> (nat, ConnError) outcome \<times> ('c, 't) Driver" where
  "gen_publish hdrs T d topic payload =
     attempt hdrs d (\<lambda>headers.
       case headers of
         None \<Rightarrow> (Ok 0, d)
       | Some (th, th_n, ph, ph_n) \<Rightarrow>
           try_then (attempt (slice th 0 th_n) d (transmit T d)) (\<lambda>_ d.
           try_then (transmit T d topic) (\<lambda>_ d.
           try_then (attempt (slice ph 0 ph_n) d (transmit T d)) (\<lambda>_ d.
           try_then (transmit T d payload) (\<lambda>_ d.
             (Ok (th_n + length topic + ph_n + length payload), d))))))"

section \<open>Operations and runs of a driver\<close>

datatype driver_op = Poll | Publish bytes bytes

definition gen_step :: "(('c, 't) Driver \<Rightarrow> (bool, ConnError) outcome \<times> ('c, 't) Driver) \<Rightarrow>
    (('c, 't) Driver \<Rightarrow> bytes \<Rightarrow> bytes \<Rightarrow> (nat, ConnError) outcome \<times> ('c, 't) Driver) \<Rightarrow>
    ('c, 't) Driver \<Rightarrow> driver_op \<Rightarrow> (nat, ConnError) outcome \<times> ('c, 't) Driver" where
  "gen_step pl pb d a =
     (case a of
        Poll \<Rightarrow> try_then (pl d) (\<lambda>b d. (Ok (of_bool b), d))
      | Publish topic payload \<Rightarrow> pb d topic payload)"

text \<open>The runs in which every operation succeeded.\<close>

definition all_ok :: "('a, 'e) outcome list \<Rightarrow> bool" where
  "all_ok rs \<longleftrightarrow> list_all (\<lambda>r. case r of Ok _ \<Rightarrow> True | _ \<Rightarrow> False) rs"

lemma all_ok_simps [simp]: "all_ok []" "all_ok (r # rs) \<longleftrightarrow> (\<exists>a. r = Ok a) \<and> all_ok rs"
  by (auto simp: all_ok_def split: outcome.splits)

section \<open>What a driver makes of its connection\<close>

text \<open>The drivers change the connection only through its calls: what those preserve, the drivers preserve.\<close>

lemma gen_send_conn [simp]: "conn (snd (gen_send ex T a d)) = snd (ex (conn d) a)"
  by (auto simp: gen_send_def attempt_def try_then_eq split: outcome_splits)

lemma gen_error_conn [simp]: "conn (snd (gen_error ex T d)) = conn d"
  by (auto simp: gen_error_def attempt_def split_beta split: outcome.splits)

lemma gen_publish_conn [simp]: "conn (snd (gen_publish hdrs T d topic payload)) = conn d"
proof -
  have seq: "conn (snd (try_then r k)) = c" if "conn (snd r) = c" "\<And>a d. conn d = c \<Longrightarrow> conn (snd (k a d)) = c"
    for r :: "(unit, ConnError) outcome \<times> ('a, 'b) Driver" and k c
    using that by (cases r; cases "fst r") auto
  have cut: "conn (snd (attempt r d (transmit T d))) = conn d" for r :: "(bytes, ConnError) outcome" and d
    by (cases r) simp_all
  show ?thesis
    by (auto simp: gen_publish_def attempt_def intro!: seq cut split: outcome.splits option.splits)
qed

lemma discard_conn [simp]: "conn (snd (discard n d)) = conn d"
  by (auto simp: discard_def attempt_def split: outcome.splits)

lemma receive_conn [simp]: "conn (snd (receive T d)) = conn d"
  by (auto simp: receive_def attempt_def split: outcome.splits prod.splits)

locale closed_under_calls =
  fixes ex :: "'c link_scheme \<Rightarrow> call \<Rightarrow> reply \<times> 'c link_scheme"
    and kept :: "'c link_scheme \<Rightarrow> bool"
  assumes call_keeps: "kept c \<Longrightarrow> kept (snd (ex c a))"
begin

lemma then_keeps:
  assumes "kept (conn (snd r))" and "\<And>a d. r = (Ok a, d) \<Longrightarrow> kept (conn d) \<Longrightarrow> kept (conn (snd (k a d)))"
  shows "kept (conn (snd (try_then r k)))"
  using assms by (cases r; cases "fst r") auto

lemma send_keeps: "kept (conn d) \<Longrightarrow> kept (conn (snd (gen_send ex T a d)))"
  by (simp add: call_keeps)

lemma pong_keeps: "kept (conn d) \<Longrightarrow> kept (conn (snd (gen_pong ex T d)))"
  by (simp add: gen_pong_def call_keeps)

lemma call_case: "kept c \<Longrightarrow> ex c a = (r, c') \<Longrightarrow> kept c'"
  using call_keeps [of c a] by simp

lemma loop_keeps: "kept (conn d) \<Longrightarrow> kept (conn (snd (gen_loop ex T k d)))"
proof (induction "rx_len d - k" arbitrary: k d rule: less_induct)
  case less
  show ?case
  proof (cases "k < rx_len d \<and> rx_len d \<le> length (rx_buf d)")
    case False
    with less.prems show ?thesis
      by (cases "k < rx_len d") (simp_all add: gen_loop.simps [of ex T k d] slice_def)
  next
    case True
    obtain r out c where f: "ex (conn d) (Feed (take (rx_len d - k) (drop k (rx_buf d)))) = ((r, out), c)"
      by (metis prod.exhaust)
    note c = call_case [OF less.prems f]
    have rec: "kept (conn (snd (gen_loop ex T (k + n) d')))"
      if "gen_pong ex T (d\<lparr>conn := c\<rparr>) = (u, d')" "n \<noteq> 0" for n d' u
    proof -
      have "rx_len d' = rx_len d" using arg_cong [OF that(1), of "\<lambda>r. rx_len (snd r)"] by simp
      moreover have "kept (conn d')" using pong_keeps [of "d\<lparr>conn := c\<rparr>" T] c that(1) by simp
      ultimately show ?thesis using that(2) True by (intro less) linarith+
    qed
    show ?thesis
    proof (cases r)
      case (Ok n)
      with True f rec c show ?thesis
        by (auto simp: gen_loop.simps [of ex T k d] Let_def try_then_eq [symmetric]
            intro!: then_keeps send_keeps pong_keeps)
    qed (use True f c in \<open>auto simp: gen_loop.simps [of ex T k d] Let_def intro!: then_keeps\<close>)
  qed
qed

lemma drain_keeps: "kept (conn d) \<Longrightarrow> kept (conn (snd (gen_drain ex T d)))"
  by (auto simp: gen_drain_def intro!: then_keeps loop_keeps)

lemma read_keeps: "kept (conn d) \<Longrightarrow> kept (conn (snd (gen_read ex T d)))"
  by (auto simp: gen_read_def intro!: then_keeps drain_keeps)

lemma transmit_keeps: "kept (conn d) \<Longrightarrow> kept (conn (snd (attempt r d (transmit T d))))"
  by (cases r) simp_all

lemma poll_keeps: "kept (conn d) \<Longrightarrow> kept (conn (snd (gen_poll ex T d)))"
  by (auto simp: gen_poll_def Let_def intro!: then_keeps drain_keeps read_keeps transmit_keeps dest: call_case
      split: prod.splits outcome.splits ConnError.splits)

lemma poll_once_keeps: "kept (conn d) \<Longrightarrow> kept (conn (snd (gen_poll_once ex T d)))"
  by (auto simp: gen_poll_once_def Let_def intro!: then_keeps drain_keeps read_keeps transmit_keeps dest: call_case
      split: prod.splits outcome.splits ConnError.splits)

end

end
