(* ===== verification/Drive_Client.thy ===== *)
theory Drive_Client
  imports Drive
begin

text \<open>
  A connection type on a transport: what one step of the connection does to a live driver, and the
  invariants of drivers.
\<close>

section \<open>Live connections\<close>

text \<open>
  The states in which a driver leaves its connection as long as nothing fails: the greeting has been
  sent, and READY (and WELCOME before it) as soon as the handshake asked for them.
\<close>

definition live :: "'c link_scheme \<Rightarrow> bool" where
  "live c \<longleftrightarrow> our_greeting_sent c \<and>
     (case state c of
        Greeting \<Rightarrow> greeting_pos c < 64 \<and> \<not> our_welcome_sent c \<and> \<not> our_ready_sent c
      | PlainHello \<Rightarrow> mechanism c = Plain \<and> \<not> our_welcome_sent c \<and> \<not> our_ready_sent c
      | Ready \<Rightarrow> mechanism c = Null \<and> our_ready_sent c \<and> \<not> our_welcome_sent c
      | PlainReady \<Rightarrow> mechanism c = Plain \<and> our_ready_sent c \<and> our_welcome_sent c
      | Established \<Rightarrow> our_ready_sent c \<and> our_welcome_sent c = (mechanism c = Plain)
      | Failed \<Rightarrow> False) \<and>
     (state c \<noteq> Established \<longrightarrow> pending_pong c = None)"

text \<open>What a successful step of a live connection can change.\<close>

definition live_step :: "'c link_scheme \<Rightarrow> 'c link_scheme \<Rightarrow> bool" where
  "live_step c c' \<longleftrightarrow> our_greeting_sent c' \<and> our_welcome_sent c' = our_welcome_sent c \<and>
     our_ready_sent c' = our_ready_sent c \<and> mechanism c' = mechanism c \<and>
     (state c' = Greeting \<longrightarrow> greeting_pos c' < 64) \<and> (state c' \<noteq> Established \<longrightarrow> pending_pong c' = None) \<and>
     (state c' = state c \<or>
      state c = Greeting \<and> state c' = (case mechanism c of Null \<Rightarrow> Ready | Plain \<Rightarrow> PlainHello) \<or>
      state c = PlainHello \<and> state c' = PlainReady \<or>
      state c \<in> {Ready, PlainReady} \<and> state c' = Established)"

lemma feed_greeting_live:
  assumes "link_inv CAP accept c" "live c" "state c = Greeting" "feed_greeting c input = (Ok n, c')" "input \<noteq> []"
  shows "0 < n \<and> n \<le> length input \<and> live_step c c'"
  using assms(2-) unfolding feed_greeting_eq [OF assms(1)]
  by (auto simp: live_def live_step_def Let_def attempt_def split: outcome.splits if_splits Mechanism.splits)

lemma decoder_progress:
  assumes "fd_inv CAP d" and "Frame.feed T CAP d input = (Ok (n, f), d')" and "input \<noteq> []"
  shows "0 < n \<and> n \<le> length input"
proof -
  have "feed_post CAP input 0 (Ok (n, f), d')"
    using feed_loop_post [OF assms(1), of 0 input T] assms(2) by (simp add: Frame.feed_def)
  with assms(3) show ?thesis by (cases f) auto
qed

lemma ready_inner_live:
  assumes "link_inv (FRAME_CAP P) accept c" "live c" "state c \<in> {Ready, PlainReady}"
    and "ready_inner P ready c input = (Ok n, c')" "input \<noteq> []"
  shows "0 < n \<and> n \<le> length input \<and> live_step c c'"
proof -
  obtain r d where d: "Frame.feed (target_of P) (FRAME_CAP P) (frame_decoder c) input = (r, d)" by fastforce
  have "fd_inv (FRAME_CAP P) (frame_decoder c)" using assms(1) by (simp add: link_inv_def)
  with decoder_progress d assms(5) have "r = Ok (n, f) \<Longrightarrow> 0 < n \<and> n \<le> length input" for f by blast
  with assms(2-4) d show ?thesis
    by (auto simp: ready_inner_def live_def live_step_def Let_def attempt_def map_err_eq_Ok
        split: outcome.splits option.splits if_splits)
qed

lemma feed_plain_hello_live:
  assumes "link_inv (FRAME_CAP P) accept c" "live c" "state c = PlainHello"
    and "feed_plain_hello P c input = (Ok n, c')" "input \<noteq> []"
  shows "0 < n \<and> n \<le> length input \<and> live_step c c'"
proof -
  obtain r d where d: "Frame.feed (target_of P) (FRAME_CAP P) (frame_decoder c) input = (r, d)" by fastforce
  have "fd_inv (FRAME_CAP P) (frame_decoder c)" using assms(1) by (simp add: link_inv_def)
  with decoder_progress d assms(5) have "r = Ok (n, f) \<Longrightarrow> 0 < n \<and> n \<le> length input" for f by blast
  with assms(2-4) d show ?thesis
    by (auto simp: feed_plain_hello_def live_def live_step_def Let_def attempt_def map_err_eq_Ok
        split: outcome.splits option.splits if_splits)
qed

context client begin

lemma established_live:
  assumes "inv accept c" "live c" "state c = Established"
    and "established P handler c input = (Ok n, c')" "input \<noteq> []"
  shows "0 < n \<and> n \<le> length input \<and> live_step c c'"
proof -
  have fd: "fd_inv (FRAME_CAP P) (frame_decoder c)" using assms(1) by (simp add: client_inv_def link_inv_def)
  show ?thesis
    using assms(1)
  proof (cases rule: established_cases [where input = input])
    case (wait d)
    with assms show ?thesis by (auto simp: live_def live_step_def)
  next
    case (frame k f d p t)
    with assms decoder_progress [OF fd frame(1) assms(5)] show ?thesis by (auto simp: live_def live_step_def)
  qed (use assms in auto)
qed

lemma feed_live:
  assumes "inv accept c" "live c" "feed c input = (Ok n, c')" "input \<noteq> []"
  shows "0 < n \<and> n \<le> length input \<and> live_step c c'"
proof -
  have link: "link_inv (FRAME_CAP P) accept c" using assms(1) by (simp add: client_inv_def)
  show ?thesis
    using assms feed_greeting_live [OF link, of input n c'] ready_inner_live [OF link, of ready input n c']
      feed_plain_hello_live [OF link, of input n c'] established_live [OF assms(1), of input n c']
    by (cases "state c") (simp_all add: feed_eq client_feed_def split: if_splits)
qed

end
lemma try_then_eq_Ok: "try_then r k = (Ok b, s') \<longleftrightarrow> (\<exists>a s. r = (Ok a, s) \<and> k a s = (Ok b, s'))"
  by (cases r; cases "fst r") auto

section \<open>What a driver has said\<close>

datatype sending = SentPong bytes | SentMessage bytes bytes

fun wire_sending :: "sending \<Rightarrow> bytes" where
  "wire_sending (SentPong ctx) = wire_frame (pong_frame ctx)"
| "wire_sending (SentMessage topic payload) = wire_message topic payload"

fun is_pong :: "sending \<Rightarrow> bool" where
  "is_pong (SentPong ctx) \<longleftrightarrow> length ctx \<le> 16"
| "is_pong (SentMessage _ _) \<longleftrightarrow> False"

definition handshake_said :: "bytes \<Rightarrow> 'c link_scheme \<Rightarrow> bytes" where
  "handshake_said ready_frame c = our_greeting (mechanism c) @ (if our_welcome_sent c then WELCOME_FRAME else []) @
     (if our_ready_sent c then ready_frame else [])"

definition said :: "bytes \<Rightarrow> 'c link_scheme \<Rightarrow> sending list \<Rightarrow> bytes \<Rightarrow> bool" where
  "said ready_frame c us bs \<longleftrightarrow> bs = handshake_said ready_frame c @ concat (map wire_sending us) \<and>
     (us \<noteq> [] \<longrightarrow> state c = Established)"

text \<open>The bytes of the buffer that the loop has not fed yet.\<close>

definition rest :: "nat \<Rightarrow> ('c, 't) Driver \<Rightarrow> bytes" where
  "rest k d = take (rx_len d - k) (drop k (rx_buf d))"

lemma rest_updates [simp]:
  "rest k (d\<lparr>conn := c\<rparr>) = rest k d" "rest k (d\<lparr>transport := t\<rparr>) = rest k d"
  by (simp_all add: rest_def)

lemma length_rest: "length (rx_buf d) = 512 \<Longrightarrow> rx_len d \<le> 512 \<Longrightarrow> length (rest k d) = rx_len d - k"
  by (simp add: rest_def)

lemma drop_rest: "drop n (rest k d) = rest (k + n) d"
  by (simp add: rest_def drop_take add.commute)

text \<open>
  The invariant of a driver that has fed the first \<^verbatim>\<open>k\<close> bytes of its buffer and has sent \<^verbatim>\<open>us\<close> after
  the handshake: what it has received is what the connection has consumed and what is left in the buffer.
\<close>

definition driver_ok :: "bytes \<Rightarrow> ('c link_scheme \<Rightarrow> bool) \<Rightarrow> ('c link_scheme \<Rightarrow> bytes \<Rightarrow> bool) \<Rightarrow>
    ('t \<Rightarrow> bytes) \<Rightarrow> ('t \<Rightarrow> bytes) \<Rightarrow> Mechanism \<Rightarrow> sending list \<Rightarrow> nat \<Rightarrow> ('c link_scheme, 't) Driver \<Rightarrow> bool" where
  "driver_ok ready_frame I R received sent m us k d \<longleftrightarrow>
     I (conn d) \<and> mechanism (conn d) = m \<and> live (conn d) \<and> length (rx_buf d) = 512 \<and> rx_len d \<le> 512 \<and> k \<le> rx_len d \<and>
     (\<exists>s. R (conn d) s \<and> received (transport d) = s @ rest k d) \<and>
     said ready_frame (conn d) us (sent (transport d))"

section \<open>A connection type on a transport\<close>

locale driver_client = client + byte_stream +
  assumes ready_fits: "length ready_frame \<le> 32"
begin

lemma transmit_ok:
  assumes "transmit T d bs = (Ok u, d')"
  shows "\<exists>t. d' = d\<lparr>transport := t\<rparr> \<and> sent t = sent (transport d) @ bs \<and> received t = received (transport d)"
proof -
  obtain r t where t: "t_write_all T (transport d) bs = (r, t)" by fastforce
  with assms have "r = Ok ()" "d' = d\<lparr>transport := t\<rparr>" by (auto simp: transmit_def)
  with t write_ok show ?thesis by blast
qed

lemma transmit_not_Panic [simp]: "fst (transmit T d bs) \<noteq> Panic"
  using write_not_Panic [of "transport d" bs] by (auto simp: transmit_def split: prod.splits)

lemma gen_send_ok:
  assumes "gen_send exec T a d = (Ok u, d')"
  shows "\<exists>n out c t. exec (conn d) a = ((Ok n, out), c) \<and> n \<le> length out \<and> d' = d\<lparr>conn := c, transport := t\<rparr> \<and>
    sent t = sent (transport d) @ take n out \<and> received t = received (transport d)"
proof -
  obtain r out c where e: "exec (conn d) a = ((r, out), c)" by (metis prod.exhaust)
  show ?thesis
  proof (cases r)
    case (Ok n)
    show ?thesis
    proof (cases "n \<le> length out")
      case True
      with assms e Ok have "transmit T (d\<lparr>conn := c\<rparr>) (take n out) = (Ok u, d')" by (simp add: gen_send_def)
      from transmit_ok [OF this] e Ok True show ?thesis by auto
    next
      case False
      with assms e Ok show ?thesis by (simp add: gen_send_def slice_def)
    qed
  qed (use assms e in \<open>simp_all add: gen_send_def\<close>)
qed

lemma gen_ready_ok:
  assumes "gen_ready exec T d = (Ok u, d')"
  shows "\<exists>t. d' = d\<lparr>conn := (conn d)\<lparr>our_ready_sent := True\<rparr>, transport := t\<rparr> \<and> \<not> our_ready_sent (conn d) \<and>
    sent t = sent (transport d) @ ready_frame \<and> received t = received (transport d)"
  using gen_send_ok [OF assms] ready_fits
  by (auto simp: exec_calls client_write_ready_def split: if_splits)

lemma gen_welcome_ok:
  assumes "gen_welcome exec T d = (Ok u, d')"
  shows "\<exists>t. d' = d\<lparr>conn := (conn d)\<lparr>our_welcome_sent := True\<rparr>, transport := t\<rparr> \<and> \<not> our_welcome_sent (conn d) \<and>
    sent t = sent (transport d) @ WELCOME_FRAME \<and> received t = received (transport d)"
proof -
  have "length WELCOME_FRAME = 10" by (simp add: WELCOME_FRAME_def)
  with gen_send_ok [OF assms] show ?thesis
    by (auto simp: exec_calls write_welcome_eq split: if_splits)
qed

lemma gen_pong_ok:
  assumes link: "link_inv CAP accept (conn d)" and "gen_pong exec T d = (Ok u, d')"
  shows "\<exists>t us. d' = d\<lparr>conn := (conn d)\<lparr>pending_pong := None\<rparr>, transport := t\<rparr> \<and> list_all is_pong us \<and>
    (pending_pong (conn d) = None \<longrightarrow> us = []) \<and>
    sent t = sent (transport d) @ concat (map wire_sending us) \<and> received t = received (transport d)"
proof (cases "pending_pong (conn d)")
  case None
  then have "(conn d)\<lparr>pending_pong := None\<rparr> = conn d" by simp
  with None assms(2) show ?thesis
    by (intro exI [of _ "transport d"] exI [of _ "[]"]) (simp add: gen_pong_def)
next
  case (Some p)
  obtain ctx n where p: "p = (ctx, n)" by fastforce
  have n: "length ctx = 16" "n \<le> 16" using link Some p by (auto simp: link_inv_def)
  then have len: "length (wire_frame (pong_frame (take n ctx))) = 7 + n"
    by (simp add: wire_frame_def pong_frame_def command_body_def length_frame_header)
  have "exec (conn d) (WritePong (replicate 23 0)) =
      ((Ok (7 + n), wire_frame (pong_frame (take n ctx)) @ replicate (16 - n) 0), (conn d)\<lparr>pending_pong := None\<rparr>)"
    using n by (simp add: exec_calls write_pong_eq [OF link] Some p)
  with gen_send_ok [of "WritePong (replicate 23 0)" d u d'] assms(2) Some len n show ?thesis
    by (auto simp: gen_pong_def intro!: exI [of _ "[SentPong (take n ctx)]"])
qed

abbreviation (input) ok where
  "ok m accept \<equiv> driver_ok ready_frame (inv accept) rel received sent m"

text \<open>One step of the loop: the connection is fed the rest of the buffer.\<close>

lemma after_feed:
  assumes ok: "ok m accept us k d" and k: "k < rx_len d"
    and f: "exec (conn d) (Feed (rest k d)) = ((Ok n, out), c)"
  shows "0 < n \<and> k + n \<le> rx_len d \<and> inv accept c \<and> live_step (conn d) c \<and> mechanism c = m \<and>
    (\<exists>s. rel c s \<and> received (transport d) = s @ rest (k + n) d)"
proof -
  have d: "inv accept (conn d)" "live (conn d)" "length (rest k d) = rx_len d - k"
    using ok by (auto simp: driver_ok_def length_rest)
  obtain s where s: "rel (conn d) s" "received (transport d) = s @ rest k d"
    using ok by (auto simp: driver_ok_def)
  have feed: "feed (conn d) (rest k d) = (Ok n, c)"
    using f by (auto simp: exec_calls split: prod.splits)
  have ne: "rest k d \<noteq> []" using d(3) k by auto
  note step = feed_live [OF d(1,2) feed ne]
  have "inv accept c" using feed_inv [OF d(1), of "rest k d"] feed by simp
  moreover have "rel c (s @ take n (rest k d))"
    using feed_rel [OF d(1) s(1) feed] by simp
  moreover have "received (transport d) = (s @ take n (rest k d)) @ rest (k + n) d"
    using s(2) by (simp flip: drop_rest)
  moreover have "mechanism c = m" using step ok by (simp add: live_step_def driver_ok_def)
  ultimately show ?thesis using step d(3) k by auto
qed

text \<open>What keeps the invariant of the connection and its relation to the peer.\<close>

lemma flag_updates [simp]:
  "inv accept (c\<lparr>our_ready_sent := b\<rparr>) \<longleftrightarrow> inv accept c" "rel (c\<lparr>our_ready_sent := b\<rparr>) s \<longleftrightarrow> rel c s"
  "inv accept (c\<lparr>our_welcome_sent := b\<rparr>) \<longleftrightarrow> inv accept c" "rel (c\<lparr>our_welcome_sent := b\<rparr>) s \<longleftrightarrow> rel c s"
  "inv accept c \<Longrightarrow> inv accept (c\<lparr>pending_pong := None\<rparr>)" "rel (c\<lparr>pending_pong := p\<rparr>) s \<longleftrightarrow> rel c s"
  by (simp_all add: client_inv_def client_rel_def)

lemma step_ready:
  assumes ok: "ok m accept us k d" and k: "k < rx_len d"
    and f: "exec (conn d) (Feed (rest k d)) = ((Ok n, out), c)"
    and st: "state (conn d) = Greeting" "state c = Ready"
    and r: "gen_ready exec T (d\<lparr>conn := c\<rparr>) = (Ok u, d')"
  shows "ok m accept us (k + n) d' \<and> rx_len d' = rx_len d \<and> 0 < n \<and> received (transport d') = received (transport d)"
proof -
  obtain t where t: "d' = d\<lparr>conn := c\<lparr>our_ready_sent := True\<rparr>, transport := t\<rparr>"
    "sent t = sent (transport d) @ ready_frame" "received t = received (transport d)"
    using gen_ready_ok [OF r] by auto
  note step = after_feed [OF ok k f]
  have "live (conn d)" "said ready_frame (conn d) us (sent (transport d))"
    using ok by (auto simp: driver_ok_def)
  with step st t have "live (c\<lparr>our_ready_sent := True\<rparr>)" "said ready_frame (c\<lparr>our_ready_sent := True\<rparr>) us (sent t)"
    by (auto simp: live_def live_step_def said_def handshake_said_def split: Mechanism.splits)
  with ok step t show ?thesis by (auto simp: driver_ok_def)
qed

lemma step_welcome:
  assumes ok: "ok m accept us k d" and k: "k < rx_len d"
    and f: "exec (conn d) (Feed (rest k d)) = ((Ok n, out), c)"
    and st: "state (conn d) = PlainHello" "state c = PlainReady"
    and w: "gen_welcome exec T (d\<lparr>conn := c\<rparr>) = (Ok u, d1)" and r: "gen_ready exec T d1 = (Ok u', d')"
  shows "ok m accept us (k + n) d' \<and> rx_len d' = rx_len d \<and> 0 < n \<and> received (transport d') = received (transport d)"
proof -
  obtain t1 where t1: "d1 = d\<lparr>conn := c\<lparr>our_welcome_sent := True\<rparr>, transport := t1\<rparr>"
    "sent t1 = sent (transport d) @ WELCOME_FRAME" "received t1 = received (transport d)"
    using gen_welcome_ok [OF w] by auto
  obtain t where t: "d' = d\<lparr>conn := c\<lparr>our_welcome_sent := True, our_ready_sent := True\<rparr>, transport := t\<rparr>"
    "sent t = sent (transport d) @ WELCOME_FRAME @ ready_frame" "received t = received (transport d)"
    using gen_ready_ok [OF r] t1 by auto
  note step = after_feed [OF ok k f]
  let ?c = "c\<lparr>our_welcome_sent := True, our_ready_sent := True\<rparr>"
  have "live (conn d)" "said ready_frame (conn d) us (sent (transport d))"
    using ok by (auto simp: driver_ok_def)
  with step st t have "live ?c" "said ready_frame ?c us (sent t)"
    by (auto simp: live_def live_step_def said_def handshake_said_def split: Mechanism.splits)
  with ok step t show ?thesis by (auto simp: driver_ok_def)
qed

lemma step_pong:
  assumes ok: "ok m accept us k d" and k: "k < rx_len d"
    and f: "exec (conn d) (Feed (rest k d)) = ((Ok n, out), c)"
    and st: "\<not> (state (conn d) = Greeting \<and> state c = Ready)" "\<not> (state (conn d) = PlainHello \<and> state c = PlainReady)"
    and p: "gen_pong exec T (d\<lparr>conn := c\<rparr>) = (Ok u, d')"
  shows "\<exists>us'. list_all is_pong us' \<and> ok m accept (us @ us') (k + n) d' \<and> rx_len d' = rx_len d \<and> 0 < n \<and>
    received (transport d') = received (transport d)"
proof -
  note step = after_feed [OF ok k f]
  have link: "link_inv (FRAME_CAP P) accept c" using step by (simp add: client_inv_def)
  obtain t us' where t: "d' = d\<lparr>conn := c\<lparr>pending_pong := None\<rparr>, transport := t\<rparr>" "list_all is_pong us'"
    "pending_pong c = None \<longrightarrow> us' = []"
    "sent t = sent (transport d) @ concat (map wire_sending us')" "received t = received (transport d)"
    using gen_pong_ok [of _ _ "d\<lparr>conn := c\<rparr>" u d', OF _ p] link
    by (simp del: split_paired_Ex split_paired_All) blast
  have d: "live (conn d)" "said ready_frame (conn d) us (sent (transport d))"
    using ok by (auto simp: driver_ok_def)
  have lv: "live (c\<lparr>pending_pong := None\<rparr>)"
    using d(1) step st by (cases "state (conn d)"; cases "mechanism (conn d)") (auto simp: live_def live_step_def)
  have "handshake_said ready_frame c = handshake_said ready_frame (conn d)"
    using step by (simp add: live_step_def handshake_said_def)
  moreover have "state c = Established" if "us \<noteq> [] \<or> us' \<noteq> []"
    using that d step t(3) by (auto simp: said_def live_step_def)
  ultimately have "said ready_frame (c\<lparr>pending_pong := None\<rparr>) (us @ us') (sent t)"
    using d(2) t(4) by (auto simp: said_def handshake_said_def)
  with ok step t lv show ?thesis by (intro exI [of _ us']) (auto simp: driver_ok_def)
qed

text \<open>The loop: every iteration consumes something, and nothing received is lost.\<close>

lemma loop_ok:
  "ok m accept us k d \<Longrightarrow> gen_loop exec T k d = (Ok k', d') \<Longrightarrow>
     \<exists>us'. list_all is_pong us' \<and> ok m accept (us @ us') k' d' \<and> rx_len d' = rx_len d \<and>
       (k < rx_len d \<longrightarrow> k < k') \<and> received (transport d') = received (transport d)"
proof (induction "rx_len d - k" arbitrary: us k d rule: less_induct)
  case less
  show ?case
  proof (cases "k < rx_len d")
    case False
    with less.prems show ?thesis by (intro exI [of _ "[]"]) (simp add: gen_loop.simps [of exec T k d])
  next
    case k: True
    have len: "rx_len d \<le> length (rx_buf d)" using less.prems(1) by (simp add: driver_ok_def)
    obtain r out c where f: "exec (conn d) (Feed (rest k d)) = ((r, out), c)" by (metis prod.exhaust)
    have loop: "gen_loop exec T k d =
        (case r of
           Ok n \<Rightarrow>
             if state (conn d) = Greeting \<and> state c = Ready then
               try_then (gen_ready exec T (d\<lparr>conn := c\<rparr>)) (\<lambda>_ d. (Ok (k + n), d))
             else if state (conn d) = PlainHello \<and> state c = PlainReady then
               try_then (gen_welcome exec T (d\<lparr>conn := c\<rparr>)) (\<lambda>_ d. try_then (gen_ready exec T d) (\<lambda>_ d. (Ok (k + n), d)))
             else
               (case gen_pong exec T (d\<lparr>conn := c\<rparr>) of
                  (Ok _, d) \<Rightarrow> if n = 0 then (Ok (k + n), d) else gen_loop exec T (k + n) d
                | (Err e, d) \<Rightarrow> (Err e, d)
                | (Panic, d) \<Rightarrow> (Panic, d))
         | Err e \<Rightarrow> try_then (gen_error exec T (d\<lparr>conn := c\<rparr>)) (\<lambda>_ d. (Err e, d))
         | Panic \<Rightarrow> (Panic, d\<lparr>conn := c\<rparr>))"
      using k len f by (subst gen_loop.simps) (simp add: Let_def rest_def split: outcome.splits)
    obtain n where n: "r = Ok n"
      using less.prems(2) loop by (cases r) (auto simp: try_then_eq split: outcome_splits)
    note f = f [unfolded n]
    note run = less.prems(2) [unfolded loop n outcome.case]
    consider (ready) "state (conn d) = Greeting" "state c = Ready"
      | (hello) "state (conn d) = PlainHello" "state c = PlainReady"
      | (other) "\<not> (state (conn d) = Greeting \<and> state c = Ready)" "\<not> (state (conn d) = PlainHello \<and> state c = PlainReady)"
      by blast
    then show ?thesis
    proof cases
      case ready
      with run have "try_then (gen_ready exec T (d\<lparr>conn := c\<rparr>)) (\<lambda>_ d. (Ok (k + n), d)) = (Ok k', d')" by simp
      then obtain u where r: "gen_ready exec T (d\<lparr>conn := c\<rparr>) = (Ok u, d')" and k': "k' = k + n"
        by (auto simp: try_then_eq_Ok)
      from step_ready [OF less.prems(1) k f ready r] k' show ?thesis by (intro exI [of _ "[]"]) simp
    next
      case hello
      with run have "try_then (gen_welcome exec T (d\<lparr>conn := c\<rparr>))
          (\<lambda>_ d. try_then (gen_ready exec T d) (\<lambda>_ d. (Ok (k + n), d))) = (Ok k', d')" by simp
      then obtain u d1 u' where w: "gen_welcome exec T (d\<lparr>conn := c\<rparr>) = (Ok u, d1)"
        and r: "gen_ready exec T d1 = (Ok u', d')" and k': "k' = k + n"
        by (auto simp: try_then_eq_Ok)
      from step_welcome [OF less.prems(1) k f hello w r] k' show ?thesis by (intro exI [of _ "[]"]) simp
    next
      case other
      have "(case gen_pong exec T (d\<lparr>conn := c\<rparr>) of
                  (Ok _, d) \<Rightarrow> if n = 0 then (Ok (k + n), d) else gen_loop exec T (k + n) d
                | (Err e, d) \<Rightarrow> (Err e, d)
                | (Panic, d) \<Rightarrow> (Panic, d)) = (Ok k', d')"
        using run unfolding if_not_P [OF other(1)] if_not_P [OF other(2)] .
      then obtain u d1 where p: "gen_pong exec T (d\<lparr>conn := c\<rparr>) = (Ok u, d1)"
        and rec: "(if n = 0 then (Ok (k + n), d1) else gen_loop exec T (k + n) d1) = (Ok k', d')"
        by (auto split: prod.splits outcome.splits)
      from step_pong [OF less.prems(1) k f other p] obtain us1 where
        us1: "list_all is_pong us1" "ok m accept (us @ us1) (k + n) d1" "rx_len d1 = rx_len d" "0 < n"
        "received (transport d1) = received (transport d)" by blast
      have smaller: "rx_len d1 - (k + n) < rx_len d - k" using us1 k by simp
      have rec': "gen_loop exec T (k + n) d1 = (Ok k', d')" using rec us1(4) by simp
      from less.hyps [OF smaller us1(2) rec'] obtain us2 where us2: "list_all is_pong us2"
        "ok m accept ((us @ us1) @ us2) k' d'" "rx_len d' = rx_len d1" "k + n < rx_len d1 \<longrightarrow> k + n < k'"
        "received (transport d') = received (transport d1)" by blast
      have "k + n \<le> k'"
      proof (cases "k + n < rx_len d1")
        case False
        with rec' show ?thesis by (simp add: gen_loop.simps [of exec T "k + n" d1])
      qed (use us2 in simp)
      with us1 us2 show ?thesis by (intro exI [of _ "us1 @ us2"]) auto
    qed
  qed
qed

text \<open>\<^verbatim>\<open>drain_buffer\<close> on a buffer that is not empty leaves less in it.\<close>

lemma discard_ok:
  assumes "ok m accept us k d"
  shows "\<exists>b. discard k d = (Ok (), d\<lparr>rx_buf := b, rx_len := rx_len d - k\<rparr>) \<and>
    ok m accept us 0 (d\<lparr>rx_buf := b, rx_len := rx_len d - k\<rparr>)"
proof -
  have d: "length (rx_buf d) = 512" "rx_len d \<le> 512" "k \<le> rx_len d" using assms by (auto simp: driver_ok_def)
  define b where "b = written (rx_buf d) 0 (rest k d)"
  have "discard k d = (Ok (), d\<lparr>rx_buf := b, rx_len := rx_len d - k\<rparr>)"
    using d by (simp add: discard_def b_def rest_def written_0)
  moreover have "rest 0 (d\<lparr>rx_buf := b, rx_len := rx_len d - k\<rparr>) = rest k d" "length b = 512"
    using d length_rest [of d k] by (simp_all add: b_def written_0 rest_def)
  ultimately show ?thesis using assms d by (intro exI [of _ b]) (auto simp: driver_ok_def)
qed

lemma drain_ok:
  assumes ok: "ok m accept us 0 d" and r: "gen_drain exec T d = (Ok u, d')" and "0 < rx_len d"
  shows "\<exists>us'. list_all is_pong us' \<and> ok m accept (us @ us') 0 d' \<and> rx_len d' < rx_len d \<and>
    received (transport d') = received (transport d)"
proof -
  obtain k d1 where l: "gen_loop exec T 0 d = (Ok k, d1)"
    and dis: "(if 0 < k then discard k d1 else (Ok (), d1)) = (Ok u, d')"
    using r by (auto simp: gen_drain_def try_then_eq_Ok)
  from loop_ok [OF ok l] obtain us' where us': "list_all is_pong us'" "ok m accept (us @ us') k d1"
    "rx_len d1 = rx_len d" "0 < k" "received (transport d1) = received (transport d)" using assms(3) by auto
  from discard_ok [OF us'(2)] dis us' assms(3) show ?thesis by (intro exI [of _ us']) auto
qed

text \<open>Reading: what arrives goes behind what is in the buffer.\<close>

lemma receive_ok:
  assumes ok: "ok m accept us 0 d" and r: "receive T d = (Ok n, d1)"
  shows "ok m accept us 0 (d1\<lparr>rx_len := rx_len d1 + n\<rparr>) \<and> rx_len d1 = rx_len d \<and>
    length (received (transport d1)) = length (received (transport d)) + n"
proof -
  have d: "length (rx_buf d) = 512" "rx_len d \<le> 512" using ok by (auto simp: driver_ok_def)
  obtain r' buf t where t: "t_read T (transport d) (drop (rx_len d) (rx_buf d)) = (r', buf, t)"
    by (metis prod.exhaust)
  with r d have rd: "r' = Ok n" and d1: "d1 = d\<lparr>rx_buf := take (rx_len d) (rx_buf d) @ buf, transport := t\<rparr>"
    by (auto simp: receive_def)
  from read_ok [OF t [unfolded rd]] d have
    t': "n \<le> 512 - rx_len d" "length buf = 512 - rx_len d" "received t = received (transport d) @ take n buf"
      "sent t = sent (transport d)"
    by auto
  have "rest 0 (d1\<lparr>rx_len := rx_len d1 + n\<rparr>) = rest 0 d @ take n buf"
    using d t' by (simp add: rest_def d1 min_def)
  with ok d t' show ?thesis by (auto simp: driver_ok_def d1 min_def)
qed

text \<open>The number of bytes that the connection has consumed.\<close>

lemma ok_consumed:
  assumes "ok m accept us 0 d"
  shows "rx_len d \<le> length (received (transport d))"
  using assms length_rest [of d 0] by (auto simp: driver_ok_def)

lemma gen_read_ok:
  assumes ok: "ok m accept us 0 d" and r: "gen_read exec T d = (Ok b, d')"
  shows "\<exists>us'. list_all is_pong us' \<and> ok m accept (us @ us') 0 d' \<and> b = (state (conn d') = Established) \<and>
    length (received (transport d)) - rx_len d < length (received (transport d')) - rx_len d'"
proof -
  obtain n d1 where rc: "receive T d = (Ok n, d1)"
    and rest: "(if n = 0 then (Err (IoError 0), d1)
       else try_then (gen_drain exec T (d1\<lparr>rx_len := rx_len d1 + n\<rparr>)) (\<lambda>_ d. (Ok (state (conn d) = Established), d)))
      = (Ok b, d')"
    using r by (auto simp: gen_read_def try_then_eq_Ok)
  have n: "0 < n" using rest by (cases n) auto
  obtain u where dr: "gen_drain exec T (d1\<lparr>rx_len := rx_len d1 + n\<rparr>) = (Ok u, d')"
    and b: "b = (state (conn d') = Established)"
    using rest n by (auto simp: try_then_eq_Ok)
  have rc': "ok m accept us 0 (d1\<lparr>rx_len := rx_len d1 + n\<rparr>)" "rx_len d1 = rx_len d"
    "length (received (transport d1)) = length (received (transport d)) + n"
    using receive_ok [OF ok rc] by auto
  from drain_ok [OF rc'(1) dr] n obtain us' where us': "list_all is_pong us'" "ok m accept (us @ us') 0 d'"
    "rx_len d' < rx_len d1 + n" "received (transport d') = received (transport d1)" by auto
  have "length (received (transport d)) - rx_len d < length (received (transport d')) - rx_len d'"
    using us'(3,4) rc'(2,3) ok_consumed [OF ok] ok_consumed [OF us'(2)] by simp
  with us'(1,2) b show ?thesis by auto
qed

text \<open>A live connection has no READY left to send, so \<^verbatim>\<open>poll\<close> drains the buffer or reads.\<close>

lemma live_ready_sent:
  assumes "live c" "state c = Ready"
  shows "exec c (WriteReady out) = ((Err WrongState, out), c)"
  using assms by (simp add: exec_calls client_write_ready_def live_def)

lemma poll_drains:
  assumes ok: "ok m accept us 0 d" and "0 < rx_len d"
  shows "gen_poll exec T d = try_then (gen_drain exec T d) (\<lambda>_ d'. (Ok (state (conn d') = Established), d'))"
proof -
  have "gen_poll exec T d = try_then (gen_drain exec T d) (\<lambda>_ d'.
      if rx_len d' < rx_len d then (Ok (state (conn d') = Established), d') else gen_read exec T d')"
    using assms live_ready_sent [of "conn d" "replicate 32 0"]
    by (simp add: gen_poll_def driver_ok_def Let_def)
  also have "\<dots> = try_then (gen_drain exec T d) (\<lambda>_ d'. (Ok (state (conn d') = Established), d'))"
    using drain_ok [OF ok _ assms(2)] by (auto simp: try_then_eq split: prod.splits outcome.splits)
  finally show ?thesis .
qed

lemma poll_reads:
  assumes "ok m accept us 0 d" and "rx_len d = 0"
  shows "gen_poll exec T d = gen_read exec T d"
  using assms live_ready_sent [of "conn d" "replicate 32 0"] by (simp add: gen_poll_def driver_ok_def Let_def)

lemma poll_ok:
  assumes ok: "ok m accept us 0 d" and r: "gen_poll exec T d = (Ok b, d')"
  shows "\<exists>us'. list_all is_pong us' \<and> ok m accept (us @ us') 0 d' \<and> b = (state (conn d') = Established) \<and>
    length (received (transport d)) - rx_len d < length (received (transport d')) - rx_len d'"
proof (cases "0 < rx_len d")
  case True
  with r poll_drains [OF ok] obtain u where dr: "gen_drain exec T d = (Ok u, d')" and b: "b = (state (conn d') = Established)"
    by (auto simp: try_then_eq_Ok)
  from drain_ok [OF ok dr True] obtain us' where us': "list_all is_pong us'" "ok m accept (us @ us') 0 d'"
    "rx_len d' < rx_len d" "received (transport d') = received (transport d)" by auto
  then have "length (received (transport d)) - rx_len d < length (received (transport d')) - rx_len d'"
    using ok_consumed [OF ok] ok_consumed [OF us'(2)] by simp
  with us'(1,2) b show ?thesis by auto
next
  case False
  with gen_read_ok [OF ok] r poll_reads [OF ok] show ?thesis by simp
qed

text \<open>Publishing an established message adds it to what has been said, or nothing.\<close>

lemma publish_ok:
  assumes ok: "ok m accept us 0 d"
    and hdrs: "hdrs = (if state (conn d) \<noteq> Established then Err WrongState
       else if \<not> matching then Ok None else Ok (Some (message_headers topic payload)))"
    and r: "gen_publish hdrs T d topic payload = (Ok n, d')"
  shows "state (conn d) = Established \<and>
    ok m accept (us @ (if matching then [SentMessage topic payload] else [])) 0 d' \<and>
    n = (if matching then length (wire_message topic payload) else 0) \<and> conn d' = conn d \<and>
    rx_len d' = rx_len d \<and> received (transport d') = received (transport d)"
proof -
  have est: "state (conn d) = Established" using r hdrs by (auto simp: gen_publish_def split: if_splits)
  show ?thesis
  proof (cases matching)
    case False
    with r hdrs est ok show ?thesis by (auto simp: gen_publish_def)
  next
    case True
    let ?th = "frame_header True False (length topic)" and ?ph = "frame_header False False (length payload)"
    have msg: "wire_message topic payload = ?th @ topic @ ?ph @ payload"
      by (simp add: wire_message_def wire_frame_def topic_frame_def payload_frame_def)
    obtain u1 d1 u2 d2 u3 d3 u4 where 1: "transmit T d ?th = (Ok u1, d1)" and 2: "transmit T d1 topic = (Ok u2, d2)"
      and 3: "transmit T d2 ?ph = (Ok u3, d3)" and 4: "transmit T d3 payload = (Ok u4, d')"
      and n: "n = length (wire_message topic payload)"
      using r hdrs est True by (auto simp: gen_publish_def message_headers_def Let_def try_then_eq_Ok msg)
    obtain t where "d' = d\<lparr>transport := t\<rparr>" "sent t = sent (transport d) @ wire_message topic payload"
      "received t = received (transport d)"
      using transmit_ok [OF 1] transmit_ok [OF 2] transmit_ok [OF 3] transmit_ok [OF 4] by (auto simp: msg)
    with ok est True n show ?thesis by (auto simp: driver_ok_def said_def)
  qed
qed

end

section \<open>Runs of a driver\<close>

fun messages :: "sending list \<Rightarrow> (bytes \<times> bytes) list" where
  "messages [] = []"
| "messages (SentPong _ # us) = messages us"
| "messages (SentMessage topic payload # us) = (topic, payload) # messages us"

lemma messages_append [simp]: "messages (us @ us') = messages us @ messages us'"
  by (induction us rule: messages.induct) simp_all

lemma messages_pongs: "list_all is_pong us \<Longrightarrow> messages us = []"
  by (induction us rule: messages.induct) simp_all

text \<open>The messages that the calls of \<^verbatim>\<open>publish\<close> in a run report as sent.\<close>

fun published :: "driver_op list \<Rightarrow> (nat, ConnError) outcome list \<Rightarrow> (bytes \<times> bytes) list" where
  "published (Publish topic payload # as) (Ok n # rs) =
     (if n = 0 then [] else [(topic, payload)]) @ published as rs"
| "published (_ # as) (_ # rs) = published as rs"
| "published _ _ = []"

lemma wire_message_not_Nil: "wire_message topic payload \<noteq> []"
  by (simp add: wire_message_def wire_frame_def frame_header_def)

context driver_client begin

lemma new_ok:
  assumes fresh: "fresh (FRAME_CAP P) m accept c0" and inv: "inv accept c0" and rel: "rel c0 []"
    and new: "gen_new exec T c0 t = Ok d" and t: "received t = []" "sent t = []"
  shows "ok m accept [] 0 d"
proof -
  have greeting: "length (our_greeting m) = 64"
    by (cases m) (simp_all add: our_greeting_def greeting_values)
  have "exec c0 (WriteGreeting (replicate 64 0)) = ((Ok 64, our_greeting m), c0\<lparr>our_greeting_sent := True\<rparr>)"
    using fresh by (simp add: exec_calls write_greeting_eq fresh_def our_greeting_def split: Mechanism.splits)
  with new greeting obtain t' where w: "t_write_all T t (our_greeting m) = (Ok (), t')"
    and d: "d = \<lparr>conn = c0\<lparr>our_greeting_sent := True\<rparr>, transport = t', rx_buf = replicate 512 0, rx_len = 0\<rparr>"
    by (auto simp: gen_new_def and_then_eq_Ok split: prod.splits)
  have c: "inv accept (c0\<lparr>our_greeting_sent := True\<rparr>)" "rel (c0\<lparr>our_greeting_sent := True\<rparr>) []"
    "live (c0\<lparr>our_greeting_sent := True\<rparr>)"
    "said ready_frame (c0\<lparr>our_greeting_sent := True\<rparr>) [] (our_greeting m)"
    using inv rel fresh
    by (simp_all add: client_inv_def client_rel_def live_def fresh_def said_def handshake_said_def)
  have "received t' = []" "sent t' = our_greeting m" using write_ok [OF w] t by auto
  with c d fresh show ?thesis by (auto simp: driver_ok_def rest_def fresh_def)
qed

text \<open>A run in which nothing failed.\<close>

abbreviation (input) eaten where
  "eaten d \<equiv> length (received (transport d)) - rx_len d"

lemma run_ok:
  assumes hdr: "\<And>c topic payload. hdr c topic payload =
      (if state c \<noteq> Established then Err WrongState
       else if \<not> matching c topic then Ok None else Ok (Some (message_headers topic payload)))"
    and step: "step = gen_step (gen_poll exec T) (\<lambda>d topic payload. gen_publish (hdr (conn d) topic payload) T d topic payload)"
  shows "ok m accept us 0 d \<Longrightarrow> run step d as = (rs, d') \<Longrightarrow> all_ok rs \<Longrightarrow>
    \<exists>us'. ok m accept (us @ us') 0 d' \<and> messages us' = published as rs \<and>
      eaten d + length (filter (\<lambda>a. a = Poll) as) \<le> eaten d'"
proof (induction as arbitrary: us d rs)
  case Nil
  then show ?case by (intro exI [of _ "[]"]) simp
next
  case (Cons a as)
  obtain r d1 where r: "step d a = (r, d1)" by fastforce
  obtain rs' where rs': "run step d1 as = (rs', d')" "rs = r # rs'"
    using Cons.prems(2) r by (auto split: prod.splits)
  with Cons.prems(3) obtain n where n: "r = Ok n" "all_ok rs'" by auto
  have "\<exists>us1. ok m accept (us @ us1) 0 d1 \<and> messages us1 = published [a] [r] \<and>
      eaten d + (if a = Poll then 1 else 0) \<le> eaten d1"
  proof (cases a)
    case Poll
    with r n step obtain b where "gen_poll exec T d = (Ok b, d1)" by (auto simp: gen_step_def try_then_eq_Ok)
    from poll_ok [OF Cons.prems(1) this] messages_pongs Poll n show ?thesis by (auto simp: Suc_le_eq)
  next
    case (Publish topic payload)
    with r n step have "gen_publish (hdr (conn d) topic payload) T d topic payload = (Ok n, d1)"
      by (simp add: gen_step_def)
    from publish_ok [OF Cons.prems(1) hdr this] Publish n wire_message_not_Nil show ?thesis by auto
  qed
  then obtain us1 where us1: "ok m accept (us @ us1) 0 d1" "messages us1 = published [a] [r]"
    "eaten d + (if a = Poll then 1 else 0) \<le> eaten d1" by blast
  from Cons.IH [OF us1(1) rs'(1) n(2)] obtain us2 where
    us2: "ok m accept ((us @ us1) @ us2) 0 d'" "messages us2 = published as rs'"
      "eaten d1 + length (filter (\<lambda>a. a = Poll) as) \<le> eaten d'" by blast
  moreover have "published (a # as) (r # rs') = published [a] [r] @ published as rs'"
    by (cases a; cases r) simp_all
  ultimately show ?case using us1 rs'(2) by (intro exI [of _ "us1 @ us2"]) auto
qed

end

end
