(* ===== verification/Drive_Safe.thy ===== *)
theory Drive_Safe
  imports Drive_Client
begin

text \<open>
  A driver does not panic, whatever its transport and its peer do: its buffer stays in bounds also
  when calls fail and the application goes on.
\<close>

lemma feed_greeting_bound:
  "link_inv CAP accept c \<Longrightarrow> feed_greeting c input = (Ok n, c') \<Longrightarrow> n \<le> length input"
  by (auto simp: feed_greeting_eq Let_def attempt_def split: outcome.splits if_splits)

lemma decoder_bound:
  assumes "fd_inv CAP d" and "Frame.feed T CAP d input = (Ok (n, f), d')"
  shows "n \<le> length input"
proof -
  have "feed_post CAP input 0 (Ok (n, f), d')"
    using feed_loop_post [OF assms(1), of 0 input T] assms(2) by (simp add: Frame.feed_def)
  then show ?thesis by (cases f) auto
qed

lemma ready_inner_bound:
  assumes "link_inv (FRAME_CAP P) accept c" and "ready_inner P ready c input = (Ok n, c')"
  shows "n \<le> length input"
proof -
  obtain r d where d: "Frame.feed (target_of P) (FRAME_CAP P) (frame_decoder c) input = (r, d)" by fastforce
  have "fd_inv (FRAME_CAP P) (frame_decoder c)" using assms(1) by (simp add: link_inv_def)
  with decoder_bound d have "r = Ok (n, f) \<Longrightarrow> n \<le> length input" for f by blast
  with assms(2) d show ?thesis
    by (auto simp: ready_inner_def Let_def attempt_def map_err_eq_Ok split: outcome.splits option.splits if_splits)
qed

lemma feed_plain_hello_bound:
  assumes "link_inv (FRAME_CAP P) accept c" and "feed_plain_hello P c input = (Ok n, c')"
  shows "n \<le> length input"
proof -
  obtain r d where d: "Frame.feed (target_of P) (FRAME_CAP P) (frame_decoder c) input = (r, d)" by fastforce
  have "fd_inv (FRAME_CAP P) (frame_decoder c)" using assms(1) by (simp add: link_inv_def)
  with decoder_bound d have "r = Ok (n, f) \<Longrightarrow> n \<le> length input" for f by blast
  with assms(2) d show ?thesis
    by (auto simp: feed_plain_hello_def Let_def attempt_def map_err_eq_Ok split: outcome.splits option.splits if_splits)
qed

context client begin

lemma feed_bound:
  assumes "inv accept c" and "feed c input = (Ok n, c')"
  shows "n \<le> length input"
proof -
  have link: "link_inv (FRAME_CAP P) accept c" using assms(1) by (simp add: client_inv_def)
  have "n \<le> length input" if "established P handler c input = (Ok n, c')"
  proof -
    have fd: "fd_inv (FRAME_CAP P) (frame_decoder c)" using link by (simp add: link_inv_def)
    show ?thesis
      using assms(1)
    proof (cases rule: established_cases [where input = input])
      case (frame k f d p t)
      with that decoder_bound [OF fd frame(1)] show ?thesis by simp
    qed (use that in auto)
  qed
  with assms feed_greeting_bound [OF link, of input n c'] ready_inner_bound [OF link, of ready input n c']
    feed_plain_hello_bound [OF link, of input n c']
  show ?thesis by (cases "state c") (auto simp: feed_eq client_feed_def split: if_splits)
qed

lemma write_bound:
  assumes "inv accept c" and "exec c a = ((Ok n, out), c')" and "\<forall>input. a \<noteq> Feed input"
  shows "n \<le> length out"
proof -
  have link: "link_inv (FRAME_CAP P) accept c" using assms(1) by (simp add: client_inv_def)
  have "length WELCOME_FRAME = 10" "length (our_greeting m) = 64" for m
    by (cases m; simp add: WELCOME_FRAME_def our_greeting_def greeting_values)+
  moreover have "length (wire_frame (pong_frame (take k ctx))) = 7 + k" if "k \<le> 16" "length ctx = 16" for k ctx
    using that by (simp add: wire_frame_def pong_frame_def command_body_def length_frame_header)
  moreover have "pending_pong c = Some (ctx, k) \<Longrightarrow> k \<le> 16 \<and> length ctx = 16" for ctx k
    using link by (auto simp: link_inv_def)
  ultimately show ?thesis
    using assms(2,3)
    by (cases a) (auto simp: exec_calls write_greeting_eq client_write_ready_def write_welcome_eq write_pong_eq [OF link]
      write_error_eq Let_def our_greeting_def and_then_eq_Ok
      split: if_splits option.splits prod.splits Mechanism.splits)
qed

end

locale safe_driver = driver_client + safe_client
begin

abbreviation (input) fit where
  "fit accept d \<equiv> inv accept (conn d) \<and> length (rx_buf d) = 512 \<and> rx_len d \<le> 512"

lemma exec_fit:
  assumes "fit accept d" and "exec (conn d) a = (r, c)"
  shows "fit accept (d\<lparr>conn := c\<rparr>) \<and> fst r \<noteq> Panic"
  using assms exec_inv [of accept "conn d" a] exec_safe [of accept "conn d" a] ready_safe by auto

lemma transmit_fit: "fit accept d \<Longrightarrow> fit accept (snd (transmit T d bs)) \<and> fst (transmit T d bs) \<noteq> Panic"
  by simp

lemma gen_send_fit:
  assumes d: "fit accept d" and a: "\<forall>input. a \<noteq> Feed input"
  shows "fit accept (snd (gen_send exec T a d)) \<and> fst (gen_send exec T a d) \<noteq> Panic"
proof -
  obtain r out c where e: "exec (conn d) a = ((r, out), c)" by (metis prod.exhaust)
  note c = exec_fit [OF d e]
  show ?thesis
  proof (cases r)
    case (Ok n)
    with write_bound e d a have "n \<le> length out" by blast
    with Ok e c transmit_fit [of accept "d\<lparr>conn := c\<rparr>" "take n out"] show ?thesis by (simp add: gen_send_def)
  qed (use e c in \<open>simp_all add: gen_send_def\<close>)
qed

lemma gen_pong_fit:
  assumes "fit accept d"
  shows "fit accept (snd (gen_pong exec T d)) \<and> fst (gen_pong exec T d) \<noteq> Panic"
  using assms gen_send_fit [OF assms, of "WritePong (replicate 23 0)"] by (simp add: gen_pong_def)

lemma gen_error_fit:
  assumes d: "fit accept d"
  shows "fit accept (snd (gen_error exec T d)) \<and> fst (gen_error exec T d) \<noteq> Panic"
proof -
  obtain r buf c where e: "exec (conn d) (WriteError (replicate 32 0)) = ((r, buf), c)" by (metis prod.exhaust)
  have ign: "ignore_err r' \<noteq> Panic" if "r' \<noteq> Panic" for r' :: "(unit, ConnError) outcome"
    using that by (cases r') simp_all
  show ?thesis
  proof (cases "state (conn d) = Failed \<and> (\<exists>n. r = Ok n)")
    case True
    then obtain n where "r = Ok n" by blast
    moreover with write_bound e d have "n \<le> length buf" by blast
    ultimately show ?thesis
      using e d True ign [of "fst (transmit T d (take n buf))"] by (simp add: gen_error_def split_beta)
  next
    case False
    with e d exec_fit [OF d e] show ?thesis by (cases r) (simp_all add: gen_error_def)
  qed
qed

lemma loop_fit:
  "fit accept d \<Longrightarrow> k \<le> rx_len d \<Longrightarrow>
     fit accept (snd (gen_loop exec T k d)) \<and> fst (gen_loop exec T k d) \<noteq> Panic \<and>
     rx_len (snd (gen_loop exec T k d)) = rx_len d \<and>
     (\<forall>k'. fst (gen_loop exec T k d) = Ok k' \<longrightarrow> k' \<le> rx_len d)"
proof (induction "rx_len d - k" arbitrary: k d rule: less_induct)
  case less
  show ?case
  proof (cases "k < rx_len d")
    case False
    then have "gen_loop exec T k d = (Ok k, d)" by (simp add: gen_loop.simps [of exec T k d])
    with less.prems show ?thesis by simp
  next
    case k: True
    have d: "fit accept d" and len: "rx_len d \<le> length (rx_buf d)" using less.prems(1) by auto
    obtain r out c where f: "exec (conn d) (Feed (rest k d)) = ((r, out), c)" by (metis prod.exhaust)
    note c = exec_fit [OF d f]
    have loop: "gen_loop exec T k d =
        (case r of
           Ok n \<Rightarrow>
             if state (conn d) = Greeting \<and> state c = Ready then
               try_then (gen_ready exec T (d\<lparr>conn := c\<rparr>)) (\<lambda>_ d. (Ok (k + n), d))
             else if state (conn d) = PlainHello \<and> state c = PlainReady then
               try_then (gen_welcome exec T (d\<lparr>conn := c\<rparr>)) (\<lambda>_ d. try_then (gen_ready exec T d) (\<lambda>_ d. (Ok (k + n), d)))
             else
               (case gen_pong exec T (d\<lparr>conn := c\<rparr>) of
                  (Ok _, d) \<Rightarrow> if n = 0 then (Ok (k + n), d) else gen_loop exec T (k + n) d
                | (Err e, d) \<Rightarrow> (Err e, d)
                | (Panic, d) \<Rightarrow> (Panic, d))
         | Err e \<Rightarrow> try_then (gen_error exec T (d\<lparr>conn := c\<rparr>)) (\<lambda>_ d. (Err e, d))
         | Panic \<Rightarrow> (Panic, d\<lparr>conn := c\<rparr>))"
      using k len f by (subst gen_loop.simps) (simp add: Let_def rest_def split: outcome.splits)
    have sub: "fit accept d1 \<Longrightarrow> rx_len d1 = rx_len d \<Longrightarrow>
        fit accept (snd (gen_send exec T a d1)) \<and> fst (gen_send exec T a d1) \<noteq> Panic \<and>
        rx_len (snd (gen_send exec T a d1)) = rx_len d" if "\<forall>input. a \<noteq> Feed input" for a d1
      using gen_send_fit [OF _ that, of accept d1] by simp
    show ?thesis
    proof (cases r)
      case (Ok n)
      have n: "k + n \<le> rx_len d"
      proof -
        have "feed (conn d) (rest k d) = (Ok n, c)" using f Ok by (auto simp: exec_calls split: prod.splits)
        with feed_bound d have "n \<le> length (rest k d)" by blast
        with d k show ?thesis by (simp add: length_rest)
      qed
      let ?d = "d\<lparr>conn := c\<rparr>"
      have d': "fit accept ?d" "rx_len ?d = rx_len d" using c by simp_all
      consider (ready) "state (conn d) = Greeting \<and> state c = Ready"
        | (hello) "\<not> (state (conn d) = Greeting \<and> state c = Ready)" "state (conn d) = PlainHello \<and> state c = PlainReady"
        | (other) "\<not> (state (conn d) = Greeting \<and> state c = Ready)" "\<not> (state (conn d) = PlainHello \<and> state c = PlainReady)"
        by blast
      then show ?thesis
      proof cases
        case ready
        with loop Ok have "gen_loop exec T k d = try_then (gen_ready exec T ?d) (\<lambda>_ d. (Ok (k + n), d))" by simp
        with sub [OF _ d', of "WriteReady (replicate 32 0)"] n show ?thesis
          by (cases "gen_ready exec T ?d"; cases "fst (gen_ready exec T ?d)") auto
      next
        case hello
        with loop Ok have l: "gen_loop exec T k d = try_then (gen_welcome exec T ?d)
            (\<lambda>_ d. try_then (gen_ready exec T d) (\<lambda>_ d. (Ok (k + n), d)))" by simp
        obtain rw d1 where w: "gen_welcome exec T ?d = (rw, d1)" by fastforce
        have d1: "fit accept d1" "rw \<noteq> Panic" "rx_len d1 = rx_len d"
          using sub [OF _ d', of "WriteWelcome (replicate 10 0)"] w by auto
        with l w sub [OF _ d1(1,3), of "WriteReady (replicate 32 0)"] n show ?thesis
          by (cases rw; cases "gen_ready exec T d1"; cases "fst (gen_ready exec T d1)") auto
      next
        case other
        obtain rp d1 where p: "gen_pong exec T ?d = (rp, d1)" by fastforce
        have "rx_len (snd (gen_pong exec T ?d)) = rx_len d" by simp
        with gen_pong_fit [OF d'(1)] p have d1: "fit accept d1" "rp \<noteq> Panic" "rx_len d1 = rx_len d" by auto
        have l: "gen_loop exec T k d = (case rp of
              Ok _ \<Rightarrow> if n = 0 then (Ok (k + n), d1) else gen_loop exec T (k + n) d1
            | Err e \<Rightarrow> (Err e, d1) | Panic \<Rightarrow> (Panic, d1))"
          unfolding loop Ok outcome.case if_not_P [OF other(1)] if_not_P [OF other(2)] p by (cases rp) simp_all
        show ?thesis
        proof (cases "rp = Ok () \<and> n \<noteq> 0")
          case True
          then have smaller: "rx_len d1 - (k + n) < rx_len d - k" using d1(3) k by linarith
          from less.hyps [OF smaller d1(1)] n d1(3) l True show ?thesis by simp
        next
          case False
          with l d1 n show ?thesis by (cases rp) auto
        qed
      qed
    next
      case (Err e)
      have "rx_len (snd (gen_error exec T (d\<lparr>conn := c\<rparr>))) = rx_len d"
        by (auto simp: gen_error_def attempt_def transmit_def split: outcome_splits)
      with loop Err gen_error_fit [of accept "d\<lparr>conn := c\<rparr>"] c show ?thesis
        by (cases "gen_error exec T (d\<lparr>conn := c\<rparr>)"; cases "fst (gen_error exec T (d\<lparr>conn := c\<rparr>))") auto
    next
      case Panic
      with c show ?thesis by simp
    qed
  qed
qed

lemma drain_fit:
  assumes d: "fit accept d"
  shows "fit accept (snd (gen_drain exec T d)) \<and> fst (gen_drain exec T d) \<noteq> Panic"
proof -
  obtain r d1 where l: "gen_loop exec T 0 d = (r, d1)" by fastforce
  have d1: "fit accept d1" "r \<noteq> Panic" "rx_len d1 = rx_len d" "\<forall>k. r = Ok k \<longrightarrow> k \<le> rx_len d"
    using loop_fit [OF d, of 0] l by auto
  show ?thesis
  proof (cases r)
    case (Ok k)
    define b where "b = written (rx_buf d1) 0 (rest k d1)"
    have k: "k \<le> rx_len d1" using d1 Ok by simp
    with d1(1) have "discard k d1 = (Ok (), d1\<lparr>rx_buf := b, rx_len := rx_len d1 - k\<rparr>)" "length b = 512"
      by (simp_all add: discard_def b_def rest_def written_0)
    moreover have "rx_len d1 - k \<le> 512" using d1(1) by linarith
    ultimately show ?thesis using l Ok d1(1) by (simp add: gen_drain_def)
  qed (use l d1 in \<open>simp_all add: gen_drain_def\<close>)
qed

lemma read_fit:
  assumes d: "fit accept d"
  shows "fit accept (snd (gen_read exec T d)) \<and> fst (gen_read exec T d) \<noteq> Panic"
proof -
  obtain r buf t where t: "t_read T (transport d) (drop (rx_len d) (rx_buf d)) = (r, buf, t)"
    by (metis prod.exhaust)
  let ?d = "d\<lparr>rx_buf := take (rx_len d) (rx_buf d) @ buf, transport := t\<rparr>"
  have rc: "receive T d = (map_err (\<lambda>e. IoError (t_kind T e)) r, ?d)"
    using d t by (simp add: receive_def)
  show ?thesis
  proof (cases r)
    case (Ok n)
    from read_ok [OF t [unfolded Ok]] d have buf: "n \<le> 512 - rx_len d" "length buf = 512 - rx_len d" by auto
    with d have "rx_len d + n \<le> 512" by linarith
    with d buf have "fit accept (?d\<lparr>rx_len := rx_len ?d + n\<rparr>)" by simp
    from drain_fit [OF this] rc Ok d buf show ?thesis
      by (cases "gen_drain exec T (?d\<lparr>rx_len := rx_len ?d + n\<rparr>)"; cases "fst (gen_drain exec T (?d\<lparr>rx_len := rx_len ?d + n\<rparr>))")
        (auto simp: gen_read_def)
  next
    case (Err e)
    from read_err [OF t [unfolded Err]] d have "length buf = 512 - rx_len d" by simp
    with rc Err d show ?thesis by (simp add: gen_read_def)
  next
    case Panic
    with t read_not_Panic [of "transport d" "drop (rx_len d) (rx_buf d)"] show ?thesis by simp
  qed
qed

text \<open>\<^verbatim>\<open>poll\<close>, whatever it does after READY has been sent.\<close>

lemma ready_fit:
  assumes d: "fit accept d" and more: "\<And>d. fit accept d \<Longrightarrow> fit accept (snd (drain d)) \<and> fst (drain d) \<noteq> Panic"
  defines "p \<equiv>
      (if state (conn d) = Ready then
        (case exec (conn d) (WriteReady (replicate 32 0)) of
           ((Ok n, ready), c) \<Rightarrow>
             try_then (attempt (slice ready 0 n) (d\<lparr>conn := c\<rparr>) (transmit T (d\<lparr>conn := c\<rparr>))) (\<lambda>_ d. (Ok False, d))
         | ((Err WrongState, _), c) \<Rightarrow> drain (d\<lparr>conn := c\<rparr>)
         | ((Err e, _), c) \<Rightarrow> (Err e, d\<lparr>conn := c\<rparr>)
         | ((Panic, _), c) \<Rightarrow> (Panic, d\<lparr>conn := c\<rparr>))
      else drain d)"
  shows "fit accept (snd p) \<and> fst p \<noteq> Panic"
proof (cases "state (conn d) = Ready")
  case False
  with more [OF d] show ?thesis by (simp add: p_def)
next
  case True
  obtain r buf c where e: "exec (conn d) (WriteReady (replicate 32 0)) = ((r, buf), c)" by (metis prod.exhaust)
  note c = exec_fit [OF d e]
  have p: "p = (case r of
       Ok n \<Rightarrow> try_then (attempt (slice buf 0 n) (d\<lparr>conn := c\<rparr>) (transmit T (d\<lparr>conn := c\<rparr>))) (\<lambda>_ d. (Ok False, d))
     | Err e \<Rightarrow> if e = WrongState then drain (d\<lparr>conn := c\<rparr>) else (Err e, d\<lparr>conn := c\<rparr>)
     | Panic \<Rightarrow> (Panic, d\<lparr>conn := c\<rparr>))"
    using True unfolding p_def e by (auto split: outcome.splits ConnError.splits)
  show ?thesis
  proof (cases r)
    case (Ok n)
    with write_bound e d have "n \<le> length buf" by blast
    with p Ok c transmit_fit [of accept "d\<lparr>conn := c\<rparr>" "take n buf"] show ?thesis
      by (cases "transmit T (d\<lparr>conn := c\<rparr>) (take n buf)"; cases "fst (transmit T (d\<lparr>conn := c\<rparr>) (take n buf))") auto
  next
    case (Err e')
    with p c more [of "d\<lparr>conn := c\<rparr>"] show ?thesis by simp
  qed (use c in simp)
qed

lemma drain_then_fit:
  assumes "fit accept d" and "\<And>d. fit accept d \<Longrightarrow> fit accept (snd (k () d)) \<and> fst (k () d) \<noteq> Panic"
  shows "fit accept (snd (try_then (gen_drain exec T d) k)) \<and> fst (try_then (gen_drain exec T d) k) \<noteq> Panic"
  using drain_fit [OF assms(1)] assms(2) by (cases "gen_drain exec T d"; cases "fst (gen_drain exec T d)") auto

lemma poll_fit:
  assumes d: "fit accept d"
  shows "fit accept (snd (gen_poll exec T d)) \<and> fst (gen_poll exec T d) \<noteq> Panic"
  unfolding gen_poll_def Let_def
proof (rule ready_fit [OF d])
  fix d :: "('d link_scheme, 'f) Driver"
  assume d: "fit accept d"
  let ?k = "\<lambda>_ d'. if rx_len d' < rx_len d then (Ok (state (conn d') = Established), d') else gen_read exec T d'"
  have "fit accept (snd (try_then (gen_drain exec T d) ?k)) \<and> fst (try_then (gen_drain exec T d) ?k) \<noteq> Panic"
    by (rule drain_then_fit [OF d]) (simp add: read_fit [of accept])
  with read_fit [OF d]
  show "fit accept (snd (if 0 < rx_len d then try_then (gen_drain exec T d) ?k else gen_read exec T d)) \<and>
      fst (if 0 < rx_len d then try_then (gen_drain exec T d) ?k else gen_read exec T d) \<noteq> Panic"
    by simp
qed

lemma poll_once_fit:
  assumes d: "fit accept d"
  shows "fit accept (snd (gen_poll_once exec T d)) \<and> fst (gen_poll_once exec T d) \<noteq> Panic"
  unfolding gen_poll_once_def Let_def
proof (rule ready_fit [OF d])
  fix d :: "('d link_scheme, 'f) Driver"
  assume d: "fit accept d"
  from drain_then_fit [OF d, of "\<lambda>_ d. (Ok (state (conn d) = Established), d)"] read_fit [OF d]
  show "fit accept (snd (if 0 < rx_len d then try_then (gen_drain exec T d) (\<lambda>_ d. (Ok (state (conn d) = Established), d))
        else gen_read exec T d)) \<and>
      fst (if 0 < rx_len d then try_then (gen_drain exec T d) (\<lambda>_ d. (Ok (state (conn d) = Established), d))
        else gen_read exec T d) \<noteq> Panic"
    by simp
qed

lemma publish_fit:
  assumes d: "fit accept d" and hdrs: "hdrs \<in> {Err WrongState, Ok None, Ok (Some (message_headers topic payload))}"
  shows "fit accept (snd (gen_publish hdrs T d topic payload)) \<and> fst (gen_publish hdrs T d topic payload) \<noteq> Panic"
proof -
  have seq: "fit accept (snd (try_then (transmit T d bs) k)) \<and> fst (try_then (transmit T d bs) k) \<noteq> Panic"
    if "fit accept d" "\<And>d. fit accept d \<Longrightarrow> fit accept (snd (k () d)) \<and> fst (k () d) \<noteq> Panic" for d bs k
    using that(1) that(2) [of "snd (transmit T d bs)"] transmit_fit [OF that(1), of bs]
    by (cases "transmit T d bs"; cases "fst (transmit T d bs)") auto
  show ?thesis
  proof (cases "hdrs = Ok (Some (message_headers topic payload))")
    case True
    let ?th = "frame_header True False (length topic)" and ?ph = "frame_header False False (length payload)"
    have eq: "gen_publish hdrs T d topic payload =
        try_then (transmit T d ?th) (\<lambda>_ d. try_then (transmit T d topic) (\<lambda>_ d. try_then (transmit T d ?ph) (\<lambda>_ d.
          try_then (transmit T d payload) (\<lambda>_ d. (Ok (length ?th + length topic + length ?ph + length payload), d)))))"
      by (simp add: True gen_publish_def message_headers_def Let_def)
    show ?thesis
      unfolding eq by (rule seq [OF d]) (rule seq, assumption | simp)+
  next
    case False
    with hdrs d show ?thesis by (auto simp: gen_publish_def)
  qed
qed

lemma run_fit:
  assumes hdr: "\<And>c topic payload. hdr c topic payload =
      (if state c \<noteq> Established then Err WrongState
       else if \<not> m c topic then Ok None else Ok (Some (message_headers topic payload)))"
    and pl: "pl = gen_poll exec T \<or> pl = gen_poll_once exec T"
    and step: "step = gen_step pl (\<lambda>d topic payload. gen_publish (hdr (conn d) topic payload) T d topic payload)"
  shows "fit accept d \<Longrightarrow> run step d as = (rs, d') \<Longrightarrow> fit accept d' \<and> Panic \<notin> set rs"
proof (induction as arbitrary: d rs)
  case (Cons a as)
  obtain r d1 where r: "step d a = (r, d1)" by fastforce
  obtain rs' where rs': "run step d1 as = (rs', d')" "rs = r # rs'"
    using Cons.prems(2) r by (auto split: prod.splits)
  have "fit accept d1 \<and> r \<noteq> Panic"
  proof (cases a)
    case Poll
    have "fit accept (snd (pl d)) \<and> fst (pl d) \<noteq> Panic"
      using pl poll_fit [OF Cons.prems(1)] poll_once_fit [OF Cons.prems(1)] by auto
    with Poll r step show ?thesis by (cases "pl d"; cases "fst (pl d)") (auto simp: gen_step_def)
  next
    case (Publish topic payload)
    with r step publish_fit [OF Cons.prems(1), of "hdr (conn d) topic payload" topic payload] hdr show ?thesis
      by (auto simp: gen_step_def)
  qed
  with Cons.IH rs' show ?case by auto
qed simp

end

end
