(* ===== verification/Client_Progress.thy ===== *)
theory Client_Progress
  imports Drive_Client
begin

text \<open>
  A connection never rejects a good peer: as long as the bytes are the beginning of a stream with a
  complete handshake and well-formed frames, no \<^verbatim>\<open>feed\<close> of a live connection fails.
\<close>

definition good_stream :: "target \<Rightarrow> nat \<Rightarrow> (bool \<Rightarrow> bytes \<Rightarrow> (PeerSocketType, NullError) outcome) \<Rightarrow>
    Mechanism \<Rightarrow> auth_check \<Rightarrow> bytes \<Rightarrow> bool" where
  "good_stream T CAP ready m accept bs \<longleftrightarrow>
     (case meaning_of T CAP ready m accept bs of
        Talking v fs r \<Rightarrow> parse_frame T CAP r = Incomplete
      | _ \<Rightarrow> False)"

lemma good_streamE:
  assumes "good_stream T CAP ready m accept bs"
  obtains v fs r where "meaning_of T CAP ready m accept bs = Talking v fs r" "parse_frame T CAP r = Incomplete"
  using assms by (auto simp: good_stream_def split: meaning.splits)

text \<open>The first frame of what is awaited, and what comes after it.\<close>

lemma await_ready_Talking:
  assumes "await_ready T CAP ready v (bs @ cs) = Talking v' fs r" and "parse_frame T CAP bs = p" and "p \<noteq> Incomplete"
  shows "\<exists>k f ty. p = Complete k f \<and> length (df_body f) \<le> 255 \<and> ready (df_is_command f) (df_body f) = Ok ty"
proof -
  have "parse_frame T CAP (bs @ cs) = p"
    using parse_frame_append [of T CAP bs cs] assms(2,3) by simp
  with assms(1,3) show ?thesis
    by (cases p) (auto simp: await_ready_def split: if_splits outcome.splits)
qed

lemma await_hello_Talking:
  assumes "await_hello T CAP ready accept v (bs @ cs) = Talking v' fs r" and "parse_frame T CAP bs = p" and "p \<noteq> Incomplete"
  shows "\<exists>k f u w. p = Complete k f \<and> parse_hello_from (df_is_command f) (df_body f) = Ok (u, w) \<and> accept u w"
proof -
  have "parse_frame T CAP (bs @ cs) = p"
    using parse_frame_append [of T CAP bs cs] assms(2,3) by simp
  with assms(1,3) show ?thesis
    by (cases p) (auto simp: await_hello_def split: if_splits outcome.splits prod.splits)
qed

lemma ready_inner_good:
  assumes hold: "holds (target_of P) (FRAME_CAP P) (frame_decoder c) r"
    and talk: "await_ready (target_of P) (FRAME_CAP P) ready v (r @ input @ later) = Talking v' fs r'"
  shows "\<exists>n c'. ready_inner P ready c input = (Ok n, c')"
proof -
  obtain q d where d: "Frame.feed (target_of P) (FRAME_CAP P) (frame_decoder c) input = (q, d)" by fastforce
  note facts = holds_feed [OF hold d]
  have split: "r @ input @ later = (r @ take n input) @ (drop n input @ later)" for n
    by (metis append.assoc append_take_drop_id)
  have first: "\<exists>k f ty. p = Complete k f \<and> length (df_body f) \<le> 255 \<and> ready (df_is_command f) (df_body f) = Ok ty"
    if "parse_frame (target_of P) (FRAME_CAP P) (r @ take n input) = p" "p \<noteq> Incomplete" for n p
    by (rule await_ready_Talking [OF talk [unfolded split [of n]] that])
  show ?thesis
  proof (cases q)
    case (Ok nf)
    obtain n fo where nf: "nf = (n, fo)" by fastforce
    show ?thesis
    proof (cases fo)
      case None
      with Ok nf d show ?thesis by (simp add: ready_inner_def)
    next
      case (Some f)
      with facts Ok nf first [of n] show ?thesis by (auto simp: ready_inner_def d)
    qed
  next
    case (Err e)
    with facts first [of "length input"] show ?thesis by simp
  next
    case Panic
    with facts show ?thesis by simp
  qed
qed

lemma feed_plain_hello_good:
  assumes hold: "holds (target_of P) (FRAME_CAP P) (frame_decoder c) r"
    and talk: "await_hello (target_of P) (FRAME_CAP P) ready (auth c) v (r @ input @ later) = Talking v' fs r'"
  shows "\<exists>n c'. feed_plain_hello P c input = (Ok n, c')"
proof -
  obtain q d where d: "Frame.feed (target_of P) (FRAME_CAP P) (frame_decoder c) input = (q, d)" by fastforce
  note facts = holds_feed [OF hold d]
  have split: "r @ input @ later = (r @ take n input) @ (drop n input @ later)" for n
    by (metis append.assoc append_take_drop_id)
  have first: "\<exists>k f u w. p = Complete k f \<and> parse_hello_from (df_is_command f) (df_body f) = Ok (u, w) \<and> auth c u w"
    if "parse_frame (target_of P) (FRAME_CAP P) (r @ take n input) = p" "p \<noteq> Incomplete" for n p
    by (rule await_hello_Talking [OF talk [unfolded split [of n]] that])
  show ?thesis
  proof (cases q)
    case (Ok nf)
    obtain n fo where nf: "nf = (n, fo)" by fastforce
    show ?thesis
    proof (cases fo)
      case None
      with Ok nf d show ?thesis by (simp add: feed_plain_hello_def)
    next
      case (Some f)
      with facts Ok nf first [of n] show ?thesis by (auto simp: feed_plain_hello_def d)
    qed
  next
    case (Err e)
    with facts first [of "length input"] show ?thesis by simp
  next
    case Panic
    with facts show ?thesis by simp
  qed
qed

lemma feed_greeting_good:
  assumes inv: "link_inv CAP accept c" and s: "take (length s) (greeting_buf c) = s" "greeting_pos c = length s"
    and g: "64 \<le> length (s @ input @ later)" "greeting_parser (mechanism c) (take 64 (s @ input @ later)) = Ok g"
  shows "\<exists>n c'. feed_greeting c input = (Ok n, c')"
proof -
  let ?n = "min (length input) (64 - length s)" and ?g = "take 64 (s @ input @ later)"
  define buf where "buf = written (greeting_buf c) (length s) (take ?n input)"
  have len: "length (greeting_buf c) = 64" "length s \<le> 64" using inv s(2) by (auto simp: link_inv_def)
  have buf: "take (length s + ?n) buf = s @ take ?n input" "length buf = 64"
    using len s take_written [of "length s" "greeting_buf c" "take ?n input"] by (auto simp: buf_def)
  have same: "take k buf = take k ?g" if "k \<le> length s + ?n" for k
  proof -
    have "take k buf = take k (s @ take ?n input)" using that buf(1) by (metis min.absorb1 take_take)
    also have "\<dots> = take k s @ take (k - length s) input"
    proof -
      have "k - length s \<le> ?n" using that by linarith
      then show ?thesis by (simp add: min.absorb1)
    qed
    also have "\<dots> = take k ?g"
      using that len by (simp add: min.absorb1)
    finally show ?thesis .
  qed
  have "parse_partial_greeting (take 11 buf) \<noteq> Err e" if "length s < 11" "11 \<le> length s + ?n" for e
  proof
    assume "parse_partial_greeting (take 11 buf) = Err e"
    with same [of 11] that have "parse_partial_greeting (take GREETING_PARTIAL_LEN ?g) = Err e"
      by (simp add: greeting_lens)
    moreover have "length ?g = 64" using g(1) by (metis length_take min.absorb2)
    ultimately have "parse_greeting ?g = Err e \<and> parse_plain_greeting ?g = Err e" by (intro partial_err)
    with g(2) show False by (simp add: greeting_parser_def split: Mechanism.splits)
  qed
  moreover have "buf = ?g" if "length s + ?n = 64" using same [of 64] that buf(2) by simp
  moreover have "fst (feed_greeting c input) \<noteq> Panic" using feed_greeting_inv [OF inv] by blast
  ultimately show ?thesis
    using g(2) unfolding feed_greeting_eq [OF inv] Let_def s(2) buf_def [symmetric]
    by (auto simp: attempt_def map_err_eq_Err split: outcome.splits if_splits)
qed

context client begin

lemma feed_good:
  assumes inv: "inv accept c" and live: "live c" and rel: "rel c s"
    and good: "good_stream (target_of P) (FRAME_CAP P) ready (mechanism c) accept (s @ input @ later)"
  shows "\<exists>n c'. feed c input = (Ok n, c')"
proof -
  let ?T = "target_of P" and ?CAP = "FRAME_CAP P"
  have link: "link_inv ?CAP accept c" and acc: "auth c = accept" using inv by (auto simp: client_inv_def link_inv_def)
  obtain fs where L: "link_rel ?T ?CAP ready fs c s" using rel by (auto simp: client_rel_def)
  from good obtain v gs r' where M: "meaning_of ?T ?CAP ready (mechanism c) accept (s @ input @ later) = Talking v gs r'"
    and r': "parse_frame ?T ?CAP r' = Incomplete" by (rule good_streamE)
  show ?thesis
  proof (cases "state c")
    case Greeting
    have "64 \<le> length (s @ input @ later)"
      using M by (auto simp: meaning_of_def split: if_splits)
    moreover from this obtain g where "greeting_parser (mechanism c) (take 64 (s @ input @ later)) = Ok g"
      using M by (auto simp: meaning_of_def greeting_parser_def split: outcome.splits Mechanism.splits)
    ultimately show ?thesis
      using feed_greeting_good [OF link, of s input later] L Greeting
      by (auto simp: link_rel_def Let_def feed_eq client_feed_def)
  next
    case Ready
    then obtain r v' where "holds ?T ?CAP (frame_decoder c) r"
      "meaning_of ?T ?CAP ready (mechanism c) accept s = AwaitReady v' r"
      using L acc by (auto simp: link_rel_def Let_def)
    with M meaning_of_append(2) ready_inner_good [of P c r ready _ input later] Ready live show ?thesis
      by (auto simp: feed_eq client_feed_def live_def)
  next
    case PlainReady
    then obtain r v' where "holds ?T ?CAP (frame_decoder c) r"
      "meaning_of ?T ?CAP ready (mechanism c) accept s = AwaitReady v' r"
      using L acc by (auto simp: link_rel_def Let_def)
    with M meaning_of_append(2) ready_inner_good [of P c r ready _ input later] PlainReady live show ?thesis
      by (auto simp: feed_eq client_feed_def live_def)
  next
    case PlainHello
    then obtain r v' where "holds ?T ?CAP (frame_decoder c) r"
      "meaning_of ?T ?CAP ready (mechanism c) accept s = AwaitHello v' r"
      using L acc by (auto simp: link_rel_def Let_def)
    with M meaning_of_append(1) feed_plain_hello_good [of P c r ready _ input later] PlainHello acc show ?thesis
      by (auto simp: feed_eq client_feed_def)
  next
    case Established
    then obtain r v' where h: "holds ?T ?CAP (frame_decoder c) r"
      and m: "meaning_of ?T ?CAP ready (mechanism c) accept s = Talking v' fs r"
      using L acc by (auto simp: link_rel_def Let_def)
    show ?thesis
      using inv
    proof (cases rule: established_cases [where input = input])
      case (bad e d)
      from holds_feed [OF h bad(1)] have "parse_frame ?T ?CAP (r @ input) = Malformed e" by simp
      with parse_frame_append [of ?T ?CAP "r @ input" later] have "parse_frame ?T ?CAP (r @ input @ later) = Malformed e"
        by simp
      with meaning_of_append(3) [OF m, of "input @ later"] M r' show ?thesis by (simp add: frames.simps)
    qed (use Established in \<open>simp_all add: feed_eq client_feed_def\<close>)
  next
    case Failed
    with live show ?thesis by (simp add: live_def)
  qed
qed

end

end
