(* ===== verification/Drive_Progress.thy ===== *)
theory Drive_Progress
  imports Client_Progress
begin

text \<open>
  A driver with a good peer on a transport that works: no poll fails until everything the peer has
  sent is consumed, and there are at most as many polls as bytes.
\<close>

section \<open>A transport that works\<close>

text \<open>
  What the peer has still to deliver is \<^verbatim>\<open>coming t\<close>: a read with room in the buffer delivers
  something of it, however little, and 0 only at the end; writes are accepted.
\<close>

locale reliable_stream = byte_stream +
  fixes coming :: "'a \<Rightarrow> bytes"
  assumes read_gives: "t_read T t buf = (r, buf', t') \<Longrightarrow> buf \<noteq> [] \<Longrightarrow>
      \<exists>n. r = Ok n \<and> (coming t \<noteq> [] \<longrightarrow> 0 < n) \<and> coming t = take n buf' @ coming t'"
    and write_accepts: "t_write_all T t bs = (q, t') \<Longrightarrow> q = Ok () \<and> coming t' = coming t"

locale reliable_client = driver_client + reliable_stream
begin

lemma transmit_good:
  "\<exists>t. transmit T d bs = (Ok (), d\<lparr>transport := t\<rparr>) \<and> coming t = coming (transport d)"
proof -
  obtain r t where t: "t_write_all T (transport d) bs = (r, t)" by fastforce
  from write_accepts [OF t] t show ?thesis by (auto simp: transmit_def)
qed

lemma gen_send_good:
  assumes "exec (conn d) a = ((Ok n, out), c)" and "n \<le> length out"
  shows "\<exists>d'. gen_send exec T a d = (Ok (), d') \<and> coming (transport d') = coming (transport d)"
  using assms transmit_good [of "d\<lparr>conn := c\<rparr>" "take n out"] by (auto simp: gen_send_def)

lemma gen_ready_good:
  assumes "state (conn d) = Ready \<or> mechanism (conn d) = Plain \<and> state (conn d) = PlainReady \<and> our_welcome_sent (conn d)"
    and "\<not> our_ready_sent (conn d)"
  shows "\<exists>d'. gen_ready exec T d = (Ok (), d') \<and> coming (transport d') = coming (transport d)"
  by (rule gen_send_good) (use assms ready_fits in \<open>auto simp: exec_calls client_write_ready_def\<close>)

lemma gen_welcome_good:
  assumes "link_inv CAP accept (conn d)" "mechanism (conn d) = Plain" "state (conn d) = PlainReady" "\<not> our_welcome_sent (conn d)"
  shows "\<exists>d'. gen_welcome exec T d = (Ok (), d') \<and> coming (transport d') = coming (transport d)"
proof -
  have "length WELCOME_FRAME = 10" by (simp add: WELCOME_FRAME_def)
  then show ?thesis
    by (intro gen_send_good) (use assms in \<open>auto simp: exec_calls write_welcome_eq\<close>)
qed

lemma gen_pong_good:
  assumes link: "link_inv CAP accept (conn d)" and "state (conn d) = Established \<or> pending_pong (conn d) = None"
  shows "\<exists>d'. gen_pong exec T d = (Ok (), d') \<and> coming (transport d') = coming (transport d)"
proof (cases "pending_pong (conn d)")
  case None
  then show ?thesis by (simp add: gen_pong_def)
next
  case (Some p)
  obtain ctx n where p: "p = (ctx, n)" by fastforce
  have n: "length ctx = 16" "n \<le> 16" using link Some p by (auto simp: link_inv_def)
  have "exec (conn d) (WritePong (replicate 23 0)) =
      ((Ok (7 + n), wire_frame (pong_frame (take n ctx)) @ replicate (16 - n) 0), (conn d)\<lparr>pending_pong := None\<rparr>)"
    using n by (simp add: exec_calls write_pong_eq [OF link] Some p)
  from gen_send_good [OF this] n show ?thesis
    by (simp add: gen_pong_def Some wire_frame_def pong_frame_def command_body_def length_frame_header)
qed

text \<open>What the peer will have sent in the end.\<close>

abbreviation (input) all_bytes where
  "all_bytes d \<equiv> received (transport d) @ coming (transport d)"

abbreviation (input) good where
  "good m accept d \<equiv> good_stream (target_of P) (FRAME_CAP P) ready m accept (all_bytes d)"

lemma loop_good:
  "ok m accept us k d \<Longrightarrow> good m accept d \<Longrightarrow>
     \<exists>k' d'. gen_loop exec T k d = (Ok k', d') \<and> coming (transport d') = coming (transport d)"
proof (induction "rx_len d - k" arbitrary: us k d rule: less_induct)
  case less
  show ?case
  proof (cases "k < rx_len d")
    case False
    then show ?thesis by (simp add: gen_loop.simps [of exec T k d])
  next
    case k: True
    have len: "rx_len d \<le> length (rx_buf d)" and d: "inv accept (conn d)" "live (conn d)" "mechanism (conn d) = m"
      using less.prems(1) by (auto simp: driver_ok_def)
    obtain s where s: "rel (conn d) s" "received (transport d) = s @ rest k d"
      using less.prems(1) by (auto simp: driver_ok_def)
    have "good_stream (target_of P) (FRAME_CAP P) ready (mechanism (conn d)) accept (s @ rest k d @ coming (transport d))"
      using less.prems(2) s(2) d(3) by simp
    from feed_good [OF d(1,2) s(1) this] obtain n c where feed: "feed (conn d) (rest k d) = (Ok n, c)" by blast
    then have f: "exec (conn d) (Feed (rest k d)) = ((Ok n, []), c)" by (simp add: exec_calls)
    have loop: "gen_loop exec T k d =
        (if state (conn d) = Greeting \<and> state c = Ready then
           try_then (gen_ready exec T (d\<lparr>conn := c\<rparr>)) (\<lambda>_ d. (Ok (k + n), d))
         else if state (conn d) = PlainHello \<and> state c = PlainReady then
           try_then (gen_welcome exec T (d\<lparr>conn := c\<rparr>)) (\<lambda>_ d. try_then (gen_ready exec T d) (\<lambda>_ d. (Ok (k + n), d)))
         else
           (case gen_pong exec T (d\<lparr>conn := c\<rparr>) of
              (Ok _, d) \<Rightarrow> if n = 0 then (Ok (k + n), d) else gen_loop exec T (k + n) d
            | (Err e, d) \<Rightarrow> (Err e, d)
            | (Panic, d) \<Rightarrow> (Panic, d)))"
      using k len f by (subst gen_loop.simps) (simp add: Let_def rest_def)
    note step = after_feed [OF less.prems(1) k f]
    have link: "link_inv (FRAME_CAP P) accept c" using step by (simp add: client_inv_def)
    consider (ready) "state (conn d) = Greeting" "state c = Ready"
      | (hello) "state (conn d) = PlainHello" "state c = PlainReady"
      | (other) "\<not> (state (conn d) = Greeting \<and> state c = Ready)" "\<not> (state (conn d) = PlainHello \<and> state c = PlainReady)"
      by blast
    then show ?thesis
    proof cases
      case ready
      with d step have "\<not> our_ready_sent c" by (auto simp: live_def live_step_def)
      with gen_ready_good [of "d\<lparr>conn := c\<rparr>"] ready loop show ?thesis by auto
    next
      case hello
      with d step have c: "\<not> our_ready_sent c" "\<not> our_welcome_sent c" "mechanism c = Plain"
        by (auto simp: live_def live_step_def)
      from gen_welcome_good [of "FRAME_CAP P" accept "d\<lparr>conn := c\<rparr>"] link c hello obtain d1 where
        w: "gen_welcome exec T (d\<lparr>conn := c\<rparr>) = (Ok (), d1)" "coming (transport d1) = coming (transport d)" by auto
      from gen_welcome_ok [OF w(1)] have "conn d1 = c\<lparr>our_welcome_sent := True\<rparr>" by auto
      with c hello gen_ready_good [of d1] w loop show ?thesis by auto
    next
      case other
      have "state c = Established \<or> pending_pong c = None" using step by (auto simp: live_step_def)
      with gen_pong_good [of "FRAME_CAP P" accept "d\<lparr>conn := c\<rparr>"] link obtain d1 where
        p: "gen_pong exec T (d\<lparr>conn := c\<rparr>) = (Ok (), d1)" "coming (transport d1) = coming (transport d)" by auto
      from step_pong [OF less.prems(1) k f other p(1)] obtain us1 where
        us1: "ok m accept (us @ us1) (k + n) d1" "rx_len d1 = rx_len d" "0 < n"
          "received (transport d1) = received (transport d)" by blast
      have smaller: "rx_len d1 - (k + n) < rx_len d - k" using us1 k by simp
      from less.hyps [OF smaller us1(1)] less.prems(2) us1(4) p(2) obtain k' d' where
        "gen_loop exec T (k + n) d1 = (Ok k', d')" "coming (transport d') = coming (transport d)" by auto
      with loop other p us1(3) show ?thesis by auto
    qed
  qed
qed

lemma discard_transport: "transport (snd (discard k d)) = transport d"
  by (auto simp: discard_def attempt_def split: outcome.splits)

lemma drain_good:
  assumes "ok m accept us 0 d" "good m accept d" "0 < rx_len d"
  shows "\<exists>d'. gen_drain exec T d = (Ok (), d') \<and> coming (transport d') = coming (transport d)"
proof -
  from loop_good [OF assms(1,2)] obtain k d1 where
    l: "gen_loop exec T 0 d = (Ok k, d1)" "coming (transport d1) = coming (transport d)" by blast
  from loop_ok [OF assms(1) l(1)] obtain us' where "ok m accept (us @ us') k d1" by blast
  from discard_ok [OF this] l show ?thesis by (auto simp: gen_drain_def)
qed

text \<open>The number of bytes that are still to be consumed.\<close>

abbreviation (input) ahead where
  "ahead d \<equiv> rx_len d + length (coming (transport d))"

lemma poll_good:
  assumes ok: "ok m accept us 0 d" and gd: "good m accept d" and ahead: "0 < ahead d"
  shows "\<exists>b d' us'. gen_poll exec T d = (Ok b, d') \<and> list_all is_pong us' \<and> ok m accept (us @ us') 0 d' \<and>
    all_bytes d' = all_bytes d \<and> ahead d' < ahead d"
proof -
  have "\<exists>b d'. gen_poll exec T d = (Ok b, d') \<and> all_bytes d' = all_bytes d"
  proof (cases "0 < rx_len d")
    case True
    from drain_good [OF ok gd True] obtain d' where
      d': "gen_drain exec T d = (Ok (), d')" "coming (transport d') = coming (transport d)" by blast
    from drain_ok [OF ok d'(1) True] have "received (transport d') = received (transport d)" by blast
    with d' poll_drains [OF ok True] show ?thesis by simp
  next
    case False
    have len: "length (rx_buf d) = 512" using ok by (simp add: driver_ok_def)
    obtain r buf t where t: "t_read T (transport d) (rx_buf d) = (r, buf, t)" by (metis prod.exhaust)
    have ne: "rx_buf d \<noteq> []" using len by auto
    from read_gives [OF t ne] obtain n where n: "r = Ok n" "coming (transport d) \<noteq> [] \<longrightarrow> 0 < n"
      "coming (transport d) = take n buf @ coming t" by blast
    have pos: "0 < n" using n(2) ahead False by simp
    define d1 where "d1 = d\<lparr>rx_buf := buf, transport := t\<rparr>"
    have rc: "receive T d = (Ok n, d1)" using t n(1) False len by (simp add: receive_def d1_def)
    from read_ok [OF t [unfolded n(1)]] have all: "received t @ coming t = all_bytes d" using n(3) by simp
    let ?d = "d1\<lparr>rx_len := rx_len d1 + n\<rparr>"
    have ok1: "ok m accept us 0 ?d" using receive_ok [OF ok rc] by blast
    have "good m accept ?d" using gd all by (simp add: d1_def)
    from drain_good [OF ok1 this] pos obtain d' where
      d': "gen_drain exec T ?d = (Ok (), d')" "coming (transport d') = coming t" by (auto simp: d1_def)
    from drain_ok [OF ok1 d'(1)] pos have "received (transport d') = received t" by (auto simp: d1_def)
    with all d' rc pos poll_reads [OF ok] False show ?thesis
      by (intro exI [of _ "state (conn d') = Established"] exI [of _ d']) (simp add: gen_read_def)
  qed
  then obtain b d' where poll: "gen_poll exec T d = (Ok b, d')" and all: "all_bytes d' = all_bytes d" by blast
  from poll_ok [OF ok poll] obtain us' where us': "list_all is_pong us'" "ok m accept (us @ us') 0 d'"
    "length (received (transport d)) - rx_len d < length (received (transport d')) - rx_len d'" by blast
  have "ahead d' < ahead d"
    using us'(3) ok_consumed [OF ok] ok_consumed [OF us'(2)] arg_cong [OF all, of length] by simp
  with poll us' all show ?thesis by blast
qed

lemma poll_end:
  assumes ok: "ok m accept us 0 d" and "ahead d = 0"
  shows "fst (gen_poll exec T d) = Err (IoError 0)"
proof -
  have len: "length (rx_buf d) = 512" using ok by (simp add: driver_ok_def)
  obtain r buf t where t: "t_read T (transport d) (rx_buf d) = (r, buf, t)" by (metis prod.exhaust)
  have ne: "rx_buf d \<noteq> []" using len by auto
  from read_gives [OF t ne] obtain n where n: "r = Ok n" "coming (transport d) = take n buf @ coming t" by blast
  from read_ok [OF t [unfolded n(1)]] n(2) assms(2) len have "n = 0" by auto
  with t n(1) len assms(2) have "receive T d = (Ok 0, d\<lparr>rx_buf := buf, transport := t\<rparr>)" by (simp add: receive_def)
  with poll_reads [OF ok] assms(2) show ?thesis by (simp add: gen_read_def)
qed

lemma run_append_one: "run step d [a] = (let (r, d') = step d a in ([r], d'))"
  by (simp split: prod.splits)

text \<open>Polling until there is nothing left.\<close>

lemma polls_good:
  assumes step: "\<And>d. step d Poll = try_then (gen_poll exec T d) (\<lambda>b d. (Ok (of_bool b), d))"
  shows "ok m accept us 0 d \<Longrightarrow> good m accept d \<Longrightarrow>
    \<exists>n rs d' us'. n \<le> ahead d \<and> run step d (replicate n Poll) = (rs, d') \<and> all_ok rs \<and> list_all is_pong us' \<and>
      ok m accept (us @ us') 0 d' \<and> all_bytes d' = all_bytes d \<and> ahead d' = 0"
proof (induction "ahead d" arbitrary: us d rule: less_induct)
  case less
  show ?case
  proof (cases "ahead d = 0")
    case True
    with less.prems show ?thesis by (intro exI [of _ 0] exI [of _ "[]"] exI [of _ d]) simp
  next
    case False
    with poll_good [OF less.prems] obtain b d1 us1 where
      d1: "gen_poll exec T d = (Ok b, d1)" "list_all is_pong us1" "ok m accept (us @ us1) 0 d1"
        "all_bytes d1 = all_bytes d" "ahead d1 < ahead d" by blast
    have "good m accept d1" using less.prems(2) d1(4) by simp
    from less.hyps [OF d1(5,3) this] obtain n rs d' us' where
      n: "n \<le> ahead d1" "run step d1 (replicate n Poll) = (rs, d')" "all_ok rs" "list_all is_pong us'"
        "ok m accept ((us @ us1) @ us') 0 d'" "all_bytes d' = all_bytes d1" "ahead d' = 0" by (elim exE conjE) (rule that)
    then have "run step d (replicate (Suc n) Poll) = (Ok (of_bool b) # rs, d')"
      using d1(1) by (simp add: step)
    with n d1 show ?thesis
      by (intro exI [of _ "Suc n"] exI [of _ "Ok (of_bool b) # rs"] exI [of _ d'] exI [of _ "us1 @ us'"]) auto
  qed
qed

lemma new_good:
  assumes fresh: "fresh (FRAME_CAP P) m accept c0"
  shows "\<exists>d. gen_new exec T c0 t = Ok d \<and> rx_len d = 0 \<and> received (transport d) = received t \<and> coming (transport d) = coming t"
proof -
  have greeting: "length (our_greeting m) = 64"
    by (cases m) (simp_all add: our_greeting_def greeting_values)
  have g: "exec c0 (WriteGreeting (replicate 64 0)) = ((Ok 64, our_greeting m), c0\<lparr>our_greeting_sent := True\<rparr>)"
    using fresh by (simp add: exec_calls write_greeting_eq fresh_def our_greeting_def split: Mechanism.splits)
  obtain r t' where t': "t_write_all T t (our_greeting m) = (r, t')" by fastforce
  from write_accepts [OF t'] have r: "r = Ok ()" "coming t' = coming t" by auto
  with write_ok [OF t' [unfolded r(1)]] t' g greeting show ?thesis by (simp add: gen_new_def)
qed

text \<open>Everything together: a new driver, polled until the end of the stream.\<close>

lemma driver_completes:
  assumes fresh: "fresh (FRAME_CAP P) m accept c0" and inv: "inv accept c0" and rel: "rel c0 []"
    and t: "received t = []" "sent t = []"
    and step: "\<And>d. step d Poll = try_then (gen_poll exec T d) (\<lambda>b d. (Ok (of_bool b), d))"
    and M: "meaning_of (target_of P) (FRAME_CAP P) ready m accept (coming t) = Talking v fs r"
    and r: "parse_frame (target_of P) (FRAME_CAP P) r = Incomplete"
  shows "\<exists>d0 n rs d us. gen_new exec T c0 t = Ok d0 \<and> n \<le> length (coming t) \<and>
    run step d0 (replicate n Poll) = (rs, d) \<and> all_ok rs \<and>
    state (conn d) = Established \<and> peer_version_minor (conn d) = v \<and> contents (conn d) = foldl effect init fs \<and>
    list_all is_pong us \<and> ok m accept us 0 d \<and> fst (gen_poll exec T d) = Err (IoError 0)"
proof -
  from new_good [OF fresh, of t] t obtain d0 where d0: "gen_new exec T c0 t = Ok d0" "rx_len d0 = 0"
    "received (transport d0) = []" "coming (transport d0) = coming t" by auto
  from new_ok [OF fresh inv rel d0(1) t] have ok0: "ok m accept [] 0 d0" .
  have gd: "good m accept d0" using M r by (simp add: d0 good_stream_def)
  from polls_good [of step, OF step ok0 gd] obtain n rs d us where
    n: "n \<le> length (coming t)" "run step d0 (replicate n Poll) = (rs, d)" "all_ok rs" "list_all is_pong us"
      "ok m accept us 0 d" "all_bytes d = coming t" "ahead d = 0" by (auto simp: d0)
  from n(5,7) obtain s where s: "rel (conn d) s" "received (transport d) = s"
    and c: "inv accept (conn d)" "live (conn d)" "mechanism (conn d) = m"
    by (auto simp: driver_ok_def rest_def)
  have all: "s = coming t" using n(6,7) s(2) by simp
  have "state (conn d) \<noteq> Greeting"
  proof
    assume g: "state (conn d) = Greeting"
    then have "length s < 64" using s(1) c(2) by (auto simp: client_rel_def link_rel_def Let_def live_def)
    with M all show False by (simp add: meaning_of_def)
  qed
  with rel_stage [OF c(1) s(1) refl] M c(2,3) all
  have "state (conn d) = Established" "peer_version_minor (conn d) = v" "contents (conn d) = foldl effect init fs"
    by (cases "state (conn d)"; simp add: live_def)+
  with d0(1) n poll_end [OF n(5,7)] show ?thesis by blast
qed

end

end
