(* ===== verification/Drive_Failure.thy ===== *)
theory Drive_Failure
  imports Drive_Progress Mock_Transport
begin

text \<open>
  What a failed write does to a driver: the connection has consumed bytes that stay in the buffer,
  and the next poll feeds them to it again. The transports of the tests as instances: the mock transport works,
  the failing one is a byte stream.
\<close>

section \<open>READY that cannot be sent\<close>

lemma feed_greeting_within:
  assumes "link_inv CAP accept c" and "feed_greeting c input = (Ok n, c')"
  shows "greeting_pos c + n \<le> 64"
  using assms(2) assms(1) unfolding feed_greeting_eq [OF assms(1)]
  by (auto simp: Let_def attempt_def link_inv_def split: outcome.splits if_splits)

text \<open>
  A driver that is out of step: its buffer begins with bytes that the connection has consumed already. \<^verbatim>\<open>s\<close> is what
  it had consumed and discarded before; with it these bytes are the 64 bytes of the greeting.
\<close>

definition out_of_step :: "('c link_scheme \<Rightarrow> bool) \<Rightarrow> ('c link_scheme \<Rightarrow> bytes \<Rightarrow> bool) \<Rightarrow> ('t \<Rightarrow> bytes) \<Rightarrow>
    ('c link_scheme, 't) Driver \<Rightarrow> bytes \<Rightarrow> bool" where
  "out_of_step I R received d s \<longleftrightarrow> I (conn d) \<and> mechanism (conn d) = Null \<and> state (conn d) = Ready \<and> our_ready_sent (conn d) \<and>
     length (rx_buf d) = 512 \<and> rx_len d \<le> 512 \<and> length s < 64 \<and> 64 \<le> length s + rx_len d \<and>
     received (transport d) = s @ rest 0 d \<and> R (conn d) (s @ take (64 - length s) (rest 0 d))"

context driver_client begin

lemma gen_ready_err:
  assumes "gen_ready exec T d = (Err e, d')" and "state (conn d) = Ready" and "\<not> our_ready_sent (conn d)"
  shows "\<exists>t. d' = d\<lparr>conn := (conn d)\<lparr>our_ready_sent := True\<rparr>, transport := t\<rparr> \<and> received t = received (transport d)"
proof -
  let ?d = "d\<lparr>conn := (conn d)\<lparr>our_ready_sent := True\<rparr>\<rparr>"
  have "transmit T ?d ready_frame = (Err e, d')"
    using assms ready_fits by (simp add: gen_send_def exec_calls client_write_ready_def)
  moreover obtain r t where t: "t_write_all T (transport d) ready_frame = (r, t)" by fastforce
  ultimately have "\<exists>e. r = Err e" "d' = ?d\<lparr>transport := t\<rparr>" by (auto simp: transmit_def map_err_eq_Err)
  with t write_err [of "transport d" ready_frame] show ?thesis by auto
qed

abbreviation (input) stale where
  "stale accept \<equiv> out_of_step (inv accept) rel received"

lemma loop_unsent_ready:
  assumes "ok Null accept us k d" and "state (conn d) = Greeting"
    and "gen_loop exec T k d = (Err e, d1)" and "state (conn d1) = Ready"
  shows "\<exists>s j. rel (conn d1) s \<and> length s = 64 \<and> k < j \<and> j \<le> rx_len d \<and>
    received (transport d1) = s @ rest j d \<and> received (transport d1) = received (transport d) \<and>
    our_ready_sent (conn d1) \<and> mechanism (conn d1) = Null \<and> inv accept (conn d1) \<and> rx_buf d1 = rx_buf d \<and> rx_len d1 = rx_len d"
  using assms
proof (induction "rx_len d - k" arbitrary: us k d rule: less_induct)
  case less
  note ok = less.prems(1) and st = less.prems(2)
  have d: "inv accept (conn d)" "live (conn d)" "rx_len d \<le> length (rx_buf d)" "mechanism (conn d) = Null"
    using ok by (simp_all add: driver_ok_def)
  have link: "link_inv (FRAME_CAP P) accept (conn d)" using d(1) by (simp add: client_inv_def)
  have k: "k < rx_len d"
    using less.prems(3) by (cases "k < rx_len d") (simp_all add: gen_loop.simps [of exec T k d])
  obtain r out c where f: "exec (conn d) (Feed (rest k d)) = ((r, out), c)" by (metis prod.exhaust)
  then have feed: "feed (conn d) (rest k d) = (r, c)" by (auto simp: exec_calls split: prod.splits)
  have loop: "gen_loop exec T k d =
      (case r of
         Ok n \<Rightarrow>
           if state c = Ready then try_then (gen_ready exec T (d\<lparr>conn := c\<rparr>)) (\<lambda>_ d. (Ok (k + n), d))
           else
             (case gen_pong exec T (d\<lparr>conn := c\<rparr>) of
                (Ok _, d) \<Rightarrow> if n = 0 then (Ok (k + n), d) else gen_loop exec T (k + n) d
              | (Err e, d) \<Rightarrow> (Err e, d)
              | (Panic, d) \<Rightarrow> (Panic, d))
       | Err e \<Rightarrow> try_then (gen_error exec T (d\<lparr>conn := c\<rparr>)) (\<lambda>_ d. (Err e, d))
       | Panic \<Rightarrow> (Panic, d\<lparr>conn := c\<rparr>))"
    using k d(3) f st by (subst gen_loop.simps) (simp add: Let_def rest_def split: outcome.splits)
  note run = less.prems(3) [unfolded loop]
  show ?case
  proof (cases r)
    case Panic
    with run show ?thesis by simp
  next
    case (Err e')
    have "state c = Greeting \<or> state c = Failed"
      using client_feed_err_state [of P ready handler "conn d" "rest k d" e' c] feed Err st by (simp add: feed_eq)
    moreover have "conn d1 = c"
      using run Err by (auto simp: try_then_eq split: outcome_splits dest!: arg_cong [of _ _ "\<lambda>r. conn (snd r)"])
    ultimately show ?thesis using less.prems(4) by simp
  next
    case (Ok n)
    note f = f [unfolded Ok]
    note step = after_feed [OF ok k f]
    show ?thesis
    proof (cases "state c = Ready")
      case True
      have sent: "\<not> our_ready_sent c" using step d(2) st by (simp add: live_step_def live_def)
      have g: "gen_ready exec T (d\<lparr>conn := c\<rparr>) = (Err e, d1)"
        using run Ok True by (auto simp: try_then_eq split: outcome_splits)
      obtain t where t: "d1 = d\<lparr>conn := c\<lparr>our_ready_sent := True\<rparr>, transport := t\<rparr>" "received t = received (transport d)"
        using gen_ready_err [OF g] True sent by auto
      obtain s0 where s0: "rel (conn d) s0" "received (transport d) = s0 @ rest k d"
        using ok by (auto simp: driver_ok_def)
      have "feed_greeting (conn d) (rest k d) = (Ok n, c)" using feed Ok st by (simp add: feed_eq client_feed_def)
      from feed_greeting_within [OF link this] have "greeting_pos (conn d) + n \<le> 64" .
      moreover have "greeting_pos (conn d) = length s0"
        using s0(1) st by (auto simp: client_rel_def link_rel_def Let_def)
      moreover have rel: "rel c (s0 @ take n (rest k d))"
        using feed_rel [OF d(1) s0(1) feed] Ok by simp
      moreover have "64 \<le> length (s0 @ take n (rest k d))"
        using rel True by (auto simp: client_rel_def link_rel_def Let_def meaning_of_def split: if_splits)
      ultimately have "length (s0 @ take n (rest k d)) = 64" by simp
      moreover have "received (transport d) = (s0 @ take n (rest k d)) @ rest (k + n) d"
        using s0(2) by (simp flip: drop_rest)
      ultimately show ?thesis using t rel step
        by (intro exI [of _ "s0 @ take n (rest k d)"] exI [of _ "k + n"]) simp
    next
      case False
      have "state c = Greeting" using step st False d(4) by (simp add: live_step_def)
      obtain u d2 where p: "gen_pong exec T (d\<lparr>conn := c\<rparr>) = (Ok u, d2)"
        using step d(2) st False \<open>state c = Greeting\<close> by (auto simp: gen_pong_def live_step_def)
      with step \<open>state c = Greeting\<close> have d2: "d2 = d\<lparr>conn := c\<rparr>"
        by (auto simp: gen_pong_def live_step_def)
      from step_pong [OF ok k f _ _ p] \<open>state c = Greeting\<close> st obtain us' where
        "ok Null accept (us @ us') (k + n) d2" "0 < n" by auto
      note next_ok = this
      have rec: "gen_loop exec T (k + n) d2 = (Err e, d1)" using next_ok(2) p run Ok False by simp
      have "rx_len d2 - (k + n) < rx_len d - k" using next_ok(2) d2 k by simp
      from less.hyps [OF this next_ok(1) _ rec less.prems(4)] \<open>state c = Greeting\<close> d2 obtain s j where
        "rel (conn d1) s" "length s = 64" "k + n < j" "j \<le> rx_len d2" "received (transport d1) = s @ rest j d2"
        "received (transport d1) = received (transport d2)" "our_ready_sent (conn d1)" "mechanism (conn d1) = Null" "inv accept (conn d1)"
        "rx_buf d1 = rx_buf d2" "rx_len d1 = rx_len d2"
        by auto
      then show ?thesis by (intro exI [of _ s] exI [of _ j]) (simp add: d2)
    qed
  qed
qed

lemma drain_unsent_ready:
  assumes ok: "ok Null accept us 0 d" and st: "state (conn d) = Greeting"
    and r: "gen_drain exec T d = (Err e, d1)" "state (conn d1) = Ready"
  shows "\<exists>s. stale accept d1 s"
proof -
  have d: "length (rx_buf d) = 512" "rx_len d \<le> 512" "live (conn d)" using ok by (simp_all add: driver_ok_def)
  obtain q d' where l: "gen_loop exec T 0 d = (q, d')" by fastforce
  have loop: "gen_loop exec T 0 d = (Err e, d1)"
  proof (cases q)
    case (Ok k)
    from loop_ok [OF ok l [unfolded Ok]] obtain us' where "ok Null accept (us @ us') k d'" by blast
    from discard_ok [OF this] r(1) l Ok show ?thesis by (auto simp: gen_drain_def split: if_splits)
  qed (use r(1) l in \<open>auto simp: gen_drain_def\<close>)
  from loop_unsent_ready [OF ok st this r(2)] obtain s j where s: "rel (conn d1) s" "length s = 64" "j \<le> rx_len d"
    "received (transport d1) = s @ rest j d" "received (transport d1) = received (transport d)"
    "our_ready_sent (conn d1)" "mechanism (conn d1) = Null" "inv accept (conn d1)" "rx_buf d1 = rx_buf d" "rx_len d1 = rx_len d"
    by auto
  obtain s0 where s0: "rel (conn d) s0" "received (transport d) = s0 @ rest 0 d" using ok by (auto simp: driver_ok_def)
  have "length s0 = greeting_pos (conn d)" using s0(1) st by (auto simp: client_rel_def link_rel_def Let_def)
  then have short: "length s0 < 64" using d(3) st by (simp add: live_def)
  have "rest 0 d = take j (rest 0 d) @ rest j d" using drop_rest [of j 0 d] by (metis add_0 append_take_drop_id)
  then have "s = s0 @ take j (rest 0 d)" using s(4,5) s0(2) by (metis append_assoc append_same_eq)
  moreover have "length (take j (rest 0 d)) = j" using s(3) d by (simp add: length_rest)
  moreover from calculation have "j = 64 - length s0" using s(2) by (metis add_diff_cancel_left' length_append)
  ultimately have "s = s0 @ take (64 - length s0) (rest 0 d)" "64 - length s0 \<le> rx_len d" using s(3) by simp_all
  then show ?thesis
    using s s0(2) short d r(2) by (intro exI [of _ s0]) (auto simp: out_of_step_def rest_def)
qed

lemma poll_unsent_ready:
  assumes ok: "ok Null accept us 0 d" and st: "state (conn d) = Greeting"
    and r: "gen_poll exec T d = (Err e, d1)" "state (conn d1) = Ready"
  shows "\<exists>s. stale accept d1 s"
proof (cases "0 < rx_len d")
  case True
  with r(1) have "gen_drain exec T d = (Err e, d1)"
    unfolding poll_drains [OF ok True] by (auto simp: try_then_eq split: outcome_splits)
  from drain_unsent_ready [OF ok st this r(2)] show ?thesis .
next
  case False
  then have rd: "gen_read exec T d = (Err e, d1)" using r(1) poll_reads [OF ok] by simp
  obtain q d' where rc: "receive T d = (q, d')" by fastforce
  have c: "conn d' = conn d" using rc by (metis receive_conn snd_conv)
  obtain n where n: "q = Ok n" "0 < n" "gen_drain exec T (d'\<lparr>rx_len := rx_len d' + n\<rparr>) = (Err e, d1)"
    using rd rc c st r(2) by (cases q) (auto simp: gen_read_def try_then_eq split: if_splits outcome_splits)
  from receive_ok [OF ok rc [unfolded n(1)]] have "ok Null accept us 0 (d'\<lparr>rx_len := rx_len d' + n\<rparr>)" by blast
  from drain_unsent_ready [OF this _ n(3) r(2)] c st show ?thesis by simp
qed

text \<open>The next poll feeds the same bytes again, and an error of the connection is its result.\<close>

lemma gen_error_Ok: "fst (gen_error exec T d) = Ok ()"
proof -
  define frame where "frame = wire_frame \<lparr>df_more = False, df_is_command = True,
      df_body = command_body (ascii ''ERROR'') (command_body (ascii ''Invalid socket type'') [])\<rparr>"
  have "length frame \<le> 32"
    by (simp add: frame_def wire_frame_def command_body_def length_frame_header)
  then have "exec c (WriteError (replicate 32 0)) = ((Ok (length frame), frame @ drop (length frame) (replicate 32 0)), c)" for c
    by (simp add: exec_calls write_error_eq frame_def Let_def)
  moreover obtain r d' where "transmit T d frame = (r, d')" "r \<noteq> Panic"
    using transmit_not_Panic [of d frame] by (metis prod.collapse)
  ultimately show ?thesis by (cases r) (simp_all add: gen_error_def)
qed

lemma poll_feeds_again:
  assumes d: "stale accept d s" and f: "feed (conn d) (rest 0 d) = (Err e, c)"
  shows "fst (gen_poll exec T d) = Err e"
proof -
  have rx: "0 < rx_len d" "rx_len d \<le> length (rx_buf d)" using d by (auto simp: out_of_step_def)
  have "fst (gen_loop exec T 0 d) = Err e"
    using rx f gen_error_Ok [of "d\<lparr>conn := c\<rparr>"]
    by (subst gen_loop.simps) (auto simp: rest_def exec_calls Let_def try_then_eq split: outcome_splits)
  then have "fst (gen_drain exec T d) = Err e" by (auto simp: gen_drain_def try_then_eq split: outcome_splits)
  moreover have "exec (conn d) (WriteReady (replicate 32 0)) = ((Err WrongState, replicate 32 0), conn d)"
    using d by (simp add: exec_calls client_write_ready_def out_of_step_def)
  ultimately show ?thesis using d rx by (auto simp: gen_poll_def Let_def out_of_step_def try_then_eq split: outcome_splits)
qed

lemma out_of_step_meaning:
  assumes "stale accept d s"
  shows "meaning_of (target_of P) (FRAME_CAP P) ready Null accept (take 64 (s @ rest 0 d))
      = AwaitReady (peer_version_minor (conn d)) []"
    and "holds (target_of P) (FRAME_CAP P) (frame_decoder (conn d)) []"
proof -
  let ?g = "s @ take (64 - length s) (rest 0 d)"
  have d: "inv accept (conn d)" "rel (conn d) ?g" "state (conn d) = Ready" "length s < 64" "64 \<le> length s + rx_len d"
    "length (rest 0 d) = rx_len d"
    using assms(1) by (auto simp: out_of_step_def length_rest)
  then have g: "take 64 (s @ rest 0 d) = ?g" "length ?g = 64" by auto
  obtain r where r: "meaning_of (target_of P) (FRAME_CAP P) ready Null accept ?g = AwaitReady (peer_version_minor (conn d)) r"
    and h: "holds (target_of P) (FRAME_CAP P) (frame_decoder (conn d)) r"
    using d(1-3) assms(1) by (auto simp: out_of_step_def client_rel_def link_rel_def Let_def client_inv_def link_inv_def)
  have "r = []" using r g(2)
    by (auto simp: meaning_of_def await_ready_def after_ready_def split: outcome.splits parsed.splits if_splits prod.splits)
  with r h g(1) show "meaning_of (target_of P) (FRAME_CAP P) ready Null accept (take 64 (s @ rest 0 d))
      = AwaitReady (peer_version_minor (conn d)) []"
    and "holds (target_of P) (FRAME_CAP P) (frame_decoder (conn d)) []"
    by simp_all
qed

lemma poll_stale_signature:
  assumes d: "stale accept d s" and x: "rest 0 d = x # xs" "\<not> flags_ok x"
  shows "fst (gen_poll exec T d) = Err (DecodeError DecodeError.ReservedFlagBits)"
proof -
  obtain r dec where f: "Frame.feed (target_of P) (FRAME_CAP P) (frame_decoder (conn d)) (x # xs) = (r, dec)" by fastforce
  have "parse_frame (target_of P) (FRAME_CAP P) ([x] @ bs) = Malformed DecodeError.ReservedFlagBits" for bs
    using x by (simp add: parse_frame_Cons)
  with holds_feed [OF out_of_step_meaning(2) [OF d] f] have r: "r = Err DecodeError.ReservedFlagBits"
    by (cases r) (auto simp: take_Cons' parse_frame_Cons x split: if_splits option.splits)
  have "feed (conn d) (rest 0 d) = (Err (DecodeError DecodeError.ReservedFlagBits), (conn d)\<lparr>frame_decoder := dec\<rparr>)"
    using f r d by (simp add: x(1) feed_eq client_feed_def ready_inner_def Let_def out_of_step_def)
  from poll_feeds_again [OF d this] show ?thesis .
qed

lemma poll_stale_zeros:
  assumes d: "stale accept d s" and x: "rest 0 d = 0 # 0 # xs"
    and msg: "ready False [] = Err e"
  shows "fst (gen_poll exec T d) = Err (NullError e)"
proof -
  obtain r dec where f: "Frame.feed (target_of P) (FRAME_CAP P) (frame_decoder (conn d)) (0 # 0 # xs) = (r, dec)" by fastforce
  let ?f = "\<lparr>df_more = False, df_is_command = False, df_body = []\<rparr>"
  have p: "parse_frame (target_of P) (FRAME_CAP P) (0 # 0 # xs) = Complete 2 ?f"
    by (simp add: parse_frame_def flags_ok_def be_nat_def Let_def)
  have whole: "parse_frame (target_of P) (FRAME_CAP P) (0 # 0 # xs) = Complete n g"
    if "parse_frame (target_of P) (FRAME_CAP P) (take n (0 # 0 # xs)) = Complete n g" for n g
    using parse_frame_append [of "target_of P" "FRAME_CAP P" "take n (0 # 0 # xs)" "drop n (0 # 0 # xs)"] that
    by (simp del: take_Cons' drop_Cons' take_Suc_Cons)
  note hf = holds_feed [OF out_of_step_meaning(2) [OF d] f, unfolded append_Nil list.size add_0]
  have "\<exists>n. r = Ok (n, Some ?f)"
  proof (cases r)
    case (Ok nf)
    then show ?thesis using hf p whole by (cases nf; cases "snd nf") fastforce+
  qed (use hf p in simp_all)
  then obtain n where r: "r = Ok (n, Some ?f)" ..
  have "feed (conn d) (rest 0 d) = (Err (NullError e), (conn d)\<lparr>frame_decoder := dec, state := Failed\<rparr>)"
    using f r d msg by (simp add: x(1) feed_eq client_feed_def ready_inner_def Let_def out_of_step_def)
  from poll_feeds_again [OF d this] show ?thesis .
qed

end

section \<open>On the transports of the tests\<close>

lemma drop_chunk: "take n (drop p xs) @ drop (p + n) xs = drop p xs"
  by (metis add.commute append_take_drop_id drop_drop)

interpretation mock_reliable: reliable_stream "mock_impl kind"
  "\<lambda>t. take (peer_pos t) (peer_bytes t)" our_bytes "\<lambda>t. drop (peer_pos t) (peer_bytes t)" for kind :: "'k \<Rightarrow> nat"
  by unfold_locales
    (auto simp: mock_impl_def mock_read_eq write_all_mock Let_def min_def drop_chunk split: if_splits)

lemma write_fail_all:
  "write_all_of (write_fail_write bp) t bs =
     (if bs = [] then (Ok (), t)
      else if fail_after t \<le> write_count t then (Err bp, t\<lparr>write_count := write_count t + 1\<rparr>)
      else (Ok (), t\<lparr>write_count := write_count t + 1, w_our_bytes := w_our_bytes t @ bs\<rparr>))"
  by (subst write_all_of.simps) (auto simp: write_fail_write_def Let_def write_all_of.simps [of _ _ "[]"])

lemma write_fail_read_eq:
  "write_fail_read t buf =
     (let bs = take (length buf) (drop (w_peer_pos t) (w_peer_bytes t)) in
      (Ok (length bs), bs @ drop (length bs) buf,
       if length (w_peer_bytes t) \<le> w_peer_pos t then t else t\<lparr>w_peer_pos := w_peer_pos t + length bs\<rparr>))"
  by (simp add: write_fail_read_def Let_def written_def min_def not_le)

interpretation failing: byte_stream "write_fail_impl bp kind" "\<lambda>t. take (w_peer_pos t) (w_peer_bytes t)" w_our_bytes for bp kind
  by unfold_locales
    (auto simp: write_fail_impl_def write_fail_read_eq write_fail_all Let_def min_def take_add split: if_splits)

text \<open>A transport whose reads return at most \<^verbatim>\<open>k\<close> bytes, as a network does that delivers in pieces.\<close>

definition at_most :: "nat \<Rightarrow> ('t, 'e) transport_impl \<Rightarrow> ('t, 'e) transport_impl" where
  "at_most k T = T\<lparr>t_read := (\<lambda>t buf. case t_read T t (take k buf) of (r, b, t) \<Rightarrow> (r, b @ drop k buf, t))\<rparr>"

context byte_stream begin

lemma at_most_stream: "byte_stream (at_most k T) received sent"
proof unfold_locales
  fix t buf n buf' t' assume "t_read (at_most k T) t buf = (Ok n, buf', t')"
  then obtain b where b: "t_read T t (take k buf) = (Ok n, b, t')" "buf' = b @ drop k buf"
    by (auto simp: at_most_def split: prod.splits)
  from read_ok [OF b(1)] b(2)
  show "n \<le> length buf \<and> length buf' = length buf \<and> received t' = received t @ take n buf' \<and> sent t' = sent t"
    by auto
next
  fix t buf e buf' t' assume "t_read (at_most k T) t buf = (Err e, buf', t')"
  then obtain b where b: "t_read T t (take k buf) = (Err e, b, t')" "buf' = b @ drop k buf"
    by (auto simp: at_most_def split: prod.splits)
  from read_err [OF b(1)] b(2) show "length buf' = length buf \<and> received t' = received t \<and> sent t' = sent t" by auto
qed (use read_not_Panic write_not_Panic write_ok write_err in \<open>auto simp: at_most_def split_beta\<close>)

end

end
