(* ===== verification/Driver_Sync.thy ===== *)
theory Driver_Sync
  imports Transport Connection
begin

text \<open>
  The blocking driver of a PUB connection (\<^verbatim>\<open>src/io/sync.rs\<close>). A method takes the driver and returns
  its result with the new driver, whatever the result is.
\<close>

definition new_driver :: "('b, 'v) conn_build \<Rightarrow> ('t, 'e) transport_impl \<Rightarrow> 't \<Rightarrow>
    (('v Connection, 't) Driver, ConnError) outcome" where
  "new_driver P T t =
     (let c = new_connection P;
          greeting = replicate 64 0 in
      case write_greeting c greeting of (r, greeting, c) \<Rightarrow>
        and_then r (\<lambda>n.
        and_then (slice greeting 0 n) (\<lambda>bs.
          case t_write_all T t bs of (r, t) \<Rightarrow>
            and_then (map_err (\<lambda>e. IoError (t_kind T e)) r) (\<lambda>_.
              Ok \<lparr>conn = c, transport = t, rx_buf = replicate 512 0, rx_len = 0\<rparr>))))"

definition new_plain_driver :: "('b, 'v) conn_build \<Rightarrow> ('t, 'e) transport_impl \<Rightarrow> 't \<Rightarrow> authenticator \<Rightarrow>
    (('v Connection, 't) Driver, ConnError) outcome" where
  "new_plain_driver P T t authenticate =
     (let c = new_plain P authenticate;
          greeting = replicate 64 0 in
      case write_greeting c greeting of (r, greeting, c) \<Rightarrow>
        and_then r (\<lambda>n.
        and_then (slice greeting 0 n) (\<lambda>bs.
          case t_write_all T t bs of (r, t) \<Rightarrow>
            and_then (map_err (\<lambda>e. IoError (t_kind T e)) r) (\<lambda>_.
              Ok \<lparr>conn = c, transport = t, rx_buf = replicate 512 0, rx_len = 0\<rparr>))))"

section \<open>Steps of the loop\<close>

text \<open>READY, WELCOME and PONG, each written into a local array and sent.\<close>

definition send_ready :: "('t, 'e) transport_impl \<Rightarrow> ('c link_scheme, 't) Driver \<Rightarrow>
    (unit, ConnError) outcome \<times> ('c link_scheme, 't) Driver" where
  "send_ready T d =
     (case write_ready (conn d) (replicate 32 0) of (r, ready, c) \<Rightarrow>
        try_then (r, d\<lparr>conn := c\<rparr>) (\<lambda>n d. attempt (slice ready 0 n) d (transmit T d)))"

definition send_welcome :: "('t, 'e) transport_impl \<Rightarrow> ('c link_scheme, 't) Driver \<Rightarrow>
    (unit, ConnError) outcome \<times> ('c link_scheme, 't) Driver" where
  "send_welcome T d =
     (case write_welcome (conn d) (replicate WELCOME_LEN 0) of (r, welcome, c) \<Rightarrow>
        try_then (r, d\<lparr>conn := c\<rparr>) (\<lambda>n d. attempt (slice welcome 0 n) d (transmit T d)))"

definition send_pong :: "('t, 'e) transport_impl \<Rightarrow> ('c link_scheme, 't) Driver \<Rightarrow>
    (unit, ConnError) outcome \<times> ('c link_scheme, 't) Driver" where
  "send_pong T d =
     (case write_pong (conn d) (replicate 23 0) of (r, pong_buf, c) \<Rightarrow>
        try_then (r, d\<lparr>conn := c\<rparr>) (\<lambda>n d.
          case n of
            None \<Rightarrow> (Ok (), d)
          | Some n \<Rightarrow> attempt (slice pong_buf 0 n) d (transmit T d)))"

text \<open>The ERROR command after a rejected handshake; its errors are dropped.\<close>

definition send_error :: "('t, 'e) transport_impl \<Rightarrow> ('c link_scheme, 't) Driver \<Rightarrow>
    (unit, ConnError) outcome \<times> ('c link_scheme, 't) Driver" where
  "send_error T d =
     (if state (conn d) = Failed then
        (case write_error (conn d) (replicate 32 0) of
           (Ok n, err_buf) \<Rightarrow>
             attempt (slice err_buf 0 n) d (\<lambda>bs. case transmit T d bs of (r, d) \<Rightarrow> (ignore_err r, d))
         | (Err _, _) \<Rightarrow> (Ok (), d)
         | (Panic, _) \<Rightarrow> (Panic, d))
      else (Ok (), d))"

lemma send_pong_fields [simp]:
  "rx_buf (snd (send_pong T d)) = rx_buf d" "rx_len (snd (send_pong T d)) = rx_len d"
  by (auto simp: send_pong_def attempt_def try_then_eq split: outcome_splits)

section \<open>The driver\<close>

text \<open>
  The loop of \<^verbatim>\<open>drain_buffer\<close>, up to the \<^verbatim>\<open>break\<close> or the end of the buffer: the number of bytes consumed.
  It ends because a step that consumes nothing breaks.
\<close>

function drain_loop :: "('b, 'v) conn_build \<Rightarrow> ('t, 'e) transport_impl \<Rightarrow> nat \<Rightarrow> ('v Connection, 't) Driver \<Rightarrow>
    (nat, ConnError) outcome \<times> ('v Connection, 't) Driver" where
  "drain_loop P T total_consumed d =
     (if total_consumed < rx_len d then
        let prev_state = state (conn d) in
        attempt (slice (rx_buf d) total_consumed (rx_len d)) d (\<lambda>input.
          case feed P (conn d) input of
            (Ok n, c) \<Rightarrow>
              let d = d\<lparr>conn := c\<rparr>;
                  total_consumed = total_consumed + n in
              if prev_state = Greeting \<and> state c = Ready then
                try_then (send_ready T d) (\<lambda>_ d. (Ok total_consumed, d))
              else if prev_state = PlainHello \<and> state c = PlainReady then
                try_then (send_welcome T d) (\<lambda>_ d.
                try_then (send_ready T d) (\<lambda>_ d. (Ok total_consumed, d)))
              else
                (case send_pong T d of
                   (Ok _, d) \<Rightarrow>
                     if n = 0 then (Ok total_consumed, d) else drain_loop P T total_consumed d
                 | (Err e, d) \<Rightarrow> (Err e, d)
                 | (Panic, d) \<Rightarrow> (Panic, d))
          | (Err e, c) \<Rightarrow> try_then (send_error T (d\<lparr>conn := c\<rparr>)) (\<lambda>_ d. (Err e, d))
          | (Panic, c) \<Rightarrow> (Panic, d\<lparr>conn := c\<rparr>))
      else (Ok total_consumed, d))"
  by pat_completeness auto
termination
proof (relation "measure (\<lambda>(P, T, total, d). rx_len d - total)", goal_cases)
  case (2 P T total d)
  then show ?case by (auto dest!: arg_cong [of _ _ "\<lambda>r. rx_len (snd r)"])
qed simp

declare drain_loop.simps [simp del]

definition drain_buffer :: "('b, 'v) conn_build \<Rightarrow> ('t, 'e) transport_impl \<Rightarrow> ('v Connection, 't) Driver \<Rightarrow>
    (unit, ConnError) outcome \<times> ('v Connection, 't) Driver" where
  "drain_buffer P T d =
     try_then (drain_loop P T 0 d) (\<lambda>total_consumed d.
       if 0 < total_consumed then discard total_consumed d else (Ok (), d))"

text \<open>\<^verbatim>\<open>poll\<close>: the READY that is still to be sent, the bytes that are left, or the next read.\<close>

definition poll :: "('b, 'v) conn_build \<Rightarrow> ('t, 'e) transport_impl \<Rightarrow> ('v Connection, 't) Driver \<Rightarrow>
    (bool, ConnError) outcome \<times> ('v Connection, 't) Driver" where
  "poll P T d =
     (let read = (\<lambda>d.
        try_then (receive T d) (\<lambda>n d.
          if n = 0 then (Err (IoError 0), d)
          else
            try_then (drain_buffer P T (d\<lparr>rx_len := rx_len d + n\<rparr>)) (\<lambda>_ d.
              (Ok (state (conn d) = Established), d))));
          drain = (\<lambda>d.
        if 0 < rx_len d then
          let prev_rx_len = rx_len d in
          try_then (drain_buffer P T d) (\<lambda>_ d.
            if rx_len d < prev_rx_len then (Ok (state (conn d) = Established), d) else read d)
        else read d) in
      if state (conn d) = Ready then
        (case write_ready (conn d) (replicate 32 0) of
           (Ok n, ready, c) \<Rightarrow>
             try_then (attempt (slice ready 0 n) (d\<lparr>conn := c\<rparr>) (transmit T (d\<lparr>conn := c\<rparr>))) (\<lambda>_ d. (Ok False, d))
         | (Err WrongState, _, c) \<Rightarrow> drain (d\<lparr>conn := c\<rparr>)
         | (Err e, _, c) \<Rightarrow> (Err e, d\<lparr>conn := c\<rparr>)
         | (Panic, _, c) \<Rightarrow> (Panic, d\<lparr>conn := c\<rparr>))
      else drain d)"

definition driver_publish :: "('b, 'v) conn_build \<Rightarrow> ('t, 'e) transport_impl \<Rightarrow> ('v Connection, 't) Driver \<Rightarrow>
    bytes \<Rightarrow> bytes \<Rightarrow> (nat, ConnError) outcome \<times> ('v Connection, 't) Driver" where
  "driver_publish P T d topic payload =
     attempt (publish_headers P (conn d) topic payload) d (\<lambda>headers.
       case headers of
         None \<Rightarrow> (Ok 0, d)
       | Some (th, th_n, ph, ph_n) \<Rightarrow>
           try_then (attempt (slice th 0 th_n) d (transmit T d)) (\<lambda>_ d.
           try_then (transmit T d topic) (\<lambda>_ d.
           try_then (attempt (slice ph 0 ph_n) d (transmit T d)) (\<lambda>_ d.
           try_then (transmit T d payload) (\<lambda>_ d.
             (Ok (th_n + length topic + ph_n + length payload), d))))))"

end
