(* ===== verification/Driver_Run.thy ===== *)
theory Driver_Run
  imports Drive_Safe Drive_Progress Drive_Failure Connection_Messages Driver_Sync Driver_Async Mock_Transport
begin

text \<open>
  The drivers of a PUB connection are drivers in the sense of \<^verbatim>\<open>Drive\<close>: the blocking one over the
  calls of the connection, and the asynchronous one step by step the same as long as no future is
  dropped.
\<close>

section \<open>The blocking driver\<close>

lemma new_driver_gen:
  "new_driver P T t = gen_new (Connection.exec P) T (new_connection P) t"
  "new_plain_driver P T t accept = gen_new (Connection.exec P) T (new_plain P accept) t"
  by (simp_all add: new_driver_def new_plain_driver_def gen_new_def split: prod.splits)

lemma send_ready_gen: "send_ready T d = gen_ready (Connection.exec P) T d"
  by (simp add: send_ready_def gen_send_def split: prod.splits)

lemma send_welcome_gen: "send_welcome T d = gen_welcome (Connection.exec P) T d"
  by (simp add: send_welcome_def gen_send_def WELCOME_LEN_def split: prod.splits)

lemma send_error_gen: "send_error T d = gen_error (Connection.exec P) T d"
  by (auto simp: send_error_def gen_error_def split: prod.splits outcome.splits)

lemma write_pong_none: "pending_pong c = None \<Longrightarrow> write_pong c out = (Ok None, out, c)"
  by (simp add: write_pong_def)

lemma write_pong_some:
  "pending_pong c = Some p \<Longrightarrow> fst (write_pong c out) \<noteq> Ok None"
  by (cases p) (auto simp: write_pong_def Let_def attempt_def split: outcome.splits)

lemma send_pong_gen: "send_pong T d = gen_pong (Connection.exec P) T d"
proof (cases "pending_pong (conn d)")
  case None
  then show ?thesis by (simp add: send_pong_def gen_pong_def write_pong_none)
next
  case (Some p)
  obtain r out c where w: "write_pong (conn d) (replicate 23 0) = (r, out, c)" by (metis prod.exhaust)
  with write_pong_some [OF Some, of "replicate 23 0"] have "r \<noteq> Ok None" by simp
  with Some w show ?thesis by (cases r) (auto simp: send_pong_def gen_pong_def gen_send_def)
qed

lemma drain_loop_gen: "drain_loop P T k d = gen_loop (Connection.exec P) T k d"
proof (induction "rx_len d - k" arbitrary: k d rule: less_induct)
  case less
  show ?case
  proof (cases "k < rx_len d \<and> rx_len d \<le> length (rx_buf d)")
    case False
    then show ?thesis
      by (cases "k < rx_len d") (simp_all add: drain_loop.simps [of P T k d] gen_loop.simps [of _ T k d] slice_def)
  next
    case True
    obtain r c where f: "Connection.feed P (conn d) (take (rx_len d - k) (drop k (rx_buf d))) = (r, c)" by fastforce
    have rec: "drain_loop P T (k + n) d' = gen_loop (Connection.exec P) T (k + n) d'"
      if "gen_pong (Connection.exec P) T (d\<lparr>conn := c\<rparr>) = (u, d')" "n \<noteq> 0" for n d' u
      using arg_cong [OF that(1), of "\<lambda>r. rx_len (snd r)"] that(2) True by (intro less) (simp, linarith)
    show ?thesis
    proof (cases r)
      case (Ok n)
      with True f rec show ?thesis
        unfolding drain_loop.simps [of P T k d] gen_loop.simps [of _ T k d]
          send_ready_gen [of _ _ P] send_welcome_gen [of _ _ P] send_pong_gen [of _ _ P] send_error_gen [of _ _ P]
        by (cases "gen_pong (Connection.exec P) T (d\<lparr>conn := c\<rparr>)"; cases "fst (gen_pong (Connection.exec P) T (d\<lparr>conn := c\<rparr>))")
          (simp_all add: Let_def)
    qed (use True f in \<open>simp_all add: drain_loop.simps [of P T k d] gen_loop.simps [of _ T k d]
        send_error_gen [of _ _ P] Let_def\<close>)
  qed
qed

lemma drain_buffer_gen: "drain_buffer P T = gen_drain (Connection.exec P) T"
  by (simp add: fun_eq_iff drain_buffer_def gen_drain_def drain_loop_gen)

lemma poll_gen: "poll P T = gen_poll (Connection.exec P) T"
  unfolding poll_def gen_poll_def gen_read_def drain_buffer_gen
  by (intro ext) (simp add: Let_def split: prod.splits outcome.splits ConnError.splits)

lemma driver_publish_gen: "driver_publish P T d topic payload = gen_publish (publish_headers P (conn d) topic payload) T d topic payload"
  by (simp add: driver_publish_def gen_publish_def)

section \<open>The asynchronous driver\<close>

lemma async_send_ready_follows: "stands_for b T A \<Longrightarrow> follows b (async_send_ready A d) (send_ready T d)"
  by (cases "fst (write_ready (conn d) (replicate 32 0))")
    (auto simp: async_send_ready_def send_ready_def intro!: async_slice_follows split: prod.splits)

lemma async_send_welcome_follows: "stands_for b T A \<Longrightarrow> follows b (async_send_welcome A d) (send_welcome T d)"
  by (cases "fst (write_welcome (conn d) (replicate WELCOME_LEN 0))")
    (auto simp: async_send_welcome_def send_welcome_def intro!: async_slice_follows split: prod.splits)

lemma async_send_pong_follows: "stands_for b T A \<Longrightarrow> follows b (async_send_pong A d) (send_pong T d)"
  by (cases "fst (write_pong (conn d) (replicate 23 0))")
    (auto simp: async_send_pong_def send_pong_def intro!: async_slice_follows split: prod.splits option.splits)

lemma async_send_error_follows:
  assumes "stands_for b T A"
  shows "follows b (await_then (async_send_error A d) (\<lambda>_ d. (Completed (Err e), d)))
    (try_then (send_error T d) (\<lambda>_ d. (Err e, d)))"
proof -
  obtain r out where w: "write_error (conn d) (replicate 32 0) = (r, out)" by fastforce
  then show ?thesis
    by (cases r) (simp_all add: async_send_error_def send_error_def ignored_follows [OF assms])
qed

lemma async_drain_loop_follows:
  assumes AT: "stands_for b T A"
  shows "follows b (async_drain_loop P A k d) (drain_loop P T k d)"
proof (induction "rx_len d - k" arbitrary: k d rule: less_induct)
  case less
  show ?case
  proof (cases "k < rx_len d \<and> rx_len d \<le> length (rx_buf d)")
    case False
    then show ?thesis
      by (cases "k < rx_len d") (simp_all add: drain_loop.simps [of P T k d] async_drain_loop.simps [of _ A k d] slice_def)
  next
    case True
    obtain r c where f: "Connection.feed P (conn d) (take (rx_len d - k) (drop k (rx_buf d))) = (r, c)" by fastforce
    have rec: "follows b (async_drain_loop P A (k + n) d') (drain_loop P T (k + n) d')"
      if "send_pong T (d\<lparr>conn := c\<rparr>) = (u, d')" "n \<noteq> 0" for n d' u
      using arg_cong [OF that(1), of "\<lambda>r. rx_len (snd r)"] that(2) True by (intro less) (simp, linarith)
    note steps = async_send_ready_follows [OF AT] async_send_welcome_follows [OF AT]
      async_send_pong_follows [OF AT] async_send_error_follows [OF AT]
    from True f rec show ?thesis
      by (cases r) (auto simp: drain_loop.simps [of P T k d] async_drain_loop.simps [of _ A k d] Let_def pong_await
          intro!: steps follows_await)
  qed
qed

lemma async_drain_buffer_follows:
  "stands_for b T A \<Longrightarrow> follows b (async_drain_buffer P A d) (drain_buffer P T d)"
  unfolding async_drain_buffer_def drain_buffer_def
  by (auto intro!: follows_await async_drain_loop_follows case_follows)

lemma async_poll_follows: "stands_for b T A \<Longrightarrow> follows b (async_poll P A d) (poll P T d)"
  by (auto simp: async_poll_def poll_def Let_def
      intro!: follows_await async_drain_buffer_follows async_receive_follows async_slice_follows
      split: prod.splits outcome.splits ConnError.splits)

lemma async_publish_follows:
  "stands_for b T A \<Longrightarrow> follows b (async_publish P A d topic payload) (driver_publish P T d topic payload)"
  unfolding async_publish_def driver_publish_def
  by (auto intro!: follows_await follows_attempt async_transmit_follows async_slice_follows split: option.splits)

lemma async_new_follows:
  assumes "stands_for b T A"
  shows "follows b (async_new P A t, ()) (new_driver P T t, ())"
    and "follows b (async_new_plain P A t accept, ()) (new_plain_driver P T t accept, ())"
  by (auto simp: async_new_def async_new_plain_def new_driver_def new_plain_driver_def Let_def
      async_greeting_follows [OF assms] split: prod.splits)

text \<open>Without dropped futures the two drivers do the same.\<close>

lemma async_blocking:
  assumes "blocking A T"
  shows "async_new P A t = Completed (new_driver P T t)"
    and "async_new_plain P A t accept = Completed (new_plain_driver P T t accept)"
    and "async_poll P A d = completed (poll P T d)"
    and "async_publish P A d topic payload = completed (driver_publish P T d topic payload)"
  using async_new_follows [OF blocking_stands [OF assms]] async_poll_follows [OF blocking_stands [OF assms]]
    async_publish_follows [OF blocking_stands [OF assms]]
  by (simp_all add: follows_never completed_def)

section \<open>On a transport\<close>

text \<open>A PUB connection on a byte stream is a driver.\<close>

locale pub_driver = pub_build P + byte_stream T received sent
  for P :: "('b, 'v) conn_build" and T :: "('t, 'e) transport_impl" and received sent

sublocale pub_driver \<subseteq> drv: driver_client P "parse_ready_from (target_of P)" READY_FRAME "on_frame P"
  "\<lambda>c. sub_inv (heapless_of P) (SUB_CAP P) (PREFIX_CAP P) (sub_table c)"
  "\<lambda>c. subs (heapless_of P) (sub_table c)" "pub_effect (SUB_CAP P) (PREFIX_CAP P)" "{#}" "Connection.feed P" "Connection.exec P"
  T received sent
  by unfold_locales (simp add: READY_FRAME_def)

locale pub_driver_64 = pub_driver + pub_build_64

sublocale pub_driver_64 \<subseteq> sdrv: safe_driver P "parse_ready_from (target_of P)" READY_FRAME "on_frame P"
  "\<lambda>c. sub_inv (heapless_of P) (SUB_CAP P) (PREFIX_CAP P) (sub_table c)"
  "\<lambda>c. subs (heapless_of P) (sub_table c)" "pub_effect (SUB_CAP P) (PREFIX_CAP P)" "{#}" "Connection.feed P" "Connection.exec P"
  T received sent
  by unfold_locales

locale reliable_pub = pub_driver + reliable_stream

sublocale reliable_pub \<subseteq> rdrv: reliable_client P "parse_ready_from (target_of P)" READY_FRAME "on_frame P"
  "\<lambda>c. sub_inv (heapless_of P) (SUB_CAP P) (PREFIX_CAP P) (sub_table c)"
  "\<lambda>c. subs (heapless_of P) (sub_table c)" "pub_effect (SUB_CAP P) (PREFIX_CAP P)" "{#}" "Connection.feed P" "Connection.exec P"
  T received sent coming
  by unfold_locales

interpretation mock_pub: pub_driver "list_build bits F n l" "mock_impl kind"
  "\<lambda>t. take (peer_pos t) (peer_bytes t)" our_bytes for bits F n l and kind :: "'k \<Rightarrow> nat"
  by (rule pub_driver.intro) (rule list_pub.pub_build_axioms mock.byte_stream_axioms)+

interpretation mock_pub_64: pub_driver_64 "list_build 64 F n l" "mock_impl kind"
  "\<lambda>t. take (peer_pos t) (peer_bytes t)" our_bytes for F n l and kind :: "'k \<Rightarrow> nat"
  by (rule pub_driver_64.intro) (rule mock_pub.pub_driver_axioms list_pub_64.pub_build_64_axioms)+

interpretation mock_reliable_pub: reliable_pub "list_build bits F n l" "mock_impl kind"
  "\<lambda>t. take (peer_pos t) (peer_bytes t)" our_bytes "\<lambda>t. drop (peer_pos t) (peer_bytes t)"
  for bits F n l and kind :: "'k \<Rightarrow> nat"
  by (rule reliable_pub.intro) (rule mock_pub.pub_driver_axioms mock_reliable.reliable_stream_axioms)+

end
