(* ===== verification/Driver_Properties.thy ===== *)
theory Driver_Properties
  imports Driver_Run
begin

text \<open>The properties of the drivers of a PUB connection.\<close>

section \<open>Opening and using a driver\<close>

definition open_driver :: "('b, 'v) conn_build \<Rightarrow> ('t, 'e) transport_impl \<Rightarrow> Mechanism \<Rightarrow> authenticator \<Rightarrow> 't \<Rightarrow>
    (('v Connection, 't) Driver, ConnError) outcome" where
  "open_driver P T m accept t =
     (case m of Null \<Rightarrow> new_driver P T t | Plain \<Rightarrow> new_plain_driver P T t accept)"

definition driver_step :: "('b, 'v) conn_build \<Rightarrow> ('t, 'e) transport_impl \<Rightarrow> ('v Connection, 't) Driver \<Rightarrow> driver_op \<Rightarrow>
    (nat, ConnError) outcome \<times> ('v Connection, 't) Driver" where
  "driver_step P T = gen_step (poll P T) (driver_publish P T)"

lemma open_driver_gen:
  "open_driver P T m accept t = gen_new (Connection.exec P) T (start P m accept) t"
  by (cases m) (simp_all add: open_driver_def start_def new_driver_gen)

lemma driver_step_gen:
  "driver_step P T = gen_step (gen_poll (Connection.exec P) T)
     (\<lambda>d topic payload. gen_publish (publish_headers P (conn d) topic payload) T d topic payload)"
  by (simp add: driver_step_def poll_gen driver_publish_gen [abs_def])

lemma start_is_fresh: "fresh (FRAME_CAP P) m (start_auth m accept) (start P m accept)"
  using start_fresh by (cases m) (simp_all add: start_def start_auth_def)

context pub_driver begin

lemmas driver_start = drv.new_ok [OF start_is_fresh start_conn_inv start_conn_rel, folded open_driver_gen]
lemmas driver_run = drv.run_ok [OF publish_headers_eq driver_step_gen]
lemmas driver_stage = pub.rel_stage

end

context reliable_pub begin

lemmas driver_gets_there = rdrv.driver_completes
  [OF start_is_fresh start_conn_inv start_conn_rel, folded open_driver_gen poll_gen]

end

context pub_driver_64 begin

lemmas driver_fit = sdrv.run_fit [OF publish_headers_eq disjI1 [OF refl] driver_step_gen]

end

text \<open>The driver of the unit tests on a mock transport that holds all of the peer's bytes.\<close>

definition example_peer :: bytes where
  "example_peer = sub_greeting @ sub_ready @ sub_subscribe (ascii ''ab'')"

definition example_ops :: "driver_op list" where
  "example_ops = [Poll, Poll, Publish (ascii ''abc'') (ascii ''x''), Publish (ascii ''b'') (ascii ''y'')]"

definition example_driver_run :: "bytes \<Rightarrow> driver_op list \<Rightarrow>
    (nat, ConnError) outcome list \<times> (bytes list Connection, MockTransport) Driver" where
  "example_driver_run bs ops =
     (case open_driver (list_build 64 64 2 8) (mock_impl id) Null example_accept (new_mock bs) of
        Ok d \<Rightarrow> run (driver_step (list_build 64 64 2 8) (mock_impl id)) d ops
      | _ \<Rightarrow> undefined)"

lemma example_open:
  obtains d0 where "open_driver (list_build 64 64 2 8) (mock_impl id) Null example_accept (new_mock bs) = Ok d0"
    and "example_driver_run bs ops = run (driver_step (list_build 64 64 2 8) (mock_impl id)) d0 ops"
proof -
  obtain d0 where "open_driver (list_build 64 64 2 8) (mock_impl id) Null example_accept (new_mock bs) = Ok d0"
    using mock_reliable_pub.rdrv.new_good [where kind = id and t = "new_mock bs",
        OF start_is_fresh [of "list_build 64 64 2 8" Null example_accept]]
    by (auto simp: open_driver_gen)
  with that show thesis by (simp add: example_driver_run_def)
qed

lemma example_run_ok:
  "all_ok (fst (example_driver_run example_peer example_ops))"
  "state (conn (snd (example_driver_run example_peer example_ops))) = Established"
  "our_ready_sent (conn (snd (example_driver_run example_peer example_ops)))"
  by code_simp+

text \<open>A poll that fails after the connection has taken the whole greeting.\<close>

context pub_driver begin

lemmas unsent_ready = drv.poll_unsent_ready [folded poll_gen]
lemmas feeds_again = drv.poll_feeds_again [folded poll_gen]
lemmas stale_meaning = drv.out_of_step_meaning(1)
lemmas stale_signature = drv.poll_stale_signature [folded poll_gen]
lemmas stale_zeros = drv.poll_stale_zeros [folded poll_gen]

lemma refed_greeting:
  assumes ok: "driver_ok READY_FRAME (conn_inv P unit_auth) (conn_rel P) received sent Null us 0 d"
    and d1: "state (conn d) = Greeting" "poll P T d = (Err e, d1)" "state (conn d1) = Ready"
  shows "\<exists>s buf. buf = take (rx_len d1) (rx_buf d1) \<and> received (transport d1) = s @ buf \<and>
    length s < 64 \<and> 64 \<le> length (s @ buf) \<and> our_ready_sent (conn d1) \<and>
    meaning_of (target_of P) (FRAME_CAP P) (parse_ready_from (target_of P)) Null unit_auth (take 64 (s @ buf))
      = AwaitReady (peer_version_minor (conn d1)) [] \<and>
    (\<forall>e' c. feed P (conn d1) buf = (Err e', c) \<longrightarrow> fst (poll P T d1) = Err e') \<and>
    (s = [] \<longrightarrow> fst (poll P T d1) = Err (DecodeError DecodeError.ReservedFlagBits)) \<and>
    (16 \<le> length s \<and> length s < 32 \<or> take 2 buf = [0, 0] \<longrightarrow> fst (poll P T d1) = Err (NullError NotACommand))"
proof -
  obtain s where s: "out_of_step (conn_inv P unit_auth) (conn_rel P) received d1 s"
    using unsent_ready [OF ok d1] by blast
  define buf where "buf = take (rx_len d1) (rx_buf d1)"
  have rest: "rest 0 d1 = buf" by (simp add: rest_def buf_def)
  have len: "received (transport d1) = s @ buf" "length s < 64" "64 \<le> length (s @ buf)" "our_ready_sent (conn d1)"
    using s rest length_rest [of d1 0] by (auto simp: out_of_step_def)
  define g where "g = take 64 (s @ buf)"
  note M = stale_meaning [OF s, unfolded rest]
  have g: "length g = 64" using len(3) by (simp add: g_def)
  obtain v where "parse_greeting g = Ok \<lparr>version_minor = v\<rparr>"
    using M [folded g_def] g by (cases "parse_greeting g") (auto simp: meaning_of_def intro: PeerGreeting.cases)
  then have valid: "greeting_for (ascii ''NULL'') v g" using greeting_for_iff [OF g] by blast
  have signature: "fst (poll P T d1) = Err (DecodeError DecodeError.ReservedFlagBits)" if "s = []"
  proof -
    have "buf ! 0 = 0xFF" "buf \<noteq> []" using valid that len(3) by (auto simp: greeting_for_def g_def)
    then obtain xs where "rest 0 d1 = 0xFF # xs" using rest by (cases buf) auto
    then show ?thesis by (rule stale_signature [OF s]) (simp add: flags_ok_def)
  qed
  have zeros: "take 2 buf = [0, 0]" if "16 \<le> length s" "length s < 32"
  proof -
    have pad: "take 20 (drop 12 g) = ascii ''NULL'' @ replicate 16 0" "g ! 32 = 0"
      using valid by (simp_all add: greeting_for_def)
    have "g ! i = 0" if "16 \<le> i" "i < 33" for i
    proof (cases "i = 32")
      case False
      with that have "g ! i = take 20 (drop 12 g) ! (i - 12)" using g by (simp del: take_append)
      also have "\<dots> = 0" using that False unfolding pad(1) by (simp add: nth_append)
      finally show ?thesis .
    qed (use pad in simp)
    from this [of "length s"] this [of "Suc (length s)"] that len(3)
    have "buf ! 0 = 0" "buf ! 1 = 0" "2 \<le> length buf" by (auto simp: nth_append g_def)
    then show ?thesis by (cases buf; cases "tl buf") auto
  qed
  have message: "fst (poll P T d1) = Err (NullError NotACommand)" if two: "take 2 buf = [0, 0]"
  proof -
    obtain xs where "rest 0 d1 = 0 # 0 # xs" using two rest by (cases buf; cases "tl buf") auto
    then show ?thesis by (rule stale_zeros [OF s]) (simp add: parse_ready_from_def parse_ready_command_def)
  qed
  show ?thesis
    using len M signature zeros message feeds_again [OF s, unfolded rest] buf_def
    by (intro exI [of _ s] exI [of _ buf]) auto
qed

end

section \<open>Properties\<close>

text \<open>
  C5. A driver loses nothing of what it receives: after any sequence of polls and publishes in which
  nothing failed, on any transport that behaves as a byte stream, the bytes received are those the
  connection has consumed followed by those waiting in the 512-byte buffer; and the connection is in
  the state that the consumed bytes mean. Once it is established, its subscriptions are what the frames among them
  say. It is never in the failed state, and never ready without having sent READY.
\<close>

theorem driver_stream_refinement:
  assumes "heapless_contract (heapless_of P)" and "byte_stream T received sent"
    and "open_driver P T m accept t = Ok d0" and "received t = []" and "sent t = []"
    and "run (driver_step P T) d0 ops = (rs, d)" and "all_ok rs"
  shows "\<exists>s. received (transport d) = s @ take (rx_len d) (rx_buf d) \<and> rx_len d \<le> 512 \<and>
    (let c = conn d;
         M = meaning_of (target_of P) (FRAME_CAP P) (parse_ready_from (target_of P)) m (start_auth m accept) s in
     case state c of
       Greeting \<Rightarrow> length s < 64
     | PlainHello \<Rightarrow> (\<exists>r. M = AwaitHello (peer_version_minor c) r)
     | Ready \<Rightarrow> our_ready_sent c \<and> (\<exists>r. M = AwaitReady (peer_version_minor c) r)
     | PlainReady \<Rightarrow> our_ready_sent c \<and> (\<exists>r. M = AwaitReady (peer_version_minor c) r)
     | Failed \<Rightarrow> False
     | Established \<Rightarrow>
         (\<exists>fs r. M = Talking (peer_version_minor c) fs r \<and>
           subs (heapless_of P) (sub_table c) = foldl (pub_effect (SUB_CAP P) (PREFIX_CAP P)) {#} fs))"
proof -
  have drv: "pub_driver P T received sent"
    using assms(1,2) by (intro pub_driver.intro pub_build.intro)
  from pub_driver.driver_run [OF drv pub_driver.driver_start [OF drv assms(3-5)] assms(6,7)]
  obtain us where ok: "driver_ok READY_FRAME (conn_inv P (start_auth m accept)) (conn_rel P) received sent m us 0 d"
    by auto
  then obtain s where s: "conn_rel P (conn d) s" "received (transport d) = s @ rest 0 d"
    and c: "conn_inv P (start_auth m accept) (conn d)" "mechanism (conn d) = m" "live (conn d)" "rx_len d \<le> 512"
    by (auto simp: driver_ok_def)
  have "length s < 64" if "state (conn d) = Greeting"
    using that s(1) c(3) by (auto simp: client_rel_def link_rel_def Let_def live_def)
  with pub_driver.driver_stage [OF drv c(1) s(1) refl] s(2) c(2-4) show ?thesis
    by (intro exI [of _ s]) (cases "state (conn d)"; simp add: rest_def Let_def live_def)
qed

theorem driver_stream_refinement_witness:
  "\<exists>s fs r. let d = snd (example_driver_run example_peer example_ops) in
    take (peer_pos (transport d)) (peer_bytes (transport d)) = s @ take (rx_len d) (rx_buf d) \<and>
    meaning_of (target_of (list_build 64 64 2 8)) 64 (parse_ready_from (target_of (list_build 64 64 2 8))) Null unit_auth s
      = Talking (peer_version_minor (conn d)) fs r \<and>
    subs list_heapless (sub_table (conn d)) = foldl (pub_effect 2 8) {#} fs"
proof -
  define d where "d = snd (example_driver_run example_peer example_ops)"
  obtain d0 where o: "open_driver (list_build 64 64 2 8) (mock_impl id) Null example_accept (new_mock example_peer) = Ok d0"
    "run (driver_step (list_build 64 64 2 8) (mock_impl id)) d0 example_ops =
      (fst (example_driver_run example_peer example_ops), d)"
    by (rule example_open [of example_peer example_ops]) (simp add: d_def)
  have "state (conn d) = Established" using example_run_ok(2) by (simp add: d_def)
  with driver_stream_refinement [OF _ mock.byte_stream_axioms o(1) _ _ o(2) example_run_ok(1)]
  show ?thesis
    by (auto simp: d_def [symmetric] list_vec.heapless_contract_axioms new_mock_def start_auth_def Let_def)
qed

text \<open>
  C6. A driver sends what the protocol asks for and nothing else: after any sequence of polls and
  publishes in which nothing failed, the bytes the transport has accepted are the greeting of the
  mechanism, WELCOME and READY if they are due, and after the handshake whole PONG commands and
  exactly the messages whose publish reported that they were sent, in that order.
\<close>

theorem driver_output:
  assumes "heapless_contract (heapless_of P)" and "byte_stream T received sent"
    and "open_driver P T m accept t = Ok d0" and "received t = []" and "sent t = []"
    and "run (driver_step P T) d0 ops = (rs, d)" and "all_ok rs"
  shows "\<exists>us. sent (transport d) =
      (case m of Null \<Rightarrow> encode_greeting [] | Plain \<Rightarrow> encode_plain_greeting []) @
      (if our_welcome_sent (conn d) then WELCOME_FRAME else []) @
      (if our_ready_sent (conn d) then READY_FRAME else []) @ concat (map wire_sending us) \<and>
    messages us = published ops rs \<and> (us \<noteq> [] \<longrightarrow> state (conn d) = Established) \<and>
    (our_welcome_sent (conn d) \<longleftrightarrow> m = Plain \<and> state (conn d) \<in> {PlainReady, Established}) \<and>
    (our_ready_sent (conn d) \<longleftrightarrow> state (conn d) \<in> {Ready, PlainReady, Established})"
proof -
  have drv: "pub_driver P T received sent"
    using assms(1,2) by (intro pub_driver.intro pub_build.intro)
  from pub_driver.driver_run [OF drv pub_driver.driver_start [OF drv assms(3-5)] assms(6,7)]
  obtain us where ok: "driver_ok READY_FRAME (conn_inv P (start_auth m accept)) (conn_rel P) received sent m us 0 d"
    and us: "messages us = published ops rs" by auto
  then have "mechanism (conn d) = m" "live (conn d)" "said READY_FRAME (conn d) us (sent (transport d))"
    by (auto simp: driver_ok_def)
  note facts = this us
  show ?thesis
  proof (intro exI [of _ us] conjI)
    show "our_welcome_sent (conn d) \<longleftrightarrow> m = Plain \<and> state (conn d) \<in> {PlainReady, Established}"
      "our_ready_sent (conn d) \<longleftrightarrow> state (conn d) \<in> {Ready, PlainReady, Established}"
      using facts(1,2) by (cases "state (conn d)"; simp add: live_def; blast)+
  qed (use facts in \<open>simp_all add: said_def handshake_said_def our_greeting_def\<close>)
qed

theorem driver_output_witness:
  "\<exists>us. our_bytes (transport (snd (example_driver_run example_peer example_ops)))
      = encode_greeting [] @ READY_FRAME @ concat (map wire_sending us) \<and>
    messages us = [(ascii ''abc'', ascii ''x'')]"
proof -
  define d where "d = snd (example_driver_run example_peer example_ops)"
  obtain d0 where o: "open_driver (list_build 64 64 2 8) (mock_impl id) Null example_accept (new_mock example_peer) = Ok d0"
    "run (driver_step (list_build 64 64 2 8) (mock_impl id)) d0 example_ops =
      (fst (example_driver_run example_peer example_ops), d)"
    by (rule example_open [of example_peer example_ops]) (simp add: d_def)
  have "state (conn d) = Established" using example_run_ok(2) by (simp add: d_def)
  moreover have "published example_ops (fst (example_driver_run example_peer example_ops)) = [(ascii ''abc'', ascii ''x'')]"
    by code_simp
  ultimately show ?thesis
    using driver_output [OF _ mock.byte_stream_axioms o(1) _ _ o(2) example_run_ok(1)]
    by (auto simp: d_def [symmetric] list_vec.heapless_contract_axioms new_mock_def)
qed

text \<open>
  C7. A driver gets there: with a peer whose bytes are a complete handshake and well-formed frames,
  on a transport that works, however it cuts the bytes, the driver can be opened and polled until
  every byte is consumed. No poll fails, there are at most as many polls as bytes, and in the end the
  connection is established, knows the peer's version and has the subscriptions that the peer asked for; what has
  been sent is the handshake and PONGs. The next poll reports the end of the stream.
\<close>

theorem driver_gets_there:
  assumes "heapless_contract (heapless_of P)" and "reliable_stream T received sent coming"
    and "received t = []" and "sent t = []"
    and "meaning_of (target_of P) (FRAME_CAP P) (parse_ready_from (target_of P)) m (start_auth m accept) (coming t)
      = Talking v fs r"
    and "parse_frame (target_of P) (FRAME_CAP P) r = Incomplete"
  shows "\<exists>d0 n rs d us. open_driver P T m accept t = Ok d0 \<and> n \<le> length (coming t) \<and>
    run (driver_step P T) d0 (replicate n Poll) = (rs, d) \<and> all_ok rs \<and>
    state (conn d) = Established \<and> peer_version_minor (conn d) = v \<and>
    subs (heapless_of P) (sub_table (conn d)) = foldl (pub_effect (SUB_CAP P) (PREFIX_CAP P)) {#} fs \<and>
    list_all is_pong us \<and>
    sent (transport d) = (case m of Null \<Rightarrow> encode_greeting [] | Plain \<Rightarrow> encode_plain_greeting [] @ WELCOME_FRAME) @
      READY_FRAME @ concat (map wire_sending us) \<and>
    fst (poll P T d) = Err (IoError 0)"
proof -
  have "byte_stream T received sent" using assms(2) by (simp add: reliable_stream_def)
  then have drv: "reliable_pub P T received sent coming"
    using assms(1,2) by (intro reliable_pub.intro pub_driver.intro pub_build.intro)
  have step: "driver_step P T d Poll = try_then (poll P T d) (\<lambda>b d. (Ok (of_bool b), d))" for d
    by (simp add: driver_step_def gen_step_def)
  from reliable_pub.driver_gets_there [where step = "driver_step P T", OF drv assms(3,4) step assms(5,6)] obtain d0 n rs d us where
    d: "open_driver P T m accept t = Ok d0" "n \<le> length (coming t)"
      "run (driver_step P T) d0 (replicate n Poll) = (rs, d)" "all_ok rs" "state (conn d) = Established"
      "peer_version_minor (conn d) = v"
      "subs (heapless_of P) (sub_table (conn d)) = foldl (pub_effect (SUB_CAP P) (PREFIX_CAP P)) {#} fs"
      "list_all is_pong us" "fst (poll P T d) = Err (IoError 0)"
    and ok: "driver_ok READY_FRAME (conn_inv P (start_auth m accept)) (conn_rel P) received sent m us 0 d"
    by (elim exE conjE) (rule that)
  from ok d(5) have "sent (transport d) =
      (case m of Null \<Rightarrow> encode_greeting [] | Plain \<Rightarrow> encode_plain_greeting [] @ WELCOME_FRAME) @
      READY_FRAME @ concat (map wire_sending us)"
    by (cases m) (auto simp: driver_ok_def said_def handshake_said_def our_greeting_def live_def)
  with d show ?thesis by blast
qed

theorem driver_gets_there_witness:
  "\<exists>d0 n rs d. open_driver (list_build 64 64 2 8) (mock_impl id) Null example_accept (new_mock example_peer) = Ok d0 \<and>
    n \<le> 105 \<and> run (driver_step (list_build 64 64 2 8) (mock_impl id)) d0 (replicate n Poll) = (rs, d) \<and>
    state (conn d) = Established \<and> subs list_heapless (sub_table (conn d)) = {# ascii ''ab'' #}"
proof -
  let ?T = "\<lparr>usize_bits = 64, overflow_checks = True\<rparr>"
  let ?f = "\<lparr>df_more = False, df_is_command = True, df_body = drop 2 (sub_subscribe (ascii ''ab''))\<rparr>"
  have ex: "meaning_of ?T 64 (parse_ready_from ?T) Null unit_auth example_peer = Talking 1 [?f] []"
    "pub_effect 2 8 {#} ?f = {# ascii ''ab'' #}" "length example_peer = 105"
    by code_simp+
  have "heapless_contract (heapless_of (list_build 64 64 2 8))" by (simp add: list_vec.heapless_contract_axioms)
  from driver_gets_there [OF this mock_reliable.reliable_stream_axioms, of "new_mock example_peer" Null
      example_accept 1 "[?f]" "[]" id] ex show ?thesis
    by (simp add: new_mock_def start_auth_def) blast
qed

lemma driver_in_bounds:
  assumes "heapless_contract (heapless_of P)" and "usize_bits (target_of P) = 64"
    and "byte_stream T received sent" and "open_driver P T m accept t = Ok d0" and "received t = []" and "sent t = []"
    and "run (driver_step P T) d0 ops = (rs, d)"
  shows "Panic \<notin> set rs \<and> rx_len d \<le> 512 \<and> length (rx_buf d) = 512"
proof -
  have drv: "pub_driver P T received sent"
    using assms(1,3) by (intro pub_driver.intro pub_build.intro)
  have drv64: "pub_driver_64 P T received sent"
    using drv assms(1,2) by (intro pub_driver_64.intro pub_build_64.intro pub_build_64_axioms.intro pub_build.intro)
  have "conn_inv P (start_auth m accept) (conn d0) \<and> length (rx_buf d0) = 512 \<and> rx_len d0 \<le> 512"
    using pub_driver.driver_start [OF drv assms(4-6)] by (simp add: driver_ok_def)
  from pub_driver_64.driver_fit [OF drv64 this assms(7)] show ?thesis by simp
qed

text \<open>
  C17. A driver never panics on a 64-bit target, over any byte stream, whatever its peer does and whichever
  operations failed before: its buffer indices stay in bounds.
\<close>

theorem driver_never_panics_64:
  assumes "heapless_contract (heapless_of P)" and "usize_bits (target_of P) = 64"
    and "byte_stream T received sent" and "open_driver P T m accept t = Ok d0" and "received t = []" and "sent t = []"
    and "run (driver_step P T) d0 ops = (rs, d)"
  shows "Panic \<notin> set rs \<and> rx_len d \<le> 512 \<and> length (rx_buf d) = 512"
  by (rule driver_in_bounds [OF assms])

theorem driver_never_panics_64_witness:
  "Panic \<notin> set (fst (example_driver_run example_peer example_ops))"
proof -
  obtain d0 where o: "open_driver (list_build 64 64 2 8) (mock_impl id) Null example_accept (new_mock example_peer) = Ok d0"
    "run (driver_step (list_build 64 64 2 8) (mock_impl id)) d0 example_ops =
      (fst (example_driver_run example_peer example_ops), snd (example_driver_run example_peer example_ops))"
    by (rule example_open [of example_peer example_ops]) simp
  from driver_never_panics_64 [OF _ _ mock.byte_stream_axioms o(1) _ _ o(2)] show ?thesis
    by (simp add: list_vec.heapless_contract_axioms new_mock_def)
qed

text \<open>
  As long as no future is dropped, every operation of the asynchronous driver does what the blocking
  driver does in the same state, result and new state included.
\<close>

lemma async_driver_is_blocking:
  assumes "blocking A T"
  shows "async_new P A t = Completed (new_driver P T t) \<and>
    async_new_plain P A t accept = Completed (new_plain_driver P T t accept) \<and>
    async_poll P A d = completed (poll P T d) \<and>
    async_publish P A d topic payload = completed (driver_publish P T d topic payload)"
  by (simp_all add: async_blocking [OF assms])

lemma async_driver_is_blocking_witness:
  "fst (async_poll (list_build 64 64 2 8) (async_mock_impl id) (snd (example_driver_run example_peer [Poll])))
    = Completed (Ok True)"
proof -
  have "fst (poll (list_build 64 64 2 8) (mock_impl id) (snd (example_driver_run example_peer [Poll]))) = Ok True"
    by code_simp
  then show ?thesis
    using async_driver_is_blocking [OF async_mock_blocking [of id], where P = "list_build 64 64 2 8"
        and d = "snd (example_driver_run example_peer [Poll])"]
    by (simp add: completed_def)
qed

text \<open>A peer whose greeting arrives in pieces of 40 bytes, on a transport that accepts the greeting and refuses READY.\<close>

definition example_refusing :: "(WriteFailTransport, nat) transport_impl" where
  "example_refusing = at_most 40 (write_fail_impl 32 id)"

interpretation refusing: byte_stream example_refusing "\<lambda>t. take (w_peer_pos t) (w_peer_bytes t)" w_our_bytes
  unfolding example_refusing_def by (rule failing.at_most_stream)

text \<open>
  C16. A failed write is not recoverable, although nothing marks the driver as failed. Over any byte stream, let READY
  fail to be sent: a \<^verbatim>\<open>poll\<close> of a driver without a failure so far returns an error, and the connection is
  waiting for the peer's READY after it. Then the connection has consumed the 64 bytes of the greeting and has noted
  READY as sent, but the part of the greeting that had arrived last is still at the beginning of the buffer. The next
  \<^verbatim>\<open>poll\<close> feeds this part to the connection again, as a frame, and returns its error: a decoding error
  when it is the whole greeting; \<^verbatim>\<open>NotACommand\<close> when it begins with two zero bytes, as it does when the part before it
  ends in the padding of the mechanism's name.
\<close>

theorem failed_write_loses_sync:
  assumes "heapless_contract (heapless_of P)" and "byte_stream T received sent"
    and "new_driver P T t = Ok d0" and "received t = []" and "sent t = []"
    and "run (driver_step P T) d0 ops = (rs, d)" and "all_ok rs"
    and "state (conn d) = Greeting" and "poll P T d = (Err e, d1)" and "state (conn d1) = Ready"
  shows "\<exists>s buf. buf = take (rx_len d1) (rx_buf d1) \<and> received (transport d1) = s @ buf \<and>
    length s < 64 \<and> 64 \<le> length (s @ buf) \<and> our_ready_sent (conn d1) \<and>
    meaning_of (target_of P) (FRAME_CAP P) (parse_ready_from (target_of P)) Null unit_auth (take 64 (s @ buf))
      = AwaitReady (peer_version_minor (conn d1)) [] \<and>
    (\<forall>e' c. feed P (conn d1) buf = (Err e', c) \<longrightarrow> fst (poll P T d1) = Err e') \<and>
    (s = [] \<longrightarrow> fst (poll P T d1) = Err (DecodeError DecodeError.ReservedFlagBits)) \<and>
    (16 \<le> length s \<and> length s < 32 \<or> take 2 buf = [0, 0] \<longrightarrow> fst (poll P T d1) = Err (NullError NotACommand))"
proof -
  have drv: "pub_driver P T received sent"
    using assms(1,2) by (intro pub_driver.intro pub_build.intro)
  have "open_driver P T Null accept t = Ok d0" for accept using assms(3) by (simp add: open_driver_def)
  from pub_driver.driver_run [OF drv pub_driver.driver_start [OF drv this assms(4,5)] assms(6,7)]
  obtain us where "driver_ok READY_FRAME (conn_inv P unit_auth) (conn_rel P) received sent Null us 0 d"
    by (auto simp: start_auth_def)
  from pub_driver.refed_greeting [OF drv this assms(8-10)] show ?thesis .
qed

text \<open>The first poll reads 40 bytes of the greeting; the second the other 24 and the first of READY.\<close>

definition example_refused :: "(nat, ConnError) outcome list \<times> (bytes list Connection, WriteFailTransport) Driver" where
  "example_refused =
     (case new_driver (list_build 64 64 2 8) example_refusing (new_write_fail example_peer 1) of
        Ok d \<Rightarrow> run (driver_step (list_build 64 64 2 8) example_refusing) d [Poll]
      | _ \<Rightarrow> undefined)"

theorem failed_write_loses_sync_witness:
  "let d1 = snd (poll (list_build 64 64 2 8) example_refusing (snd example_refused)) in
     rx_len d1 = 40 \<and> state (conn d1) = Ready \<and> our_ready_sent (conn d1) \<and>
     fst (poll (list_build 64 64 2 8) example_refusing d1) = Err (NullError NotACommand)"
proof -
  let ?P = "list_build 64 64 2 8"
  define d where "d = snd example_refused"
  define d1 where "d1 = snd (poll ?P example_refusing d)"
  have ex: "all_ok (fst example_refused)" "state (conn d) = Greeting" "fst (poll ?P example_refusing d) = Err (IoError 32)"
    "state (conn d1) = Ready" "rx_len d1 = 40" "take 2 (take (rx_len d1) (rx_buf d1)) = [0, 0]"
    unfolding d_def d1_def by code_simp+
  obtain d0 where o: "new_driver ?P example_refusing (new_write_fail example_peer 1) = Ok d0"
    "run (driver_step ?P example_refusing) d0 [Poll] = (fst example_refused, d)"
  proof -
    have "case new_driver ?P example_refusing (new_write_fail example_peer 1) of Ok _ \<Rightarrow> True | _ \<Rightarrow> False" by code_simp
    then show thesis using that by (auto simp: example_refused_def d_def split: outcome.splits)
  qed
  from ex(3) have p: "poll ?P example_refusing d = (Err (IoError 32), d1)" by (simp add: d1_def prod_eq_iff)
  from failed_write_loses_sync [OF _ refusing.byte_stream_axioms o(1) _ _ o(2) ex(1,2) p ex(4)] ex
  show ?thesis
    by (auto simp: d_def [symmetric] d1_def [symmetric] list_vec.heapless_contract_axioms new_write_fail_def)
qed

end
