(* ===== verification/Radio_Driver_Sync.thy ===== *)
theory Radio_Driver_Sync
  imports Transport Radio_Connection
begin

text \<open>
  The blocking driver of a RADIO connection (\<^verbatim>\<open>src/io/sync.rs\<close>): NULL mechanism only, and READY is sent
  when the connection has become ready in this step, whatever its state was before.
\<close>

type_synonym ('v, 't) RadioDriver = "('v RadioConnection, 't) Driver"

definition new_radio_driver :: "('b, 'v) radio_build \<Rightarrow> ('t, 'e) transport_impl \<Rightarrow> 't \<Rightarrow>
    (('v, 't) RadioDriver, ConnError) outcome" where
  "new_radio_driver P T t =
     (let c = new_radio P;
          greeting = replicate 64 0 in
      case write_greeting c greeting of (r, greeting, c) \<Rightarrow>
        and_then r (\<lambda>n.
        and_then (slice greeting 0 n) (\<lambda>bs.
          case t_write_all T t bs of (r, t) \<Rightarrow>
            and_then (map_err (\<lambda>e. IoError (t_kind T e)) r) (\<lambda>_.
              Ok \<lparr>conn = c, transport = t, rx_buf = replicate 512 0, rx_len = 0\<rparr>))))"

section \<open>Steps of the loop\<close>

definition radio_send_ready :: "('t, 'e) transport_impl \<Rightarrow> ('c link_scheme, 't) Driver \<Rightarrow>
    (unit, ConnError) outcome \<times> ('c link_scheme, 't) Driver" where
  "radio_send_ready T d =
     (case write_ready (conn d) (replicate 32 0) of (r, ready, c) \<Rightarrow>
        try_then (r, d\<lparr>conn := c\<rparr>) (\<lambda>n d. attempt (slice ready 0 n) d (transmit T d)))"

definition radio_send_pong :: "('t, 'e) transport_impl \<Rightarrow> ('c link_scheme, 't) Driver \<Rightarrow>
    (unit, ConnError) outcome \<times> ('c link_scheme, 't) Driver" where
  "radio_send_pong T d =
     (case write_pong (conn d) (replicate 23 0) of (r, pong_buf, c) \<Rightarrow>
        try_then (r, d\<lparr>conn := c\<rparr>) (\<lambda>n d.
          case n of
            None \<Rightarrow> (Ok (), d)
          | Some n \<Rightarrow> attempt (slice pong_buf 0 n) d (transmit T d)))"

definition radio_send_error :: "('t, 'e) transport_impl \<Rightarrow> ('c link_scheme, 't) Driver \<Rightarrow>
    (unit, ConnError) outcome \<times> ('c link_scheme, 't) Driver" where
  "radio_send_error T d =
     (if state (conn d) = Failed then
        (case write_error (conn d) (replicate 32 0) of
           (Ok n, err_buf) \<Rightarrow>
             attempt (slice err_buf 0 n) d (\<lambda>bs. case transmit T d bs of (r, d) \<Rightarrow> (ignore_err r, d))
         | (Err _, _) \<Rightarrow> (Ok (), d)
         | (Panic, _) \<Rightarrow> (Panic, d))
      else (Ok (), d))"

lemma radio_send_pong_fields [simp]:
  "rx_buf (snd (radio_send_pong T d)) = rx_buf d" "rx_len (snd (radio_send_pong T d)) = rx_len d"
  by (auto simp: radio_send_pong_def attempt_def try_then_eq split: outcome_splits)

section \<open>The driver\<close>

function radio_drain_loop :: "('b, 'v) radio_build \<Rightarrow> ('t, 'e) transport_impl \<Rightarrow> nat \<Rightarrow> ('v, 't) RadioDriver \<Rightarrow>
    (nat, ConnError) outcome \<times> ('v, 't) RadioDriver" where
  "radio_drain_loop P T total_consumed d =
     (if total_consumed < rx_len d then
        let was_ready_before = (state (conn d) = Ready) in
        attempt (slice (rx_buf d) total_consumed (rx_len d)) d (\<lambda>input.
          case feed P (conn d) input of
            (Ok n, c) \<Rightarrow>
              let d = d\<lparr>conn := c\<rparr>;
                  total_consumed = total_consumed + n in
              if state c = Ready \<and> \<not> was_ready_before then
                try_then (radio_send_ready T d) (\<lambda>_ d. (Ok total_consumed, d))
              else
                (case radio_send_pong T d of
                   (Ok _, d) \<Rightarrow>
                     if n = 0 then (Ok total_consumed, d) else radio_drain_loop P T total_consumed d
                 | (Err e, d) \<Rightarrow> (Err e, d)
                 | (Panic, d) \<Rightarrow> (Panic, d))
          | (Err e, c) \<Rightarrow> try_then (radio_send_error T (d\<lparr>conn := c\<rparr>)) (\<lambda>_ d. (Err e, d))
          | (Panic, c) \<Rightarrow> (Panic, d\<lparr>conn := c\<rparr>))
      else (Ok total_consumed, d))"
  by pat_completeness auto
termination
proof (relation "measure (\<lambda>(P, T, total, d). rx_len d - total)", goal_cases)
  case (2 P T total d)
  then show ?case by (auto dest!: arg_cong [of _ _ "\<lambda>r. rx_len (snd r)"])
qed simp

declare radio_drain_loop.simps [simp del]

definition radio_drain_buffer :: "('b, 'v) radio_build \<Rightarrow> ('t, 'e) transport_impl \<Rightarrow> ('v, 't) RadioDriver \<Rightarrow>
    (unit, ConnError) outcome \<times> ('v, 't) RadioDriver" where
  "radio_drain_buffer P T d =
     try_then (radio_drain_loop P T 0 d) (\<lambda>total_consumed d.
       if 0 < total_consumed then discard total_consumed d else (Ok (), d))"

definition radio_poll :: "('b, 'v) radio_build \<Rightarrow> ('t, 'e) transport_impl \<Rightarrow> ('v, 't) RadioDriver \<Rightarrow>
    (bool, ConnError) outcome \<times> ('v, 't) RadioDriver" where
  "radio_poll P T d =
     (let read = (\<lambda>d.
        try_then (receive T d) (\<lambda>n d.
          if n = 0 then (Err (IoError 0), d)
          else
            try_then (radio_drain_buffer P T (d\<lparr>rx_len := rx_len d + n\<rparr>)) (\<lambda>_ d.
              (Ok (state (conn d) = Established), d))));
          drain = (\<lambda>d.
        if 0 < rx_len d then
          let prev_rx_len = rx_len d in
          try_then (radio_drain_buffer P T d) (\<lambda>_ d.
            if rx_len d < prev_rx_len then (Ok (state (conn d) = Established), d) else read d)
        else read d) in
      if state (conn d) = Ready then
        (case write_ready (conn d) (replicate 32 0) of
           (Ok n, ready, c) \<Rightarrow>
             try_then (attempt (slice ready 0 n) (d\<lparr>conn := c\<rparr>) (transmit T (d\<lparr>conn := c\<rparr>))) (\<lambda>_ d. (Ok False, d))
         | (Err WrongState, _, c) \<Rightarrow> drain (d\<lparr>conn := c\<rparr>)
         | (Err e, _, c) \<Rightarrow> (Err e, d\<lparr>conn := c\<rparr>)
         | (Panic, _, c) \<Rightarrow> (Panic, d\<lparr>conn := c\<rparr>))
      else drain d)"

definition radio_driver_publish :: "('b, 'v) radio_build \<Rightarrow> ('t, 'e) transport_impl \<Rightarrow> ('v, 't) RadioDriver \<Rightarrow>
    bytes \<Rightarrow> bytes \<Rightarrow> (nat, ConnError) outcome \<times> ('v, 't) RadioDriver" where
  "radio_driver_publish P T d grp body =
     attempt (publish_headers P (conn d) grp body) d (\<lambda>headers.
       case headers of
         None \<Rightarrow> (Ok 0, d)
       | Some (gh, gh_n, bh, bh_n) \<Rightarrow>
           try_then (attempt (slice gh 0 gh_n) d (transmit T d)) (\<lambda>_ d.
           try_then (transmit T d grp) (\<lambda>_ d.
           try_then (attempt (slice bh 0 bh_n) d (transmit T d)) (\<lambda>_ d.
           try_then (transmit T d body) (\<lambda>_ d.
             (Ok (gh_n + length grp + bh_n + length body), d))))))"

end
