(* ===== verification/Radio_Driver_Async.thy ===== *)
theory Radio_Driver_Async
  imports Awaited Radio_Connection
begin

text \<open>
  The asynchronous driver of a RADIO connection (\<^verbatim>\<open>src/io/async.rs\<close>). Its \<^verbatim>\<open>poll\<close> differs from the
  blocking one: with bytes in the buffer it returns after draining it, whether anything was consumed
  or not.
\<close>

type_synonym ('v, 't) AsyncRadioDriver = "('v RadioConnection, 't) Driver"

definition async_radio_new :: "('b, 'v) radio_build \<Rightarrow> ('t, 'e) async_impl \<Rightarrow> 't \<Rightarrow>
    (('v, 't) AsyncRadioDriver, ConnError) outcome awaited" where
  "async_radio_new P T t =
     (let c = new_radio P;
          greeting = replicate 64 0 in
      case write_greeting c greeting of (r, greeting, c) \<Rightarrow>
        (case and_then r (\<lambda>n. slice greeting 0 n) of
           Ok bs \<Rightarrow>
             (case a_write_all T t bs of (r, t) \<Rightarrow>
                map_awaited (\<lambda>r. and_then (map_err (\<lambda>e. IoError (a_kind T e)) r) (\<lambda>_.
                  Ok \<lparr>conn = c, transport = t, rx_buf = replicate 512 0, rx_len = 0\<rparr>)) r)
         | Err e \<Rightarrow> Completed (Err e)
         | Panic \<Rightarrow> Completed Panic))"

section \<open>Steps of the loop\<close>

definition async_radio_send_ready :: "('t, 'e) async_impl \<Rightarrow> ('c link_scheme, 't) Driver \<Rightarrow>
    (unit, ConnError) outcome awaited \<times> ('c link_scheme, 't) Driver" where
  "async_radio_send_ready T d =
     (case write_ready (conn d) (replicate 32 0) of (r, ready, c) \<Rightarrow>
        attempt_now (and_then r (\<lambda>n. slice ready 0 n)) (d\<lparr>conn := c\<rparr>) (async_transmit T (d\<lparr>conn := c\<rparr>)))"

definition async_radio_send_pong :: "('t, 'e) async_impl \<Rightarrow> ('c link_scheme, 't) Driver \<Rightarrow>
    (unit, ConnError) outcome awaited \<times> ('c link_scheme, 't) Driver" where
  "async_radio_send_pong T d =
     (case write_pong (conn d) (replicate 23 0) of (r, pong_buf, c) \<Rightarrow>
        attempt_now r (d\<lparr>conn := c\<rparr>) (\<lambda>n.
          case n of
            None \<Rightarrow> (Completed (Ok ()), d\<lparr>conn := c\<rparr>)
          | Some n \<Rightarrow> attempt_now (slice pong_buf 0 n) (d\<lparr>conn := c\<rparr>) (async_transmit T (d\<lparr>conn := c\<rparr>))))"

definition async_radio_send_error :: "('t, 'e) async_impl \<Rightarrow> ('c link_scheme, 't) Driver \<Rightarrow>
    (unit, ConnError) outcome awaited \<times> ('c link_scheme, 't) Driver" where
  "async_radio_send_error T d =
     (if state (conn d) = Failed then
        (case write_error (conn d) (replicate 32 0) of
           (Ok n, err_buf) \<Rightarrow>
             attempt_now (slice err_buf 0 n) d (\<lambda>bs.
               case async_transmit T d bs of (r, d) \<Rightarrow> (map_awaited ignore_err r, d))
         | (Err _, _) \<Rightarrow> (Completed (Ok ()), d)
         | (Panic, _) \<Rightarrow> (Completed Panic, d))
      else (Completed (Ok ()), d))"

lemma async_radio_send_pong_fields [simp]:
  "rx_buf (snd (async_radio_send_pong T d)) = rx_buf d" "rx_len (snd (async_radio_send_pong T d)) = rx_len d"
  by (auto simp: async_radio_send_pong_def attempt_now_def async_transmit_def split: outcome_splits)

section \<open>The driver\<close>

function async_radio_drain_loop :: "('b, 'v) radio_build \<Rightarrow> ('t, 'e) async_impl \<Rightarrow> nat \<Rightarrow> ('v, 't) AsyncRadioDriver \<Rightarrow>
    (nat, ConnError) outcome awaited \<times> ('v, 't) AsyncRadioDriver" where
  "async_radio_drain_loop P T total_consumed d =
     (if total_consumed < rx_len d then
        let was_ready_before = (state (conn d) = Ready) in
        attempt_now (slice (rx_buf d) total_consumed (rx_len d)) d (\<lambda>input.
          case feed P (conn d) input of
            (Ok n, c) \<Rightarrow>
              let d = d\<lparr>conn := c\<rparr>;
                  total_consumed = total_consumed + n in
              if state c = Ready \<and> \<not> was_ready_before then
                await_then (async_radio_send_ready T d) (\<lambda>_ d. (Completed (Ok total_consumed), d))
              else
                (case async_radio_send_pong T d of
                   (Completed (Ok _), d) \<Rightarrow>
                     if n = 0 then (Completed (Ok total_consumed), d)
                     else async_radio_drain_loop P T total_consumed d
                 | (Completed (Err e), d) \<Rightarrow> (Completed (Err e), d)
                 | (Completed Panic, d) \<Rightarrow> (Completed Panic, d)
                 | (Dropped, d) \<Rightarrow> (Dropped, d))
          | (Err e, c) \<Rightarrow> await_then (async_radio_send_error T (d\<lparr>conn := c\<rparr>)) (\<lambda>_ d. (Completed (Err e), d))
          | (Panic, c) \<Rightarrow> (Completed Panic, d\<lparr>conn := c\<rparr>))
      else (Completed (Ok total_consumed), d))"
  by pat_completeness auto
termination
proof (relation "measure (\<lambda>(P, T, total, d). rx_len d - total)", goal_cases)
  case (2 P T total d)
  then show ?case by (auto dest!: arg_cong [of _ _ "\<lambda>r. rx_len (snd r)"])
qed simp

declare async_radio_drain_loop.simps [simp del]

definition async_radio_drain_buffer :: "('b, 'v) radio_build \<Rightarrow> ('t, 'e) async_impl \<Rightarrow> ('v, 't) AsyncRadioDriver \<Rightarrow>
    (unit, ConnError) outcome awaited \<times> ('v, 't) AsyncRadioDriver" where
  "async_radio_drain_buffer P T d =
     await_then (async_radio_drain_loop P T 0 d) (\<lambda>total_consumed d.
       if 0 < total_consumed then (case discard total_consumed d of (r, d) \<Rightarrow> (Completed r, d))
       else (Completed (Ok ()), d))"

definition async_radio_poll :: "('b, 'v) radio_build \<Rightarrow> ('t, 'e) async_impl \<Rightarrow> ('v, 't) AsyncRadioDriver \<Rightarrow>
    (bool, ConnError) outcome awaited \<times> ('v, 't) AsyncRadioDriver" where
  "async_radio_poll P T d =
     (let read = (\<lambda>d.
        await_then (async_receive T d) (\<lambda>n d.
          if n = 0 then (Completed (Err (IoError 0)), d)
          else
            await_then (async_radio_drain_buffer P T (d\<lparr>rx_len := rx_len d + n\<rparr>)) (\<lambda>_ d.
              (Completed (Ok (state (conn d) = Established)), d))));
          drain = (\<lambda>d.
        if 0 < rx_len d then
          await_then (async_radio_drain_buffer P T d) (\<lambda>_ d. (Completed (Ok (state (conn d) = Established)), d))
        else read d) in
      if state (conn d) = Ready then
        (case write_ready (conn d) (replicate 32 0) of
           (Ok n, ready, c) \<Rightarrow>
             await_then (attempt_now (slice ready 0 n) (d\<lparr>conn := c\<rparr>) (async_transmit T (d\<lparr>conn := c\<rparr>)))
               (\<lambda>_ d. (Completed (Ok False), d))
         | (Err WrongState, _, c) \<Rightarrow> drain (d\<lparr>conn := c\<rparr>)
         | (Err e, _, c) \<Rightarrow> (Completed (Err e), d\<lparr>conn := c\<rparr>)
         | (Panic, _, c) \<Rightarrow> (Completed Panic, d\<lparr>conn := c\<rparr>))
      else drain d)"

definition async_radio_publish :: "('b, 'v) radio_build \<Rightarrow> ('t, 'e) async_impl \<Rightarrow> ('v, 't) AsyncRadioDriver \<Rightarrow>
    bytes \<Rightarrow> bytes \<Rightarrow> (nat, ConnError) outcome awaited \<times> ('v, 't) AsyncRadioDriver" where
  "async_radio_publish P T d grp body =
     attempt_now (publish_headers P (conn d) grp body) d (\<lambda>headers.
       case headers of
         None \<Rightarrow> (Completed (Ok 0), d)
       | Some (gh, gh_n, bh, bh_n) \<Rightarrow>
           await_then (attempt_now (slice gh 0 gh_n) d (async_transmit T d)) (\<lambda>_ d.
           await_then (async_transmit T d grp) (\<lambda>_ d.
           await_then (attempt_now (slice bh 0 bh_n) d (async_transmit T d)) (\<lambda>_ d.
           await_then (async_transmit T d body) (\<lambda>_ d.
             (Completed (Ok (gh_n + length grp + bh_n + length body)), d))))))"

end
