(* ===== verification/Radio_Driver_Run.thy ===== *)
theory Radio_Driver_Run
  imports Drive_Safe Drive_Failure Radio_Properties Radio_Driver_Sync Radio_Driver_Async Mock_Transport
begin

text \<open>
  The drivers of a RADIO connection. Their loop is written differently from that of the PUB
  drivers, and it is the same loop on every live driver; the \<^verbatim>\<open>poll\<close> of the asynchronous one leaves out a
  check, which never matters for a live driver.
\<close>

section \<open>The steps of the loop\<close>

abbreviation "rexec \<equiv> Radio_Connection.exec"

lemma new_radio_driver_gen: "new_radio_driver P T t = gen_new (rexec P) T (new_radio P) t"
  by (simp add: new_radio_driver_def gen_new_def split: prod.splits)

lemma radio_send_ready_gen: "radio_send_ready T d = gen_ready (rexec P) T d"
  by (simp add: radio_send_ready_def gen_send_def split: prod.splits)

lemma radio_send_error_gen: "radio_send_error T d = gen_error (rexec P) T d"
  by (auto simp: radio_send_error_def gen_error_def split: prod.splits outcome.splits)

lemma radio_write_pong_none: "pending_pong c = None \<Longrightarrow> Radio_Connection.write_pong c out = (Ok None, out, c)"
  by (simp add: Radio_Connection.write_pong_def)

lemma radio_write_pong_some: "pending_pong c = Some p \<Longrightarrow> fst (Radio_Connection.write_pong c out) \<noteq> Ok None"
  by (cases p) (auto simp: Radio_Connection.write_pong_def Let_def attempt_def split: outcome.splits)

lemma radio_send_pong_gen: "radio_send_pong T d = gen_pong (rexec P) T d"
proof (cases "pending_pong (conn d)")
  case None
  then show ?thesis by (simp add: radio_send_pong_def gen_pong_def radio_write_pong_none)
next
  case (Some p)
  obtain r out c where w: "Radio_Connection.write_pong (conn d) (replicate 23 0) = (r, out, c)"
    by (metis prod.exhaust)
  with radio_write_pong_some [OF Some, of "replicate 23 0"] have "r \<noteq> Ok None" by simp
  with Some w show ?thesis by (cases r) (auto simp: radio_send_pong_def gen_pong_def gen_send_def)
qed

section \<open>On a transport\<close>

locale dish_driver = dish_build P + byte_stream T received sent
  for P :: "('b, 'v) radio_build" and T :: "('t, 'e) transport_impl" and received sent

sublocale dish_driver \<subseteq> drv: driver_client P "parse_ready_radio_from (target_of P)" RADIO_READY_FRAME
  "Radio_Connection.on_frame P" "radio_tab_ok P" "radio_groups P"
  "radio_effect (GROUP_CAP P) (GROUP_LEN_CAP P)" "{}" "Radio_Connection.feed P" "Radio_Connection.exec P"
  T received sent
  by unfold_locales (simp add: RADIO_READY_FRAME_def)

locale dish_driver_64 = dish_driver + dish_build_64

sublocale dish_driver_64 \<subseteq> sdrv: safe_driver P "parse_ready_radio_from (target_of P)" RADIO_READY_FRAME
  "Radio_Connection.on_frame P" "radio_tab_ok P" "radio_groups P"
  "radio_effect (GROUP_CAP P) (GROUP_LEN_CAP P)" "{}" "Radio_Connection.feed P" "Radio_Connection.exec P"
  T received sent
  by unfold_locales

interpretation mock_dish: dish_driver "list_radio_build bits F n l" "mock_impl kind"
  "\<lambda>t. take (peer_pos t) (peer_bytes t)" our_bytes for bits F n l and kind :: "'k \<Rightarrow> nat"
  by (rule dish_driver.intro) (rule list_dish.dish_build_axioms mock.byte_stream_axioms)+

interpretation mock_dish_64: dish_driver_64 "list_radio_build 64 F n l" "mock_impl kind"
  "\<lambda>t. take (peer_pos t) (peer_bytes t)" our_bytes for F n l and kind :: "'k \<Rightarrow> nat"
  by (rule dish_driver_64.intro) (rule mock_dish.dish_driver_axioms list_dish_64.dish_build_64_axioms)+

section \<open>The same loop\<close>

text \<open>
  The NULL side of the handshake: it never enters the states of PLAIN, so that a connection that has become
  ready was waiting for a greeting.
\<close>

definition null_link :: "'c link_scheme \<Rightarrow> bool" where
  "null_link c \<longleftrightarrow> mechanism c = Null \<and> state c \<in> {Greeting, Ready, Established, Failed}"

lemma null_link_step:
  assumes "hs_step b (handshake_of c) (handshake_of c')" and "null_link c"
  shows "null_link c'" and "state c' = Ready \<Longrightarrow> state c = Greeting \<or> state c = Ready"
  using assms by (auto elim!: hs_step.cases simp: handshake_of_def null_link_def)

context dish_build begin

abbreviation (input) null_conn where
  "null_conn accept c \<equiv> radio_inv P accept c \<and> null_link c"

lemma call_null:
  assumes "null_conn accept c"
  shows "null_conn accept (snd (rexec P c a))"
    and "state (snd (rexec P c a)) = Ready \<Longrightarrow> state c = Greeting \<or> state c = Ready"
  using assms radio.calls.exec_inv [of accept c a] null_link_step [OF radio.calls.exec_step [of accept c a]] by auto

end

sublocale dish_build \<subseteq> null: closed_under_calls "rexec P" "null_conn accept" for accept
  by unfold_locales (rule call_null)

context dish_build begin

lemma radio_loop_gen:
  "null_conn accept (conn d) \<Longrightarrow> radio_drain_loop P T k d = gen_loop (rexec P) T k d"
proof (induction "rx_len d - k" arbitrary: k d rule: less_induct)
  case less
  show ?case
  proof (cases "k < rx_len d \<and> rx_len d \<le> length (rx_buf d)")
    case False
    then show ?thesis
      by (cases "k < rx_len d") (simp_all add: radio_drain_loop.simps [of P T k d] gen_loop.simps [of _ T k d] slice_def)
  next
    case True
    obtain r c where f: "Radio_Connection.feed P (conn d) (take (rx_len d - k) (drop k (rx_buf d))) = (r, c)"
      by fastforce
    then have ex: "snd (rexec P (conn d) (Feed (take (rx_len d - k) (drop k (rx_buf d))))) = c" by simp
    note c = call_null [OF less.prems, of "Feed (take (rx_len d - k) (drop k (rx_buf d)))", unfolded ex]
    have turned: "state c = Ready \<and> state (conn d) \<noteq> Ready \<longleftrightarrow> state (conn d) = Greeting \<and> state c = Ready"
      using c(2) by auto
    have no_plain: "state (conn d) \<noteq> PlainHello" using less.prems by (auto simp: null_link_def)
    have rec: "radio_drain_loop P T (k + n) d' = gen_loop (rexec P) T (k + n) d'"
      if "gen_pong (rexec P) T (d\<lparr>conn := c\<rparr>) = (u, d')" "n \<noteq> 0" for n d' u
    proof -
      have "rx_len d' = rx_len d" using arg_cong [OF that(1), of "\<lambda>r. rx_len (snd r)"] by simp
      moreover have "null_conn accept (conn d')"
        using null.pong_keeps [of accept "d\<lparr>conn := c\<rparr>" T] c(1) that(1) by simp
      ultimately show ?thesis using that(2) True by (intro less) linarith+
    qed
    show ?thesis
    proof (cases r)
      case (Ok n)
      with True f rec no_plain show ?thesis
        unfolding radio_drain_loop.simps [of P T k d] gen_loop.simps [of _ T k d] radio_send_ready_gen [of _ _ P]
          radio_send_pong_gen [of _ _ P]
        by (auto simp: Let_def turned split: prod.splits outcome.splits)
    qed (use True f in \<open>simp_all add: radio_drain_loop.simps [of P T k d] gen_loop.simps [of _ T k d]
        radio_send_error_gen [of _ _ P] Let_def\<close>)
  qed
qed

lemma radio_drain_gen:
  assumes "null_conn accept (conn d)"
  shows "radio_drain_buffer P T d = gen_drain (rexec P) T d"
  by (simp only: radio_drain_buffer_def gen_drain_def radio_loop_gen [OF assms])

lemma try_then_cong: "(\<And>a s. r = (Ok a, s) \<Longrightarrow> k a s = k' a s) \<Longrightarrow> try_then r k = try_then r k'"
  by (cases r; cases "fst r") auto

lemma radio_read_gen:
  assumes "null_conn accept (conn d)"
  shows "try_then (receive T d) (\<lambda>n d.
          if n = 0 then (Err (IoError 0), d)
          else
            try_then (radio_drain_buffer P T (d\<lparr>rx_len := rx_len d + n\<rparr>)) (\<lambda>_ d.
              (Ok (state (conn d) = Established), d))) = gen_read (rexec P) T d"
  unfolding gen_read_def
proof (rule try_then_cong)
  fix n d'
  assume "receive T d = (Ok n, d')"
  then have "conn d' = conn d" using receive_conn [of T d] by simp
  with assms have "null_conn accept (conn (d'\<lparr>rx_len := rx_len d' + n\<rparr>))" by simp
  note drain = radio_drain_gen [OF this, of T]
  show "(if n = 0 then (Err (IoError 0), d')
      else try_then (radio_drain_buffer P T (d'\<lparr>rx_len := rx_len d' + n\<rparr>)) (\<lambda>_ d. (Ok (state (conn d) = Established), d))) =
    (if n = 0 then (Err (IoError 0), d')
      else try_then (gen_drain (rexec P) T (d'\<lparr>rx_len := rx_len d' + n\<rparr>)) (\<lambda>_ d. (Ok (state (conn d) = Established), d)))"
    by (simp only: drain)
qed

text \<open>What both variants of \<^verbatim>\<open>poll\<close> do once READY has been dealt with.\<close>

lemma radio_drain_then:
  assumes d: "null_conn accept (conn d)" and k: "\<And>d'. null_conn accept (conn d') \<Longrightarrow> k d' = k' d'"
  shows "try_then (radio_drain_buffer P T d) (\<lambda>_. k) = try_then (gen_drain (rexec P) T d) (\<lambda>_. k')"
  unfolding radio_drain_gen [OF d]
proof (rule try_then_cong)
  fix u d'
  assume "gen_drain (rexec P) T d = (Ok u, d')"
  with null.drain_keeps [of accept d T] d have "null_conn accept (conn d')" by simp
  then show "k d' = k' d'" by (rule k)
qed

lemma write_ready_null:
  assumes "null_conn accept (conn d)" and "Radio_Connection.write_ready (conn d) out = (r, ready, c)"
  shows "null_conn accept c"
  using call_null(1) [OF assms(1), of "WriteReady out"] assms(2) by simp

lemma radio_poll_gen:
  assumes d: "null_conn accept (conn d)"
  shows "radio_poll P T d = gen_poll (rexec P) T d"
proof -
  let ?read = "\<lambda>d. try_then (receive T d) (\<lambda>n d.
          if n = 0 then (Err (IoError 0), d)
          else
            try_then (radio_drain_buffer P T (d\<lparr>rx_len := rx_len d + n\<rparr>)) (\<lambda>_ d.
              (Ok (state (conn d) = Established), d)))"
  have after: "(if 0 < rx_len d then
          try_then (radio_drain_buffer P T d) (\<lambda>_ d'.
            if rx_len d' < rx_len d then (Ok (state (conn d') = Established), d') else ?read d')
        else ?read d) =
      (if 0 < rx_len d then
          try_then (gen_drain (rexec P) T d) (\<lambda>_ d'.
            if rx_len d' < rx_len d then (Ok (state (conn d') = Established), d') else gen_read (rexec P) T d')
        else gen_read (rexec P) T d)" if "null_conn accept (conn d)" for d
  proof -
    have "try_then (radio_drain_buffer P T d) (\<lambda>_ d'.
            if rx_len d' < rx_len d then (Ok (state (conn d') = Established), d') else ?read d') =
        try_then (gen_drain (rexec P) T d) (\<lambda>_ d'.
            if rx_len d' < rx_len d then (Ok (state (conn d') = Established), d') else gen_read (rexec P) T d')"
      by (rule radio_drain_then [OF that]) (simp only: radio_read_gen [of accept])
    with radio_read_gen [OF that, of T] show ?thesis by (simp only:)
  qed
  obtain r ready c where w: "Radio_Connection.write_ready (conn d) (replicate 32 0) = (r, ready, c)"
    by (metis prod.exhaust)
  with after [OF d] after [of "d\<lparr>conn := c\<rparr>"] write_ready_null [OF d w] show ?thesis
    unfolding radio_poll_def gen_poll_def Let_def
    by (auto split: outcome.splits ConnError.splits)
qed

end

lemma radio_driver_publish_gen:
  "radio_driver_publish P T d grp body
     = gen_publish (Radio_Connection.publish_headers P (conn d) grp body) T d grp body"
  by (simp add: radio_driver_publish_def gen_publish_def)

section \<open>Runs\<close>

definition radio_driver_step :: "('b, 'v) radio_build \<Rightarrow> ('t, 'e) transport_impl \<Rightarrow> ('v, 't) RadioDriver \<Rightarrow> driver_op \<Rightarrow>
    (nat, ConnError) outcome \<times> ('v, 't) RadioDriver" where
  "radio_driver_step P T = gen_step (radio_poll P T) (radio_driver_publish P T)"

abbreviation (input) gen_radio_step where
  "gen_radio_step P T \<equiv> gen_step (gen_poll (rexec P) T)
     (\<lambda>d grp body. gen_publish (Radio_Connection.publish_headers P (conn d) grp body) T d grp body)"

context dish_build begin

lemma gen_step_null:
  assumes "null_conn accept (conn d)" and "pl = gen_poll (rexec P) T \<or> pl = gen_poll_once (rexec P) T"
  shows "null_conn accept (conn (snd (gen_step pl (\<lambda>d grp body.
    gen_publish (Radio_Connection.publish_headers P (conn d) grp body) T d grp body) d a)))"
proof (cases a)
  case Poll
  have "null_conn accept (conn (snd (pl d)))"
    using null.poll_keeps [OF assms(1)] null.poll_once_keeps [OF assms(1)] assms(2) by blast
  then show ?thesis by (cases "pl d"; cases "fst (pl d)") (simp_all add: Poll gen_step_def)
qed (use assms in \<open>simp add: gen_step_def\<close>)

lemma new_radio_null:
  assumes "new_radio_driver P T t = Ok d0"
  shows "null_conn unit_auth (conn d0)" and "length (rx_buf d0) = 512" and "rx_len d0 = 0"
proof -
  have "null_conn unit_auth (new_radio P)"
    using start_inv(1) by (simp add: null_link_def new_radio_def)
  from call_null(1) [OF this, of "WriteGreeting (replicate 64 0)"]
  have "null_conn unit_auth (snd (snd (write_greeting (new_radio P) (replicate 64 0))))"
    by (simp add: split_beta)
  with assms show "null_conn unit_auth (conn d0)" "length (rx_buf d0) = 512" "rx_len d0 = 0"
    by (auto simp: new_radio_driver_def Let_def and_then_eq_Ok split_beta)
qed

text \<open>The driver runs as the generic one does, whatever fails.\<close>

lemma radio_run_gen:
  "null_conn accept (conn d) \<Longrightarrow> run (radio_driver_step P T) d as = run (gen_radio_step P T) d as"
proof (induction as arbitrary: d)
  case (Cons a as)
  have step: "radio_driver_step P T d a = gen_radio_step P T d a"
    by (cases a) (simp_all add: radio_driver_step_def gen_step_def radio_poll_gen [OF Cons.prems] radio_driver_publish_gen)
  with Cons.IH [OF gen_step_null [OF Cons.prems, of "gen_poll (rexec P) T" T a]] show ?case
    by (simp add: split_beta)
qed simp

end

context dish_driver begin

lemmas radio_driver_start = drv.new_ok [OF start_radio_fresh [of P Null] start_radio_inv start_radio_rel,
  unfolded start_radio_def Mechanism.case, folded new_radio_driver_gen]
lemmas radio_gen_run = drv.run_ok [OF radio_publish_headers_eq refl]
lemmas radio_stage = radio.rel_stage

lemma ok_null: "drv.ok Null accept us k d \<Longrightarrow> null_conn accept (conn d)"
  by (cases "state (conn d)") (auto simp: driver_ok_def live_def null_link_def)

lemma radio_run_ok:
  assumes "drv.ok Null accept us 0 d" "run (radio_driver_step P T) d as = (rs, d')" "all_ok rs"
  shows "\<exists>us'. drv.ok Null accept (us @ us') 0 d' \<and> messages us' = published as rs"
proof -
  have "run (gen_radio_step P T) d as = (rs, d')"
    using radio_run_gen [OF ok_null [OF assms(1)], of T] assms(2) by simp
  from radio_gen_run [OF assms(1) this assms(3)] show ?thesis by blast
qed

end

context dish_driver_64 begin

lemmas radio_run_fit = sdrv.run_fit [OF radio_publish_headers_eq disjI1 [OF refl] refl]
lemmas radio_once_fit = sdrv.run_fit [OF radio_publish_headers_eq disjI2 [OF refl] refl]

end

locale reliable_dish = dish_driver + reliable_stream

sublocale reliable_dish \<subseteq> rdrv: reliable_client P "parse_ready_radio_from (target_of P)" RADIO_READY_FRAME
  "Radio_Connection.on_frame P" "radio_tab_ok P" "radio_groups P"
  "radio_effect (GROUP_CAP P) (GROUP_LEN_CAP P)" "{}" "Radio_Connection.feed P" "Radio_Connection.exec P"
  T received sent coming
  by unfold_locales

interpretation mock_reliable_dish: reliable_dish "list_radio_build bits F n l" "mock_impl kind"
  "\<lambda>t. take (peer_pos t) (peer_bytes t)" our_bytes "\<lambda>t. drop (peer_pos t) (peer_bytes t)"
  for bits F n l and kind :: "'k \<Rightarrow> nat"
  by (rule reliable_dish.intro) (rule mock_dish.dish_driver_axioms mock_reliable.reliable_stream_axioms)+

context reliable_dish begin

lemma radio_driver_completes:
  assumes "received t = []" "sent t = []"
    and "meaning_of (target_of P) (FRAME_CAP P) (parse_ready_radio_from (target_of P)) Null unit_auth (coming t) = Talking v fs r"
    and "parse_frame (target_of P) (FRAME_CAP P) r = Incomplete"
  shows "\<exists>d0 n rs d us. new_radio_driver P T t = Ok d0 \<and> n \<le> length (coming t) \<and>
    run (radio_driver_step P T) d0 (replicate n Poll) = (rs, d) \<and> all_ok rs \<and>
    state (conn d) = Established \<and> peer_version_minor (conn d) = v \<and>
    radio_groups P (conn d) = foldl (radio_effect (GROUP_CAP P) (GROUP_LEN_CAP P)) {} fs \<and>
    list_all is_pong us \<and> drv.ok Null unit_auth us 0 d \<and> fst (radio_poll P T d) = Err (IoError 0)"
proof -
  have step: "gen_radio_step P T d Poll = try_then (gen_poll (rexec P) T d) (\<lambda>b d. (Ok (of_bool b), d))" for d
    by (simp add: gen_step_def)
  have start: "start_radio P Null accept = new_radio P" "start_auth Null accept = unit_auth" for accept
    by (simp_all add: start_radio_def start_auth_def)
  from rdrv.driver_completes [where step = "gen_radio_step P T", OF start_radio_fresh [of P Null, unfolded start]
      start_inv(1) start_rel(1) assms(1,2) step assms(3,4)] obtain d0 n rs d us where
    d: "gen_new (rexec P) T (new_radio P) t = Ok d0" "n \<le> length (coming t)"
      "run (gen_radio_step P T) d0 (replicate n Poll) = (rs, d)" "all_ok rs"
      "state (conn d) = Established" "peer_version_minor (conn d) = v"
      "radio_groups P (conn d) = foldl (radio_effect (GROUP_CAP P) (GROUP_LEN_CAP P)) {} fs"
      "list_all is_pong us" "drv.ok Null unit_auth us 0 d" "fst (gen_poll (rexec P) T d) = Err (IoError 0)"
    by (elim exE conjE) (rule that)
  have new: "new_radio_driver P T t = Ok d0" using d(1) by (simp add: new_radio_driver_gen)
  have ok0: "drv.ok Null unit_auth [] 0 d0"
    using radio_driver_start [OF new assms(1,2)] by (simp add: start_auth_def)
  have "run (radio_driver_step P T) d0 (replicate n Poll) = (rs, d)"
    using radio_run_gen [OF ok_null [OF ok0], of T] d(3) by simp
  moreover have "fst (radio_poll P T d) = Err (IoError 0)" using d(10) radio_poll_gen [OF ok_null [OF d(9)], of T] by simp
  ultimately show ?thesis using new d by blast
qed

end

section \<open>The asynchronous driver\<close>

lemma async_radio_new_follows:
  assumes "stands_for b T A"
  shows "follows b (async_radio_new P A t, ()) (new_radio_driver P T t, ())"
  by (auto simp: async_radio_new_def new_radio_driver_def Let_def async_greeting_follows [OF assms] split: prod.splits)

lemma async_radio_send_ready_follows:
  "stands_for b T A \<Longrightarrow> follows b (async_radio_send_ready A d) (radio_send_ready T d)"
  by (cases "fst (Radio_Connection.write_ready (conn d) (replicate 32 0))")
    (auto simp: async_radio_send_ready_def radio_send_ready_def intro!: async_slice_follows split: prod.splits)

lemma async_radio_send_pong_follows:
  "stands_for b T A \<Longrightarrow> follows b (async_radio_send_pong A d) (radio_send_pong T d)"
  by (cases "fst (Radio_Connection.write_pong (conn d) (replicate 23 0))")
    (auto simp: async_radio_send_pong_def radio_send_pong_def intro!: async_slice_follows split: prod.splits option.splits)

lemma async_radio_send_error_follows:
  assumes "stands_for b T A"
  shows "follows b (await_then (async_radio_send_error A d) (\<lambda>_ d. (Completed (Err e), d)))
    (try_then (radio_send_error T d) (\<lambda>_ d. (Err e, d)))"
proof -
  obtain r out where w: "Radio_Connection.write_error (conn d) (replicate 32 0) = (r, out)" by fastforce
  then show ?thesis
    by (cases r) (simp_all add: async_radio_send_error_def radio_send_error_def ignored_follows [OF assms])
qed

lemma async_radio_drain_loop_follows:
  assumes AT: "stands_for b T A"
  shows "follows b (async_radio_drain_loop P A k d) (radio_drain_loop P T k d)"
proof (induction "rx_len d - k" arbitrary: k d rule: less_induct)
  case less
  show ?case
  proof (cases "k < rx_len d \<and> rx_len d \<le> length (rx_buf d)")
    case False
    then show ?thesis
      by (cases "k < rx_len d")
        (simp_all add: radio_drain_loop.simps [of P T k d] async_radio_drain_loop.simps [of _ A k d] slice_def)
  next
    case True
    obtain r c where f: "Radio_Connection.feed P (conn d) (take (rx_len d - k) (drop k (rx_buf d))) = (r, c)"
      by fastforce
    have rec: "follows b (async_radio_drain_loop P A (k + n) d') (radio_drain_loop P T (k + n) d')"
      if "radio_send_pong T (d\<lparr>conn := c\<rparr>) = (u, d')" "n \<noteq> 0" for n d' u
      using arg_cong [OF that(1), of "\<lambda>r. rx_len (snd r)"] that(2) True by (intro less) (simp, linarith)
    note steps = async_radio_send_ready_follows [OF AT] async_radio_send_pong_follows [OF AT]
      async_radio_send_error_follows [OF AT]
    from True f rec show ?thesis
      by (cases r) (auto simp: radio_drain_loop.simps [of P T k d] async_radio_drain_loop.simps [of _ A k d] Let_def
          pong_await intro!: steps follows_await)
  qed
qed

lemma async_radio_drain_follows:
  "stands_for b T A \<Longrightarrow> follows b (async_radio_drain_buffer P A d) (radio_drain_buffer P T d)"
  unfolding async_radio_drain_buffer_def radio_drain_buffer_def
  by (auto intro!: follows_await async_radio_drain_loop_follows case_follows)

lemma async_radio_publish_follows:
  "stands_for b T A \<Longrightarrow> follows b (async_radio_publish P A d grp body) (radio_driver_publish P T d grp body)"
  unfolding async_radio_publish_def radio_driver_publish_def
  by (auto intro!: follows_await follows_attempt async_transmit_follows async_slice_follows split: option.splits)

text \<open>Its \<^verbatim>\<open>poll\<close> is the variant without the check whether anything was consumed.\<close>

context dish_build begin

lemma async_radio_poll_follows:
  assumes AT: "stands_for b T A" and d: "null_conn accept (conn d)"
  shows "follows b (async_radio_poll P A d) (gen_poll_once (rexec P) T d)"
proof -
  have read: "follows b
      (await_then (async_receive A d) (\<lambda>n d.
          if n = 0 then (Completed (Err (IoError 0)), d)
          else await_then (async_radio_drain_buffer P A (d\<lparr>rx_len := rx_len d + n\<rparr>)) (\<lambda>_ d.
              (Completed (Ok (state (conn d) = Established)), d))))
      (gen_read (rexec P) T d)" if "null_conn accept (conn d)" for d
    unfolding radio_read_gen [OF that, symmetric]
    by (auto intro!: follows_await async_receive_follows async_radio_drain_follows AT)
  have drain: "follows b (async_radio_drain_buffer P A d) (gen_drain (rexec P) T d)" if "null_conn accept (conn d)" for d
    using async_radio_drain_follows [OF AT, of P d] radio_drain_gen [OF that, of T] by simp
  obtain r ready c where w: "Radio_Connection.write_ready (conn d) (replicate 32 0) = (r, ready, c)"
    by (metis prod.exhaust)
  with write_ready_null [OF d w] d show ?thesis
    unfolding async_radio_poll_def gen_poll_once_def Let_def
    by (auto intro!: follows_await drain read async_slice_follows AT split: outcome.splits ConnError.splits)
qed

end

context dish_driver begin

text \<open>As long as nothing fails the check makes no difference.\<close>

lemma async_radio_poll_blocking:
  assumes AT: "blocking A T" and ok: "drv.ok Null accept us 0 d"
  shows "async_radio_poll P A d = completed (radio_poll P T d)"
proof -
  have wrong: "Radio_Connection.write_ready (conn d) (replicate 32 0) = (Err WrongState, replicate 32 0, conn d)"
    if "state (conn d) = Ready"
    using ok that by (simp add: radio_write_ready client_write_ready_def driver_ok_def live_def)
  have "gen_poll_once (rexec P) T d = gen_poll (rexec P) T d"
    using wrong drv.poll_drains [OF ok] drv.poll_reads [OF ok]
    by (cases "0 < rx_len d") (auto simp: gen_poll_once_def Let_def)
  with async_radio_poll_follows [OF blocking_stands [OF AT] ok_null [OF ok]] show ?thesis
    by (simp add: follows_never radio_poll_gen [OF ok_null [OF ok]])
qed

end

end
