(* ===== verification/Radio_Driver_Properties.thy ===== *)
theory Radio_Driver_Properties
  imports Radio_Driver_Run
begin

text \<open>The properties of the drivers of a RADIO connection.\<close>

text \<open>The driver of the unit tests with a DISH peer that joins a group.\<close>

definition example_dish :: bytes where
  "example_dish = dish_greeting @ dish_ready @ dish_join (ascii ''ab'')"

definition example_radio_ops :: "driver_op list" where
  "example_radio_ops = [Poll, Poll, Publish (ascii ''ab'') (ascii ''x''), Publish (ascii ''abc'') (ascii ''y'')]"

definition example_radio_run :: "bytes \<Rightarrow> driver_op list \<Rightarrow>
    (nat, ConnError) outcome list \<times> (bytes list, MockTransport) RadioDriver" where
  "example_radio_run bs ops =
     (case new_radio_driver (list_radio_build 64 64 2 8) (mock_impl id) (new_mock bs) of
        Ok d \<Rightarrow> run (radio_driver_step (list_radio_build 64 64 2 8) (mock_impl id)) d ops
      | _ \<Rightarrow> undefined)"

lemma example_radio_open:
  obtains d0 where "new_radio_driver (list_radio_build 64 64 2 8) (mock_impl id) (new_mock bs) = Ok d0"
    and "example_radio_run bs ops = run (radio_driver_step (list_radio_build 64 64 2 8) (mock_impl id)) d0 ops"
proof -
  have "fresh (FRAME_CAP (list_radio_build 64 64 2 8)) Null unit_auth (new_radio (list_radio_build 64 64 2 8))"
    by (simp add: fresh_def new_radio_def)
  then obtain d0 where "new_radio_driver (list_radio_build 64 64 2 8) (mock_impl id) (new_mock bs) = Ok d0"
    using mock_reliable_dish.rdrv.new_good [where kind = id and t = "new_mock bs"]
    by (fastforce simp: new_radio_driver_gen)
  with that show thesis by (simp add: example_radio_run_def)
qed

lemma example_radio_ok:
  "all_ok (fst (example_radio_run example_dish example_radio_ops))"
  "state (conn (snd (example_radio_run example_dish example_radio_ops))) = Established"
  by code_simp+

lemma foldl_radio_commands:
  "foldl (radio_effect n l) G (filter df_is_command fs) = foldl (radio_effect n l) G fs"
  by (induction fs arbitrary: G) (auto simp: radio_effect_def)

section \<open>Properties\<close>

text \<open>
  C13. A RADIO driver between its peer and its application: after any sequence of polls and publishes in
  which nothing failed, on any byte stream, the bytes received are those the connection has consumed
  followed by those in the buffer; an established connection serves exactly the groups that the JOIN and LEAVE
  commands among the consumed frames leave; and the bytes sent are the greeting, READY once it is due,
  and after the handshake whole PONGs and exactly the messages reported as sent, in order.
\<close>

theorem radio_driver_refinement:
  assumes "heapless_contract (heapless_of P)" and "byte_stream T received sent"
    and "new_radio_driver P T t = Ok d0" and "received t = []" and "sent t = []"
    and "run (radio_driver_step P T) d0 ops = (rs, d)" and "all_ok rs"
  shows "\<exists>s us. received (transport d) = s @ take (rx_len d) (rx_buf d) \<and> rx_len d \<le> 512 \<and>
    (let c = conn d;
         M = meaning_of (target_of P) (FRAME_CAP P) (parse_ready_radio_from (target_of P)) Null unit_auth s in
     case state c of
       Greeting \<Rightarrow> length s < 64 \<and> \<not> our_ready_sent c
     | Ready \<Rightarrow> our_ready_sent c \<and> (\<exists>r. M = AwaitReady (peer_version_minor c) r)
     | Established \<Rightarrow> our_ready_sent c \<and>
         (\<exists>fs r. M = Talking (peer_version_minor c) fs r \<and>
           (\<forall>grp. group_matches (heapless_of P) (group_table c) grp \<longleftrightarrow>
             grp \<in> foldl (radio_effect (GROUP_CAP P) (GROUP_LEN_CAP P)) {} (filter df_is_command fs)))
     | _ \<Rightarrow> False) \<and>
    sent (transport d) = encode_greeting [] @ (if our_ready_sent (conn d) then RADIO_READY_FRAME else []) @
      concat (map wire_sending us) \<and>
    messages us = published ops rs \<and> (us \<noteq> [] \<longrightarrow> state (conn d) = Established)"
proof -
  have drv: "dish_driver P T received sent"
    using assms(1,2) by (intro dish_driver.intro dish_build.intro)
  from dish_driver.radio_run_ok [OF drv dish_driver.radio_driver_start [OF drv assms(3-5)] assms(6,7)]
  obtain us where ok: "driver_ok RADIO_READY_FRAME (radio_inv P unit_auth) (radio_rel P) received sent Null us 0 d"
    and us: "messages us = published ops rs" by (auto simp: start_auth_def)
  then obtain s where s: "radio_rel P (conn d) s" "received (transport d) = s @ rest 0 d"
    and c: "radio_inv P unit_auth (conn d)" "mechanism (conn d) = Null" "live (conn d)" "rx_len d \<le> 512"
    and said: "said RADIO_READY_FRAME (conn d) us (sent (transport d))"
    by (auto simp: driver_ok_def)
  note matches = heapless_contract.group_matches_refines [OF assms(1)]
  have "length s < 64" if "state (conn d) = Greeting"
    using that s(1) c(3) by (auto simp: client_rel_def link_rel_def Let_def live_def)
  with dish_driver.radio_stage [OF drv c(1) s(1) refl] c(2,3)
  have "let c = conn d;
         M = meaning_of (target_of P) (FRAME_CAP P) (parse_ready_radio_from (target_of P)) Null unit_auth s in
     case state c of
       Greeting \<Rightarrow> length s < 64 \<and> \<not> our_ready_sent c
     | Ready \<Rightarrow> our_ready_sent c \<and> (\<exists>r. M = AwaitReady (peer_version_minor c) r)
     | Established \<Rightarrow> our_ready_sent c \<and>
         (\<exists>fs r. M = Talking (peer_version_minor c) fs r \<and>
           (\<forall>grp. group_matches (heapless_of P) (group_table c) grp \<longleftrightarrow>
             grp \<in> foldl (radio_effect (GROUP_CAP P) (GROUP_LEN_CAP P)) {} (filter df_is_command fs)))
     | _ \<Rightarrow> False"
    by (cases "state (conn d)"; simp add: live_def Let_def foldl_radio_commands) (auto simp: matches)
  moreover have "\<not> our_welcome_sent (conn d)"
    using c(2,3) by (cases "state (conn d)") (auto simp: live_def)
  with said have "sent (transport d) = encode_greeting [] @
      (if our_ready_sent (conn d) then RADIO_READY_FRAME else []) @ concat (map wire_sending us)"
    "us \<noteq> [] \<longrightarrow> state (conn d) = Established"
    using c(2) by (simp_all add: said_def handshake_said_def our_greeting_def)
  ultimately show ?thesis
    using s(2) us c(4) by (intro exI [of _ s] exI [of _ us]) (simp add: rest_def)
qed

theorem radio_driver_refinement_witness:
  "\<exists>s fs r us. let d = snd (example_radio_run example_dish example_radio_ops) in
    take (peer_pos (transport d)) (peer_bytes (transport d)) = s @ take (rx_len d) (rx_buf d) \<and>
    meaning_of \<lparr>usize_bits = 64, overflow_checks = True\<rparr> 64 (parse_ready_radio_from \<lparr>usize_bits = 64, overflow_checks = True\<rparr>)
      Null unit_auth s = Talking (peer_version_minor (conn d)) fs r \<and>
    our_bytes (transport d) = encode_greeting [] @ RADIO_READY_FRAME @ concat (map wire_sending us) \<and>
    messages us = [(ascii ''ab'', ascii ''x'')]"
proof -
  define d where "d = snd (example_radio_run example_dish example_radio_ops)"
  obtain d0 where o: "new_radio_driver (list_radio_build 64 64 2 8) (mock_impl id) (new_mock example_dish) = Ok d0"
    "run (radio_driver_step (list_radio_build 64 64 2 8) (mock_impl id)) d0 example_radio_ops =
      (fst (example_radio_run example_dish example_radio_ops), d)"
    by (rule example_radio_open [of example_dish example_radio_ops]) (simp add: d_def)
  have "state (conn d) = Established" using example_radio_ok(2) by (simp add: d_def)
  moreover have "published example_radio_ops (fst (example_radio_run example_dish example_radio_ops))
      = [(ascii ''ab'', ascii ''x'')]"
    by code_simp
  ultimately show ?thesis
    using radio_driver_refinement [OF _ mock.byte_stream_axioms o(1) _ _ o(2) example_radio_ok(1)]
    by (fastforce simp: d_def [symmetric] list_vec.heapless_contract_axioms new_mock_def Let_def)
qed

text \<open>
  C14. A RADIO driver gets there: with a DISH peer whose bytes are a complete handshake and well-formed frames, on a
  transport that works, no poll fails until every byte is consumed, after at most as many polls as
  bytes; then the connection is established with the groups that the peer has joined, and the
  next poll reports the end of the stream.
\<close>

theorem radio_driver_gets_there:
  assumes "heapless_contract (heapless_of P)" and "reliable_stream T received sent coming"
    and "received t = []" and "sent t = []"
    and "meaning_of (target_of P) (FRAME_CAP P) (parse_ready_radio_from (target_of P)) Null unit_auth (coming t) = Talking v fs r"
    and "parse_frame (target_of P) (FRAME_CAP P) r = Incomplete"
  shows "\<exists>d0 n rs d. new_radio_driver P T t = Ok d0 \<and> n \<le> length (coming t) \<and>
    run (radio_driver_step P T) d0 (replicate n Poll) = (rs, d) \<and> all_ok rs \<and>
    state (conn d) = Established \<and> peer_version_minor (conn d) = v \<and>
    (\<forall>grp. group_matches (heapless_of P) (group_table (conn d)) grp \<longleftrightarrow>
       grp \<in> foldl (radio_effect (GROUP_CAP P) (GROUP_LEN_CAP P)) {} (filter df_is_command fs)) \<and>
    fst (radio_poll P T d) = Err (IoError 0)"
proof -
  have "byte_stream T received sent" using assms(2) by (simp add: reliable_stream_def)
  then have drv: "reliable_dish P T received sent coming"
    using assms(1,2) by (intro reliable_dish.intro dish_driver.intro dish_build.intro)
  from reliable_dish.radio_driver_completes [OF drv assms(3-6)] obtain d0 n rs d us where
    d: "new_radio_driver P T t = Ok d0" "n \<le> length (coming t)"
      "run (radio_driver_step P T) d0 (replicate n Poll) = (rs, d)" "all_ok rs" "state (conn d) = Established"
      "peer_version_minor (conn d) = v" "radio_groups P (conn d) = foldl (radio_effect (GROUP_CAP P) (GROUP_LEN_CAP P)) {} fs"
      "fst (radio_poll P T d) = Err (IoError 0)"
    and ok: "driver_ok RADIO_READY_FRAME (radio_inv P unit_auth) (radio_rel P) received sent Null us 0 d"
    by (elim exE conjE) (rule that)
  from heapless_contract.group_matches_refines [OF assms(1)] d show ?thesis
    by (intro exI [of _ d0] exI [of _ n] exI [of _ rs] exI [of _ d]) (simp add: foldl_radio_commands)
qed

theorem radio_driver_gets_there_witness:
  "\<exists>d0 n rs d. new_radio_driver (list_radio_build 64 64 2 8) (mock_impl id) (new_mock example_dish) = Ok d0 \<and>
    run (radio_driver_step (list_radio_build 64 64 2 8) (mock_impl id)) d0 (replicate n Poll) = (rs, d) \<and>
    state (conn d) = Established \<and> group_matches list_heapless (group_table (conn d)) (ascii ''ab'') \<and>
    \<not> group_matches list_heapless (group_table (conn d)) (ascii ''a'')"
proof -
  let ?T = "\<lparr>usize_bits = 64, overflow_checks = True\<rparr>"
  let ?f = "\<lparr>df_more = False, df_is_command = True, df_body = drop 2 (dish_join (ascii ''ab''))\<rparr>"
  have ex: "meaning_of ?T 64 (parse_ready_radio_from ?T) Null unit_auth example_dish = Talking 1 [?f] []"
    "radio_effect 2 8 {} ?f = {ascii ''ab''}"
    by code_simp+
  have hyp: "heapless_contract (heapless_of (list_radio_build 64 64 2 8))"
    by (simp add: list_vec.heapless_contract_axioms)
  obtain d0 n rs d where
    "new_radio_driver (list_radio_build 64 64 2 8) (mock_impl id) (new_mock example_dish) = Ok d0"
    "run (radio_driver_step (list_radio_build 64 64 2 8) (mock_impl id)) d0 (replicate n Poll) = (rs, d)"
    "state (conn d) = Established"
    "\<forall>grp. group_matches list_heapless (group_table (conn d)) grp \<longleftrightarrow> grp \<in> foldl (radio_effect 2 8) {} [?f]"
    using radio_driver_gets_there [OF hyp mock_reliable.reliable_stream_axioms, of "new_mock example_dish" 1 "[?f]" "[]" id]
      ex(1)
    by (fastforce simp: new_mock_def simp del: foldl_Cons ascii_simps)
  with ex(2) show ?thesis by (intro exI [of _ d0] exI [of _ n] exI [of _ rs] exI [of _ d]) simp
qed

text \<open>
  C15. A RADIO driver never panics on a 64-bit target, over any byte stream, whatever its peer does and whichever
  operations failed before; its buffer indices stay in bounds.
\<close>

theorem radio_driver_never_panics_64:
  assumes "heapless_contract (heapless_of P)" and "usize_bits (target_of P) = 64"
    and "byte_stream T received sent" and "new_radio_driver P T t = Ok d0"
    and "run (radio_driver_step P T) d0 ops = (rs, d)"
  shows "Panic \<notin> set rs \<and> rx_len d \<le> 512 \<and> length (rx_buf d) = 512"
proof -
  have dish: "dish_build P" using assms(1) by (rule dish_build.intro)
  have drv64: "dish_driver_64 P T received sent"
    using assms(1-3)
    by (intro dish_driver_64.intro dish_driver.intro dish_build_64.intro dish_build_64_axioms.intro dish_build.intro)
  note d0 = dish_build.new_radio_null [OF dish assms(4)]
  have "run (gen_radio_step P T) d0 ops = (rs, d)"
    using dish_build.radio_run_gen [OF dish d0(1), of T ops] assms(5) by simp
  from dish_driver_64.radio_run_fit [OF drv64 _ this, of unit_auth] d0 show ?thesis by simp
qed

theorem radio_driver_never_panics_64_witness:
  "Panic \<notin> set (fst (example_radio_run example_dish example_radio_ops))"
proof -
  obtain d0 where o: "new_radio_driver (list_radio_build 64 64 2 8) (mock_impl id) (new_mock example_dish) = Ok d0"
    "run (radio_driver_step (list_radio_build 64 64 2 8) (mock_impl id)) d0 example_radio_ops =
      (fst (example_radio_run example_dish example_radio_ops), snd (example_radio_run example_dish example_radio_ops))"
    by (rule example_radio_open [of example_dish example_radio_ops]) simp
  from radio_driver_never_panics_64 [OF _ _ mock.byte_stream_axioms o] show ?thesis
    by (simp add: list_vec.heapless_contract_axioms)
qed

text \<open>
  C21. The asynchronous RADIO driver is the blocking one on every driver that can be reached without an
  error: as long as no future is dropped, polling and publishing do the same, although the asynchronous
  \<^verbatim>\<open>poll\<close> does not check whether draining the buffer consumed anything; the constructors agree as well.
\<close>

theorem async_radio_driver_is_blocking:
  assumes "heapless_contract (heapless_of P)" and "byte_stream T received sent" and AT: "blocking A T"
    and "new_radio_driver P T t = Ok d0" and "received t = []" and "sent t = []"
    and "run (radio_driver_step P T) d0 ops = (rs, d)" and "all_ok rs"
  shows "async_radio_new P A t = Completed (Ok d0) \<and>
    async_radio_poll P A d = completed (radio_poll P T d) \<and>
    async_radio_publish P A d grp body = completed (radio_driver_publish P T d grp body)"
proof -
  have drv: "dish_driver P T received sent"
    using assms(1,2) by (intro dish_driver.intro dish_build.intro)
  from dish_driver.radio_run_ok [OF drv dish_driver.radio_driver_start [OF drv assms(4-6)] assms(7,8)]
  obtain us where "driver_ok RADIO_READY_FRAME (radio_inv P unit_auth) (radio_rel P) received sent Null us 0 d"
    by (auto simp: start_auth_def)
  from dish_driver.async_radio_poll_blocking [OF drv AT this] show ?thesis
    using assms(4) async_radio_new_follows [OF blocking_stands [OF AT], of P t]
      async_radio_publish_follows [OF blocking_stands [OF AT], of P d grp body]
    by (simp add: follows_never completed_def)
qed

theorem async_radio_driver_is_blocking_witness:
  "fst (async_radio_poll (list_radio_build 64 64 2 8) (async_mock_impl id) (snd (example_radio_run example_dish [Poll])))
    = Completed (Ok True)"
proof -
  let ?d = "snd (example_radio_run example_dish [Poll])"
  obtain d0 where o: "new_radio_driver (list_radio_build 64 64 2 8) (mock_impl id) (new_mock example_dish) = Ok d0"
    "run (radio_driver_step (list_radio_build 64 64 2 8) (mock_impl id)) d0 [Poll] =
      (fst (example_radio_run example_dish [Poll]), ?d)"
    by (rule example_radio_open [of example_dish "[Poll]"]) simp
  have "all_ok (fst (example_radio_run example_dish [Poll]))"
    "fst (radio_poll (list_radio_build 64 64 2 8) (mock_impl id) ?d) = Ok True"
    by code_simp+
  with async_radio_driver_is_blocking [OF _ mock.byte_stream_axioms async_mock_blocking [of id] o(1) _ _ o(2)]
  show ?thesis by (simp add: completed_def list_vec.heapless_contract_axioms new_mock_def)
qed

end
