(* ===== verification/Driver_Dropped.thy ===== *)
theory Driver_Dropped
  imports Driver_Properties Radio_Driver_Properties
begin

text \<open>
  Dropped futures. An application that waits for a driver with a time limit drops the future of \<^verbatim>\<open>poll\<close> or
  \<^verbatim>\<open>publish\<close> at an \<^verbatim>\<open>await\<close>, and may use the driver again. Such a driver is in the state of the blocking
  driver after a failed operation of the transport; so it never panics on a 64-bit target, but a
  dropped write loses its place in the stream like a failed one.
\<close>

section \<open>Runs of asynchronous drivers\<close>

definition async_open_driver :: "('b, 'v) conn_build \<Rightarrow> ('t, 'e) async_impl \<Rightarrow> Mechanism \<Rightarrow> authenticator \<Rightarrow> 't \<Rightarrow>
    (('v, 't) AsyncDriver, ConnError) outcome awaited" where
  "async_open_driver P A m accept t =
     (case m of Null \<Rightarrow> async_new P A t | Plain \<Rightarrow> async_new_plain P A t accept)"

definition async_step :: "('d \<Rightarrow> (bool, ConnError) outcome awaited \<times> 'd) \<Rightarrow>
    ('d \<Rightarrow> bytes \<Rightarrow> bytes \<Rightarrow> (nat, ConnError) outcome awaited \<times> 'd) \<Rightarrow>
    'd \<Rightarrow> driver_op \<Rightarrow> (nat, ConnError) outcome awaited \<times> 'd" where
  "async_step pl pb d a =
     (case a of
        Poll \<Rightarrow> await_then (pl d) (\<lambda>b d. (Completed (Ok (of_bool b)), d))
      | Publish topic payload \<Rightarrow> pb d topic payload)"

definition async_driver_step :: "('b, 'v) conn_build \<Rightarrow> ('t, 'e) async_impl \<Rightarrow> ('v, 't) AsyncDriver \<Rightarrow> driver_op \<Rightarrow>
    (nat, ConnError) outcome awaited \<times> ('v, 't) AsyncDriver" where
  "async_driver_step P A = async_step (async_poll P A) (async_publish P A)"

definition async_radio_step :: "('b, 'v) radio_build \<Rightarrow> ('t, 'e) async_impl \<Rightarrow> ('v, 't) AsyncRadioDriver \<Rightarrow> driver_op \<Rightarrow>
    (nat, ConnError) outcome awaited \<times> ('v, 't) AsyncRadioDriver" where
  "async_radio_step P A = async_step (async_radio_poll P A) (async_radio_publish P A)"

lemma async_step_follows:
  assumes "follows b (pl' d) (pl d)" and "\<And>topic payload. follows b (pb' d topic payload) (pb d topic payload)"
  shows "follows b (async_step pl' pb' d a) (gen_step pl pb d a)"
  using assms by (cases a) (auto simp: async_step_def gen_step_def intro!: follows_await)

text \<open>A run in which every operation completes without an error.\<close>

definition all_completed :: "('a, 'e) outcome awaited list \<Rightarrow> bool" where
  "all_completed rs = list_all (\<lambda>r. case r of Completed (Ok _) \<Rightarrow> True | _ \<Rightarrow> False) rs"

lemma all_completed_simps [simp]:
  "all_completed []" "all_completed (r # rs) \<longleftrightarrow> (\<exists>a. r = Completed (Ok a)) \<and> all_completed rs"
  by (auto simp: all_completed_def split: awaited.splits outcome.splits)

lemma run_follows:
  assumes "\<And>d a. ok d \<Longrightarrow> follows b (step' d a) (step d a) \<and> ok (snd (step d a))"
  shows "ok d \<Longrightarrow> run step' d as = (rs', d') \<Longrightarrow>
    \<exists>rs. run step d as = (rs, d') \<and> (Completed Panic \<in> set rs' \<longrightarrow> Panic \<in> set rs) \<and> (all_completed rs' \<longrightarrow> all_ok rs)"
proof (induction as arbitrary: d rs')
  case (Cons a as)
  obtain r' s' r s where eq: "step' d a = (r', s')" "step d a = (r, s)" by fastforce
  have f: "follows b (r', s') (r, s)" "ok s" using assms [OF Cons.prems(1), of a] eq by simp_all
  then have same: "s' = s" by (simp add: follows_def)
  obtain rs1 where rs1: "run step' s as = (rs1, d')" "rs' = r' # rs1"
    using Cons.prems(2) eq same by (auto split: prod.splits)
  from Cons.IH [OF f(2) rs1(1)] obtain rs where
    "run step s as = (rs, d')" "Completed Panic \<in> set rs1 \<longrightarrow> Panic \<in> set rs" "all_completed rs1 \<longrightarrow> all_ok rs" by blast
  with eq f rs1 show ?case by (cases r') auto
qed simp

lemma open_follows:
  assumes "stands_for b T A"
  shows "follows b (async_open_driver P A m accept t, ()) (open_driver P T m accept t, ())"
  using async_new_follows [OF assms] by (cases m) (simp_all add: async_open_driver_def open_driver_def)

lemma driver_step_follows:
  "stands_for b T A \<Longrightarrow> follows b (async_driver_step P A d a) (driver_step P T d a)"
  unfolding async_driver_step_def driver_step_def
  by (intro async_step_follows async_poll_follows async_publish_follows)

lemmas driver_run_follows = run_follows [where ok = "\<lambda>_. True", OF conjI [OF driver_step_follows TrueI] TrueI]


context dish_build begin

lemma radio_async_run_follows:
  assumes AT: "stands_for b T A" and d: "null_conn accept (conn d)"
    and r: "run (async_radio_step P A) d as = (rs', d')"
  shows "\<exists>rs. run (gen_step (gen_poll_once (rexec P) T) (\<lambda>d grp body.
      gen_publish (Radio_Connection.publish_headers P (conn d) grp body) T d grp body)) d as = (rs, d') \<and>
    (Completed Panic \<in> set rs' \<longrightarrow> Panic \<in> set rs) \<and> (all_completed rs' \<longrightarrow> all_ok rs)"
proof -
  have each: "follows b (async_radio_step P A d a) (gen_step (gen_poll_once (rexec P) T) (\<lambda>d grp body.
      gen_publish (Radio_Connection.publish_headers P (conn d) grp body) T d grp body) d a) \<and>
    null_conn accept (conn (snd (gen_step (gen_poll_once (rexec P) T) (\<lambda>d grp body.
      gen_publish (Radio_Connection.publish_headers P (conn d) grp body) T d grp body) d a)))"
    if "null_conn accept (conn d)" for d a
  proof
    show "follows b (async_radio_step P A d a) (gen_step (gen_poll_once (rexec P) T) (\<lambda>d grp body.
        gen_publish (Radio_Connection.publish_headers P (conn d) grp body) T d grp body) d a)"
      unfolding async_radio_step_def radio_driver_publish_gen [symmetric]
      by (intro async_step_follows async_radio_poll_follows [OF AT that] async_radio_publish_follows AT)
  qed (rule gen_step_null [OF that disjI2 [OF refl]])
  from run_follows [where ok = "\<lambda>d. null_conn accept (conn d)", OF each d r] show ?thesis .
qed

end

section \<open>A transport that never gets to the end of a write\<close>

text \<open>
  The failing transport of the unit tests as an asynchronous one: its reads complete, and a write beyond the
  first \<^verbatim>\<open>fail_after\<close> ones waits until the application gives up.
\<close>

definition write_drop_impl :: "('k \<Rightarrow> nat) \<Rightarrow> (WriteFailTransport, 'k) async_impl" where
  "write_drop_impl kind =
     \<lparr>a_read = (\<lambda>t buf. case write_fail_read t buf of (r, s) \<Rightarrow> (Completed r, s)),
      a_write_all = (\<lambda>t bs.
        if bs = [] then (Completed (Ok ()), t)
        else if fail_after t \<le> write_count t then (Dropped, t\<lparr>write_count := write_count t + 1\<rparr>)
        else (Completed (Ok ()), t\<lparr>write_count := write_count t + 1, w_our_bytes := w_our_bytes t @ bs\<rparr>)),
      a_kind = kind\<rparr>"

interpretation dropping: byte_stream "failing_for_dropped (write_drop_impl kind)"
  "\<lambda>t. take (w_peer_pos t) (w_peer_bytes t)" w_our_bytes for kind
  by unfold_locales
    (auto simp: failing_for_dropped_def write_drop_impl_def write_fail_read_eq Let_def min_def take_add split: if_splits)

section \<open>Properties\<close>

text \<open>
  C18. A dropped future is a failed operation: whatever is dropped where, every operation of the asynchronous
  PUB driver ends in the same state as that operation of the blocking driver over the transport that fails where
  a future of the asynchronous one is dropped; when it completes the result is the same, and when it
  is dropped the blocking one returns an error. This holds of the constructors and of the drivers in any state.
\<close>

theorem dropped_is_failed:
  "let T = failing_for_dropped A in
     follows True (async_new P A t, ()) (new_driver P T t, ()) \<and>
     follows True (async_new_plain P A t accept, ()) (new_plain_driver P T t accept, ()) \<and>
     follows True (async_poll P A d) (poll P T d) \<and>
     follows True (async_publish P A d topic payload) (driver_publish P T d topic payload)"
  by (simp add: Let_def async_new_follows async_poll_follows async_publish_follows failing_for_dropped_stands)

text \<open>
  C19. Giving up on an operation never makes the asynchronous PUB driver panic: on a 64-bit target and
  over any byte stream, whichever polls and publishes are dropped at whichever await, and whatever failed
  before, no later operation panics and the buffer indices stay in bounds.
\<close>

theorem async_driver_never_panics_64:
  assumes "heapless_contract (heapless_of P)" and "usize_bits (target_of P) = 64"
    and "byte_stream (failing_for_dropped A) received sent"
    and "async_open_driver P A m accept t = Completed (Ok d0)" and "received t = []" and "sent t = []"
    and "run (async_driver_step P A) d0 ops = (rs, d)"
  shows "Completed Panic \<notin> set rs \<and> rx_len d \<le> 512 \<and> length (rx_buf d) = 512"
proof -
  let ?T = "failing_for_dropped A"
  have "open_driver P ?T m accept t = Ok d0"
    using open_follows [OF failing_for_dropped_stands, of P A m accept t] assms(4) by simp
  moreover obtain rs' where "run (driver_step P ?T) d0 ops = (rs', d)" "Completed Panic \<in> set rs \<longrightarrow> Panic \<in> set rs'"
    using driver_run_follows [OF failing_for_dropped_stands assms(7)] by blast
  ultimately show ?thesis
    using driver_in_bounds [OF assms(1-3) _ assms(5,6)] by blast
qed

text \<open>The greeting goes out, the READY that the first poll would send never does.\<close>

definition example_dropped_run :: "driver_op list \<Rightarrow>
    (nat, ConnError) outcome awaited list \<times> (bytes list Connection, WriteFailTransport) Driver" where
  "example_dropped_run ops =
     (case async_open_driver (list_build 64 64 2 8) (write_drop_impl id) Null example_accept (new_write_fail example_peer 1) of
        Completed (Ok d) \<Rightarrow> run (async_driver_step (list_build 64 64 2 8) (write_drop_impl id)) d ops
      | _ \<Rightarrow> undefined)"

lemma example_dropped:
  "fst (example_dropped_run [Poll, Poll]) =
     [Dropped, Completed (Err (DecodeError DecodeError.ReservedFlagBits))]"
  by code_simp

theorem async_driver_never_panics_64_witness:
  "Completed Panic \<notin> set (fst (example_dropped_run [Poll, Poll])) \<and> rx_len (snd (example_dropped_run [Poll, Poll])) \<le> 512"
proof -
  let ?P = "list_build 64 64 2 8" and ?A = "write_drop_impl (id :: nat \<Rightarrow> nat)"
  have "\<exists>d0. async_open_driver ?P ?A Null example_accept (new_write_fail example_peer 1) = Completed (Ok d0)"
    by (simp add: async_open_driver_def async_new_def write_greeting_eq new_connection_def Let_def greeting_values
        write_drop_impl_def new_write_fail_def)
  then obtain d0 where o: "async_open_driver ?P ?A Null example_accept (new_write_fail example_peer 1) = Completed (Ok d0)"
    by blast
  then have "run (async_driver_step ?P ?A) d0 [Poll, Poll] =
      (fst (example_dropped_run [Poll, Poll]), snd (example_dropped_run [Poll, Poll]))"
    by (simp add: example_dropped_run_def)
  from async_driver_never_panics_64 [OF _ _ dropping.byte_stream_axioms o _ _ this] show ?thesis
    by (simp add: list_vec.heapless_contract_axioms new_write_fail_def)
qed

text \<open>
  The same peer over reads of 40 bytes: it is READY that the application does not wait for.
\<close>

definition example_giving_up :: "(WriteFailTransport, nat) async_impl" where
  "example_giving_up = (write_drop_impl id)
     \<lparr>a_read := (\<lambda>t buf. case write_fail_read t (take 40 buf) of (r, b, t) \<Rightarrow> (Completed r, b @ drop 40 buf, t))\<rparr>"

lemma giving_up_at_most:
  "failing_for_dropped example_giving_up = at_most 40 (failing_for_dropped (write_drop_impl id))"
  by (simp add: example_giving_up_def failing_for_dropped_def at_most_def write_drop_impl_def split_beta fun_eq_iff split: option.splits)

interpretation giving_up: byte_stream "failing_for_dropped example_giving_up"
  "\<lambda>t. take (w_peer_pos t) (w_peer_bytes t)" w_our_bytes
  unfolding giving_up_at_most by (rule dropping.at_most_stream)

definition example_given_up :: "(nat, ConnError) outcome awaited list \<times> (bytes list Connection, WriteFailTransport) Driver" where
  "example_given_up =
     (case async_new (list_build 64 64 2 8) example_giving_up (new_write_fail example_peer 1) of
        Completed (Ok d) \<Rightarrow> run (async_driver_step (list_build 64 64 2 8) example_giving_up) d [Poll]
      | _ \<Rightarrow> undefined)"

text \<open>
  C20. Dropping \<^verbatim>\<open>poll\<close> loses the place in the stream. Over any byte stream, let the application give up a \<^verbatim>\<open>poll\<close>
  of a driver without a failure so far, and let the connection be waiting for the peer's READY then: it has taken the
  greeting, and its own READY was being written. Then the connection has consumed the 64 bytes of the greeting and has
  noted READY as sent, but the part of the greeting that had arrived last is still at the beginning of the buffer. The next
  \<^verbatim>\<open>poll\<close> feeds this part to the connection again, as a frame: unless it is dropped as well, it returns the error
  of the connection, a decoding error when the part is the whole greeting and \<^verbatim>\<open>NotACommand\<close> when it begins with
  two zero bytes, as it does when the part before it ends in the padding of the mechanism's name.
\<close>

theorem dropped_poll_loses_sync:
  assumes "heapless_contract (heapless_of P)" and "byte_stream (failing_for_dropped A) received sent"
    and "async_new P A t = Completed (Ok d0)" and "received t = []" and "sent t = []"
    and "run (async_driver_step P A) d0 ops = (rs, d)" and "all_completed rs"
    and "state (conn d) = Greeting" and "async_poll P A d = (Dropped, d1)" and "state (conn d1) = Ready"
  shows "\<exists>s buf. buf = take (rx_len d1) (rx_buf d1) \<and> received (transport d1) = s @ buf \<and>
    length s < 64 \<and> 64 \<le> length (s @ buf) \<and> our_ready_sent (conn d1) \<and>
    meaning_of (target_of P) (FRAME_CAP P) (parse_ready_from (target_of P)) Null unit_auth (take 64 (s @ buf))
      = AwaitReady (peer_version_minor (conn d1)) [] \<and>
    (\<forall>e' c. Connection.feed P (conn d1) buf = (Err e', c) \<longrightarrow> fst (async_poll P A d1) \<in> {Completed (Err e'), Dropped}) \<and>
    (s = [] \<longrightarrow> fst (async_poll P A d1) \<in> {Completed (Err (DecodeError DecodeError.ReservedFlagBits)), Dropped}) \<and>
    (16 \<le> length s \<and> length s < 32 \<or> take 2 buf = [0, 0] \<longrightarrow>
       fst (async_poll P A d1) \<in> {Completed (Err (NullError NotACommand)), Dropped})"
proof -
  let ?T = "failing_for_dropped A"
  note stands = failing_for_dropped_stands [of A]
  have drv: "pub_driver P ?T received sent"
    using assms(1,2) by (intro pub_driver.intro pub_build.intro)
  have "open_driver P ?T Null accept t = Ok d0" for accept
    using async_new_follows(1) [OF stands, of P t] assms(3) by (simp add: open_driver_def)
  note start = pub_driver.driver_start [OF drv this assms(4,5)]
  obtain rs' where "run (driver_step P ?T) d0 ops = (rs', d)" "all_ok rs'"
    using driver_run_follows [OF stands assms(6)] assms(7) by blast
  from pub_driver.driver_run [OF drv start this]
  obtain us where ok: "driver_ok READY_FRAME (conn_inv P unit_auth) (conn_rel P) received sent Null us 0 d"
    by (auto simp: start_auth_def)
  obtain e where poll: "poll P ?T d = (Err e, d1)"
    using async_poll_follows [OF stands, of P d] assms(9) by (cases "poll P ?T d") auto
  have again: "fst (async_poll P A d1) \<in> {Completed (Err e), Dropped}" if "fst (poll P ?T d1) = Err e" for e
    using async_poll_follows [OF stands, of P d1] that by (auto simp: follows_def)
  from pub_driver.refed_greeting [OF drv ok assms(8) poll assms(10)] again show ?thesis by meson
qed

theorem dropped_poll_loses_sync_witness:
  "let d1 = snd (async_poll (list_build 64 64 2 8) example_giving_up (snd example_given_up)) in
     rx_len d1 = 40 \<and> state (conn d1) = Ready \<and> our_ready_sent (conn d1) \<and>
     fst (async_poll (list_build 64 64 2 8) example_giving_up d1) \<in> {Completed (Err (NullError NotACommand)), Dropped}"
proof -
  let ?P = "list_build 64 64 2 8"
  define d where "d = snd example_given_up"
  define d1 where "d1 = snd (async_poll ?P example_giving_up d)"
  have ex: "all_completed (fst example_given_up)" "state (conn d) = Greeting"
    "fst (async_poll ?P example_giving_up d) = Dropped"
    "state (conn d1) = Ready" "rx_len d1 = 40" "take 2 (take (rx_len d1) (rx_buf d1)) = [0, 0]"
    unfolding d_def d1_def by code_simp+
  obtain d0 where o: "async_new ?P example_giving_up (new_write_fail example_peer 1) = Completed (Ok d0)"
    "run (async_driver_step ?P example_giving_up) d0 [Poll] = (fst example_given_up, d)"
  proof -
    have "case async_new ?P example_giving_up (new_write_fail example_peer 1) of Completed (Ok _) \<Rightarrow> True | _ \<Rightarrow> False"
      by code_simp
    then obtain d0 where "async_new ?P example_giving_up (new_write_fail example_peer 1) = Completed (Ok d0)"
      by (auto split: awaited.splits outcome.splits elim: outcome.exhaust)
    then show thesis using that by (simp add: example_given_up_def d_def)
  qed
  from ex(3) have p: "async_poll ?P example_giving_up d = (Dropped, d1)" by (simp add: d1_def prod_eq_iff)
  from dropped_poll_loses_sync [OF _ giving_up.byte_stream_axioms o(1) _ _ o(2) ex(1,2) p ex(4)] ex
  show ?thesis
    by (auto simp: d_def [symmetric] d1_def [symmetric] list_vec.heapless_contract_axioms new_write_fail_def)
qed

text \<open>The asynchronous RADIO driver, whose futures may be dropped as well.\<close>

lemma async_radio_driver_never_panics_64:
  assumes "heapless_contract (heapless_of P)" and "usize_bits (target_of P) = 64"
    and "byte_stream (failing_for_dropped A) received sent"
    and "async_radio_new P A t = Completed (Ok d0)"
    and "run (async_radio_step P A) d0 ops = (rs, d)"
  shows "Completed Panic \<notin> set rs \<and> rx_len d \<le> 512 \<and> length (rx_buf d) = 512"
proof -
  let ?T = "failing_for_dropped A"
  have drv64: "dish_driver_64 P ?T received sent"
    using assms(1-3)
    by (intro dish_driver_64.intro dish_driver.intro dish_build_64.intro dish_build_64_axioms.intro dish_build.intro)
  have dish: "dish_build P" using assms(1) by (rule dish_build.intro)
  have new: "new_radio_driver P ?T t = Ok d0"
    using async_radio_new_follows [OF failing_for_dropped_stands, of P A t] assms(4) by simp
  note d0 = dish_build.new_radio_null [OF dish new]
  obtain rs' where "run (gen_step (gen_poll_once (rexec P) ?T) (\<lambda>d grp body.
      gen_publish (Radio_Connection.publish_headers P (conn d) grp body) ?T d grp body)) d0 ops = (rs', d)"
    "Completed Panic \<in> set rs \<longrightarrow> Panic \<in> set rs'"
    using dish_build.radio_async_run_follows [OF dish failing_for_dropped_stands d0(1) assms(5)] by blast
  with dish_driver_64.radio_once_fit [OF drv64, of unit_auth d0] d0 show ?thesis by fastforce
qed

end
