(* ===== verification/Smoltcp_Adapter.thy ===== *)
theory Smoltcp_Adapter
  imports Driver_Properties
begin

text \<open>
  The adapter that makes a TCP socket of the third-party crate \<^verbatim>\<open>smoltcp\<close> a transport
  (\<^verbatim>\<open>src/io/smoltcp.rs\<close>). The socket is a parameter: its operations \<^verbatim>\<open>recv_slice\<close> and
  \<^verbatim>\<open>send_slice\<close>. So are \<^verbatim>\<open>write_all\<close>, which \<^verbatim>\<open>embedded_io\<close> provides for every \<^verbatim>\<open>write\<close>, and the kinds that it
  defines for errors, by their numbers.
\<close>

datatype RecvError = Finished | InvalidState

record ('s, 'e) tcp_socket =
  recv_slice :: "'s \<Rightarrow> bytes \<Rightarrow> (nat, RecvError) outcome \<times> bytes \<times> 's"
  send_slice :: "'s \<Rightarrow> bytes \<Rightarrow> (nat, 'e) outcome \<times> 's"

record error_kinds =
  Other :: nat
  BrokenPipe :: nat
  NotConnected :: nat

datatype 'e AdapterError = Send 'e | Recv RecvError

definition adapter_kind :: "error_kinds \<Rightarrow> 'e AdapterError \<Rightarrow> nat" where
  "adapter_kind K e =
     (case e of
        Send _ \<Rightarrow> Other K
      | Recv e \<Rightarrow> (case e of Finished \<Rightarrow> BrokenPipe K | InvalidState \<Rightarrow> NotConnected K))"

definition adapter_read :: "('s, 'e) tcp_socket \<Rightarrow> 's \<Rightarrow> bytes \<Rightarrow> (nat, 'e AdapterError) outcome \<times> bytes \<times> 's" where
  "adapter_read S s buf = (case recv_slice S s buf of (r, buf, s) \<Rightarrow> (map_err Recv r, buf, s))"

definition adapter_write :: "('s, 'e) tcp_socket \<Rightarrow> 's \<Rightarrow> bytes \<Rightarrow> (nat, 'e AdapterError) outcome \<times> 's" where
  "adapter_write S s buf = (case send_slice S s buf of (r, s) \<Rightarrow> (map_err Send r, s))"

definition adapter_flush :: "'s \<Rightarrow> (unit, 'e AdapterError) outcome \<times> 's" where
  "adapter_flush s = (Ok (), s)"

definition adapter_impl :: "error_kinds \<Rightarrow> ('s, 'e AdapterError) write_all_op \<Rightarrow> ('s, 'e) tcp_socket \<Rightarrow>
    ('s, 'e AdapterError) transport_impl" where
  "adapter_impl K all S =
     \<lparr>t_read = adapter_read S, t_write_all = all (adapter_write S), t_kind = adapter_kind K\<rparr>"

section \<open>The adapter under a driver\<close>

text \<open>
  \<^verbatim>\<open>recv_slice\<close> returns 0 when nothing has arrived yet. For the trait, and so for the drivers, 0 is
  the end of the stream: the \<^verbatim>\<open>poll\<close> of a driver that has to read fails.
\<close>

lemma adapter_nothing_yet:
  assumes "recv_slice S (transport d) (rx_buf d) = (Ok 0, rx_buf d, s)"
    and "rx_len d = 0" and "state (conn d) \<noteq> Ready"
  shows "poll P (adapter_impl K all S) d = (Err (IoError 0), d\<lparr>transport := s\<rparr>)"
  using assms by (simp add: poll_def receive_def adapter_impl_def adapter_read_def)

text \<open>
  \<^verbatim>\<open>send_slice\<close> returns 0 when the send buffer is full, and the adapter hands the 0 on. The trait forbids it, and
  \<^verbatim>\<open>write_all\<close> panics: so does publishing to a subscriber that does not read fast enough.
\<close>

lemma adapter_write_all_full:
  assumes "write_all_contract all" and "bs \<noteq> []" and "adapter_write S s bs = (Ok 0, s')"
  shows "fst (t_write_all (adapter_impl K all S) s bs) = Panic"
  using write_all_contract.all_zero [OF assms(1,2), of "adapter_write S" s s'] assms(3) by (simp add: adapter_impl_def)

lemma adapter_write_zero: "send_slice S s bs = (Ok 0, s') \<Longrightarrow> adapter_write S s bs = (Ok 0, s')"
  by (simp add: adapter_write_def)

lemma adapter_full_buffer_panics:
  assumes "write_all_contract all"
    and "state (conn d) = Established" and "sub_matches (heapless_of P) (sub_table (conn d)) topic"
    and "send_slice S (transport d) (frame_header True False (length topic)) = (Ok 0, s)"
  shows "fst (driver_publish P (adapter_impl K all S) d topic payload) = Panic"
proof -
  have ne: "frame_header True False (length topic) \<noteq> []" by (simp add: frame_header_def)
  obtain t where "t_write_all (adapter_impl K all S) (transport d) (frame_header True False (length topic)) = (Panic, t)"
    using adapter_write_all_full [OF assms(1) ne adapter_write_zero [OF assms(4)]]
    by (metis prod.collapse)
  then show ?thesis
    using assms(2,3)
    by (simp add: driver_publish_def publish_headers_eq message_headers_def Let_def transmit_def)
qed

text \<open>
  C25. A socket that answers 0 is fatal for a driver over the adapter, although for \<^verbatim>\<open>smoltcp\<close> it only
  means to wait: while nothing has arrived the \<^verbatim>\<open>poll\<close> of an established driver with an empty buffer
  fails as at the end of the stream. While the send buffer is full, \<^verbatim>\<open>write\<close> of the adapter answers 0 for a frame
  header, which the trait forbids; over a \<^verbatim>\<open>write_all\<close> that panics then, as its documentation says, publishing a
  message that the peer wants panics.
\<close>

theorem adapter_zero_is_fatal:
  assumes "state (conn d) = Established" and "sub_matches (heapless_of P) (sub_table (conn d)) topic"
    and "rx_len d = 0" and "recv_slice S (transport d) (rx_buf d) = (Ok 0, rx_buf d, s)"
    and "send_slice S (transport d) (frame_header True False (length topic)) = (Ok 0, s')"
  shows "poll P (adapter_impl K all S) d = (Err (IoError 0), d\<lparr>transport := s\<rparr>) \<and>
    frame_header True False (length topic) \<noteq> [] \<and>
    adapter_write S (transport d) (frame_header True False (length topic)) = (Ok 0, s') \<and>
    (write_all_contract all \<longrightarrow> fst (driver_publish P (adapter_impl K all S) d topic payload) = Panic)"
  using adapter_nothing_yet [OF assms(4,3)] adapter_full_buffer_panics [OF _ assms(1,2,5)] assms(1)
    adapter_write_zero [OF assms(5)]
  by (simp add: frame_header_def)

theorem adapter_zero_is_fatal_witness:
  "let S = \<lparr>recv_slice = \<lambda>s buf. (Ok 0, buf, s), send_slice = \<lambda>s bs. (Ok 0 :: (nat, unit) outcome, s)\<rparr>;
       d = \<lparr>conn = conn (snd (example_driver_run example_peer example_ops)), transport = (),
            rx_buf = replicate 512 0, rx_len = 0\<rparr>;
       K = \<lparr>Other = 39, BrokenPipe = 32, NotConnected = 57\<rparr>
   in fst (poll (list_build 64 64 2 8) (adapter_impl K write_all_of S) d) = Err (IoError 0) \<and>
      fst (driver_publish (list_build 64 64 2 8) (adapter_impl K write_all_of S) d (ascii ''abc'') (ascii ''x'')) = Panic"
proof -
  have "sub_matches list_heapless (sub_table (conn (snd (example_driver_run example_peer example_ops)))) (ascii ''abc'')"
    by code_simp
  then show ?thesis
    using example_run_ok(2) adapter_zero_is_fatal
      [where P = "list_build 64 64 2 8" and topic = "ascii ''abc''" and payload = "ascii ''x''" and all = write_all_of
        and S = "\<lparr>recv_slice = \<lambda>s buf. (Ok 0, buf, s), send_slice = \<lambda>s bs. (Ok 0 :: (nat, unit) outcome, s)\<rparr>"
        and d = "\<lparr>conn = conn (snd (example_driver_run example_peer example_ops)), transport = (),
            rx_buf = replicate 512 0, rx_len = 0\<rparr>"]
    by (simp add: Let_def write_loop.write_all_contract_axioms)
qed

end
