(* ===== verification/Fuzz_Targets.thy ===== *)
theory Fuzz_Targets
  imports Drive_Safe Connection_Properties Radio_Properties Group_Table
begin

text \<open>
  The fuzz targets (\<^verbatim>\<open>fuzz/fuzz_targets\<close>): small programs that run a part of the library on arbitrary bytes
  and ignore its results. What they look for is a panic, so a target is \<^verbatim>\<open>Ok ()\<close> or \<^verbatim>\<open>Panic\<close> here, and
  the theorem of this theory is that on a 64-bit target no input makes any of them panic.
\<close>

unbundle bit_operations_syntax

text \<open>A result that is dropped with \<^verbatim>\<open>let _ = \<dots>\<close>: only a panic remains of it.\<close>

definition drop_result :: "('a, 'e) outcome \<Rightarrow> (unit, unit) outcome" where
  "drop_result r = (case r of Panic \<Rightarrow> Panic | _ \<Rightarrow> Ok ())"

section \<open>Parsers\<close>

definition fuzz_frame_decoder :: "target \<Rightarrow> bytes \<Rightarrow> (unit, unit) outcome" where
  "fuzz_frame_decoder T data = drop_result (fst (Frame.feed T 4096 (new_decoder 4096) data))"

definition fuzz_greeting_parser :: "bytes \<Rightarrow> (unit, unit) outcome" where
  "fuzz_greeting_parser data =
     and_then
       (if GREETING_PARTIAL_LEN \<le> length data
        then and_then (slice data 0 GREETING_PARTIAL_LEN) (\<lambda>arr. drop_result (parse_partial_greeting arr))
        else Ok ())
       (\<lambda>_. if GREETING_LEN \<le> length data
            then and_then (slice data 0 GREETING_LEN) (\<lambda>arr. drop_result (parse_greeting arr))
            else Ok ())"

definition fuzz_null_ready_parser :: "target \<Rightarrow> bytes \<Rightarrow> (unit, unit) outcome" where
  "fuzz_null_ready_parser T data =
     and_then (drop_result (parse_ready T data)) (\<lambda>_. drop_result (parse_ready_radio T data))"

definition fuzz_plain_hello_parser :: "bytes \<Rightarrow> (unit, unit) outcome" where
  "fuzz_plain_hello_parser data =
     (if data = [] then Ok ()
      else
        let is_command = (data ! 0 AND 1 \<noteq> 0) in
        and_then (slice data 1 (length data)) (\<lambda>body. drop_result (parse_hello_from is_command body)))"

section \<open>Tables\<close>

text \<open>\<^verbatim>\<open>data.chunks(n)\<close> of the standard library: pieces of \<^verbatim>\<open>n\<close> elements, the last may be shorter.\<close>

function chunks :: "nat \<Rightarrow> 'a list \<Rightarrow> 'a list list" where
  "chunks n xs = (if n = 0 \<or> xs = [] then [] else take n xs # chunks n (drop n xs))"
  by pat_completeness auto
termination
  by (relation "measure (\<lambda>(n, xs). length xs)") auto

declare chunks.simps [simp del]

text \<open>One chunk: its first byte chooses the operation and the rest is the argument.\<close>

definition fuzz_sub_op :: "('b, 'v) heapless \<Rightarrow> 'v SubTable \<Rightarrow> bytes \<Rightarrow> (unit, unit) outcome \<times> 'v SubTable" where
  "fuzz_sub_op H t chunk =
     (if chunk = [] then (Panic, t)
      else
        let fop = unat (chunk ! 0) mod 3 in
        attempt (slice chunk 1 (length chunk)) t (\<lambda>payload.
          if fop = 0 then (case subscribe H 8 64 t payload of (r, t) \<Rightarrow> (drop_result r, t))
          else if fop = 1 then (case cancel H t payload of (r, t) \<Rightarrow> (drop_result r, t))
          else if fop = 2 then (case sub_matches H t payload of _ \<Rightarrow> (Ok (), t))
          else (Panic, t)))"

definition fuzz_group_op :: "('b, 'v) heapless \<Rightarrow> 'v GroupTable \<Rightarrow> bytes \<Rightarrow> (unit, unit) outcome \<times> 'v GroupTable" where
  "fuzz_group_op H t chunk =
     (if chunk = [] then (Panic, t)
      else
        let fop = unat (chunk ! 0) mod 3 in
        attempt (slice chunk 1 (length chunk)) t (\<lambda>payload.
          if fop = 0 then (case join H 8 64 t payload of (r, t) \<Rightarrow> (drop_result r, t))
          else if fop = 1 then (case leave H t payload of (r, t) \<Rightarrow> (drop_result r, t))
          else if fop = 2 then (case group_matches H t payload of _ \<Rightarrow> (Ok (), t))
          else (Panic, t)))"

fun fuzz_ops :: "('t \<Rightarrow> bytes \<Rightarrow> (unit, unit) outcome \<times> 't) \<Rightarrow> 't \<Rightarrow> bytes list \<Rightarrow> (unit, unit) outcome \<times> 't" where
  "fuzz_ops step t [] = (Ok (), t)"
| "fuzz_ops step t (chunk # cs) = try_then (step t chunk) (\<lambda>_ t. fuzz_ops step t cs)"

definition fuzz_sub_table :: "('b, 'v) heapless \<Rightarrow> bytes \<Rightarrow> (unit, unit) outcome" where
  "fuzz_sub_table H data = fst (fuzz_ops (fuzz_sub_op H) (new_sub_table H) (chunks 64 data))"

definition fuzz_group_table :: "('b, 'v) heapless \<Rightarrow> bytes \<Rightarrow> (unit, unit) outcome" where
  "fuzz_group_table H data = fst (fuzz_ops (fuzz_group_op H) (new_group_table H) (chunks 64 data))"

section \<open>Connections\<close>

text \<open>The loop that feeds the input until it is used up or \<^verbatim>\<open>feed\<close> makes no progress.\<close>

function fuzz_feed_loop :: "('b, 'v) conn_build \<Rightarrow> 'v Connection \<Rightarrow> bytes \<Rightarrow> bytes \<Rightarrow> (unit, unit) outcome" where
  "fuzz_feed_loop P c out remaining =
     (if remaining = [] then Ok ()
      else
        (case Connection.feed P c remaining of
           (Ok n, c) \<Rightarrow>
             if 0 < n then
               and_then (slice remaining n (length remaining)) (\<lambda>_.
               case Connection.write_ready c out of (r, out, c) \<Rightarrow>
                 and_then (drop_result r) (\<lambda>_. fuzz_feed_loop P c out (drop n remaining)))
             else Ok ()
         | (Err _, c) \<Rightarrow> Ok ()
         | (Panic, c) \<Rightarrow> Panic))"
  by pat_completeness auto
termination
  by (relation "measure (\<lambda>(P, c, out, remaining). length remaining)") auto

declare fuzz_feed_loop.simps [simp del]

definition fuzz_connection_feed :: "target \<Rightarrow> ('b, 'v) heapless \<Rightarrow> bytes \<Rightarrow> (unit, unit) outcome" where
  "fuzz_connection_feed T H data =
     (let P = \<lparr>target_of = T, heapless_of = H, FRAME_CAP = 4096, SUB_CAP = 8, PREFIX_CAP = 64\<rparr>;
          c = new_connection P;
          out = replicate 256 0 in
      case Connection.write_greeting c out of (r, out, c) \<Rightarrow> and_then (drop_result r) (\<lambda>_. fuzz_feed_loop P c out data))"

function fuzz_radio_feed_loop :: "('b, 'v) radio_build \<Rightarrow> 'v RadioConnection \<Rightarrow> bytes \<Rightarrow> bytes \<Rightarrow> (unit, unit) outcome" where
  "fuzz_radio_feed_loop P c out remaining =
     (if remaining = [] then Ok ()
      else
        (case Radio_Connection.feed P c remaining of
           (Ok n, c) \<Rightarrow>
             if 0 < n then
               and_then (slice remaining n (length remaining)) (\<lambda>_.
               case Radio_Connection.write_ready c out of (r, out, c) \<Rightarrow>
                 and_then (drop_result r) (\<lambda>_. fuzz_radio_feed_loop P c out (drop n remaining)))
             else Ok ()
         | (Err _, c) \<Rightarrow> Ok ()
         | (Panic, c) \<Rightarrow> Panic))"
  by pat_completeness auto
termination
  by (relation "measure (\<lambda>(P, c, out, remaining). length remaining)") auto

declare fuzz_radio_feed_loop.simps [simp del]

definition fuzz_radio_connection_feed :: "target \<Rightarrow> ('b, 'v) heapless \<Rightarrow> bytes \<Rightarrow> (unit, unit) outcome" where
  "fuzz_radio_connection_feed T H data =
     (let P = \<lparr>target_of = T, heapless_of = H, FRAME_CAP = 4096, GROUP_CAP = 8, GROUP_LEN_CAP = 64\<rparr>;
          c = new_radio P;
          out = replicate 256 0 in
      case Radio_Connection.write_greeting c out of (r, out, c) \<Rightarrow> and_then (drop_result r) (\<lambda>_. fuzz_radio_feed_loop P c out data))"

section \<open>The frame encoders\<close>

text \<open>
  The encoders write a header for a length that comes from the input, and the decoder is fed the header and
  what there is of the body, cut to an array of 4096 bytes.
\<close>

definition fuzz_decode_frame :: "target \<Rightarrow> bytes \<Rightarrow> nat \<Rightarrow> nat \<Rightarrow> bytes \<Rightarrow> (unit, unit) outcome" where
  "fuzz_decode_frame T enc_buf hl blen data =
     (let frame = replicate 4096 0;
          tot = hl + min blen (4096 - hl) in
      if tot \<le> 4096 then
        and_then (slice enc_buf 0 hl) (\<lambda>hdr.
        and_then (copy_range frame 0 hl hdr) (\<lambda>frame.
        and_then
          (if 3 < length data then
             let copy_len = min (min blen (length data - 3)) (4096 - hl) in
             and_then (slice data 3 (3 + copy_len)) (\<lambda>bs. copy_range frame hl (hl + copy_len) bs)
           else Ok frame) (\<lambda>frame.
        and_then (slice frame 0 tot) (\<lambda>input.
          drop_result (fst (Frame.feed T 4096 (new_decoder 4096) input))))))
      else Ok ())"

definition fuzz_frame_encoder :: "target \<Rightarrow> bytes \<Rightarrow> (unit, unit) outcome" where
  "fuzz_frame_encoder T data =
     (if length data < 3 then Ok ()
      else
        let blen = (unat (data ! 0) OR push_bit 8 (unat (data ! 1)));
            has_more = (data ! 2 AND 1 \<noteq> 0);
            enc_buf = replicate 9 0 in
        (case encode_message_frame enc_buf blen has_more of (r, enc_buf) \<Rightarrow>
           and_then (case r of Ok hl \<Rightarrow> fuzz_decode_frame T enc_buf hl blen data | Err _ \<Rightarrow> Ok () | Panic \<Rightarrow> Panic) (\<lambda>_.
           case encode_command_frame enc_buf blen of (r, enc_buf) \<Rightarrow>
             (case r of Ok hl \<Rightarrow> fuzz_decode_frame T enc_buf hl blen data | Err _ \<Rightarrow> Ok () | Panic \<Rightarrow> Panic))))"

section \<open>No panics\<close>

lemma drop_result_Panic [simp]: "drop_result r = Panic \<longleftrightarrow> r = Panic"
  by (cases r) (simp_all add: drop_result_def)

lemma chunks_not_Nil: "c \<in> set (chunks n xs) \<Longrightarrow> c \<noteq> []"
proof (induction n xs rule: chunks.induct)
  case (1 n xs)
  then show ?case by (auto simp: chunks.simps [of n xs] split: if_splits)
qed

lemma fuzz_ops_safe:
  assumes "\<And>t c. I t \<Longrightarrow> c \<noteq> [] \<Longrightarrow> fst (step t c) \<noteq> Panic \<and> I (snd (step t c))"
  shows "I t \<Longrightarrow> (\<forall>c\<in>set cs. c \<noteq> []) \<Longrightarrow> fst (fuzz_ops step t cs) \<noteq> Panic"
proof (induction cs arbitrary: t)
  case (Cons c cs)
  with assms [of t c] show ?case by (cases "step t c"; cases "fst (step t c)") auto
qed simp

lemma decoder_fresh_safe: "fst (Frame.feed T CAP (new_decoder CAP) data) \<noteq> Panic"
  using feed_fresh [of CAP "new_decoder CAP" T data]
  by (simp add: feed_result_def split: parsed.splits)

lemma fuzz_decode_frame_safe:
  assumes "hl \<le> length enc_buf" "hl \<le> 9"
  shows "fuzz_decode_frame T enc_buf hl blen data \<noteq> Panic"
  using assms decoder_fresh_safe [of T 4096]
  by (auto simp: fuzz_decode_frame_def Let_def and_then_eq_Panic written_def)

lemma fuzz_parsers_safe:
  assumes "usize_bits T = 64" and "length data < 2 ^ 63"
  shows "fuzz_frame_decoder T data \<noteq> Panic" "fuzz_greeting_parser data \<noteq> Panic"
    "fuzz_null_ready_parser T data \<noteq> Panic" "fuzz_plain_hello_parser data \<noteq> Panic"
    "fuzz_frame_encoder T data \<noteq> Panic"
proof -
  show "fuzz_frame_decoder T data \<noteq> Panic"
    by (simp add: fuzz_frame_decoder_def decoder_fresh_safe)
  show "fuzz_greeting_parser data \<noteq> Panic"
    by (auto simp: fuzz_greeting_parser_def and_then_eq_Panic)
  show "fuzz_null_ready_parser T data \<noteq> Panic"
    using ready_never_panics_64 [OF assms] by (auto simp: fuzz_null_ready_parser_def and_then_eq_Panic)
  show "fuzz_plain_hello_parser data \<noteq> Panic"
    by (cases data) (auto simp: fuzz_plain_hello_parser_def Let_def and_then_eq_Panic)
  show "fuzz_frame_encoder T data \<noteq> Panic"
    using fuzz_decode_frame_safe frame_header_le
    by (auto simp: fuzz_frame_encoder_def Let_def and_then_eq_Panic encode_message_frame_eq encode_command_frame_eq
        MAX_FRAME_HEADER_def split: if_splits)
qed

context heapless_contract begin

lemma fuzz_tables_safe: "fuzz_sub_table H data \<noteq> Panic" "fuzz_group_table H data \<noteq> Panic"
proof -
  have op: "k mod 3 = 0 \<or> k mod 3 = 1 \<or> k mod 3 = 2" for k :: nat by linarith
  have "fst (fuzz_sub_op H t c) \<noteq> Panic \<and> sub_inv H 8 64 (snd (fuzz_sub_op H t c))"
    if "sub_inv H 8 64 t" "c \<noteq> []" for t c
    using subscribe_safe [OF that(1), of "drop 1 c"] cancel_safe [OF that(1), of "drop 1 c"] that op [of "unat (c ! 0)"]
    by (cases c) (auto simp: fuzz_sub_op_def Let_def split: prod.splits)
  moreover have "sub_inv H 8 64 (new_sub_table H)" by (simp add: sub_inv_def new_sub_table_subs)
  ultimately show "fuzz_sub_table H data \<noteq> Panic"
    unfolding fuzz_sub_table_def by (intro fuzz_ops_safe [where I = "sub_inv H 8 64"]) (auto dest: chunks_not_Nil)
  have "fst (fuzz_group_op H t c) \<noteq> Panic \<and> group_inv H 8 64 (snd (fuzz_group_op H t c))"
    if "group_inv H 8 64 t" "c \<noteq> []" for t c
    using join_safe [OF that(1), of "drop 1 c"] leave_safe [OF that(1), of "drop 1 c"] that op [of "unat (c ! 0)"]
    by (cases c) (auto simp: fuzz_group_op_def Let_def split: prod.splits)
  moreover have "group_inv H 8 64 (new_group_table H)"
    by (simp add: group_inv_def new_group_table_def group_list_def groups_def iter_new)
  ultimately show "fuzz_group_table H data \<noteq> Panic"
    unfolding fuzz_group_table_def by (intro fuzz_ops_safe [where I = "group_inv H 8 64"]) (auto dest: chunks_not_Nil)
qed

end

context pub_build_64 begin

lemma fuzz_feed_start:
  assumes "Connection.write_greeting (new_connection P) out = (r, out', c)"
  shows "conn_inv P unit_auth c \<and> r \<noteq> Panic"
  using pub.exec_inv [OF start_inv(1), of "WriteGreeting out"] pub.exec_safe [OF start_inv(1), of "WriteGreeting out"]
    safe.ready_safe assms by simp

lemma fuzz_feed_loop_safe: "conn_inv P accept c \<Longrightarrow> fuzz_feed_loop P c out remaining \<noteq> Panic"
proof (induction "length remaining" arbitrary: c out remaining rule: less_induct)
  case less
  show ?case
  proof (cases "remaining = []")
    case False
    obtain r c1 where f: "Connection.feed P c remaining = (r, c1)" by fastforce
    obtain q out' c2 where w: "Connection.write_ready c1 out = (q, out', c2)" by (metis prod.exhaust)
    have inv1: "conn_inv P accept c1" using pub.feed_inv [OF less.prems, of remaining] f by simp
    have inv2: "conn_inv P accept c2" "q \<noteq> Panic"
      using pub.exec_inv [OF inv1, of "WriteReady out"] pub.exec_safe [OF inv1, of "WriteReady out"] safe.ready_safe w
      by auto
    show ?thesis
    proof (cases r)
      case (Ok n)
      with f pub.feed_bound [OF less.prems] have n: "n \<le> length remaining" by blast
      have "fuzz_feed_loop P c2 out' (drop n remaining) \<noteq> Panic" if "0 < n"
        using that False inv2(1) by (intro less.hyps) simp_all
      with Ok f w n inv2(2) show ?thesis
        by (simp add: fuzz_feed_loop.simps [of P c out remaining] and_then_eq_Panic)
    next
      case Panic
      with f pub.feed_safe [OF less.prems, of remaining] safe.ready_safe show ?thesis by simp
    qed (use f in \<open>simp add: fuzz_feed_loop.simps [of P c out remaining]\<close>)
  qed (simp add: fuzz_feed_loop.simps [of P c out "[]"])
qed

end

context dish_build_64 begin

lemma fuzz_radio_feed_start:
  assumes "Radio_Connection.write_greeting (new_radio P) out = (r, out', c)"
  shows "radio_inv P unit_auth c \<and> r \<noteq> Panic"
  using radio.exec_inv [OF start_inv(1), of "WriteGreeting out"] radio.exec_safe [OF start_inv(1), of "WriteGreeting out"]
    safe.ready_safe assms by simp

lemma fuzz_radio_feed_loop_safe: "radio_inv P accept c \<Longrightarrow> fuzz_radio_feed_loop P c out remaining \<noteq> Panic"
proof (induction "length remaining" arbitrary: c out remaining rule: less_induct)
  case less
  show ?case
  proof (cases "remaining = []")
    case False
    obtain r c1 where f: "Radio_Connection.feed P c remaining = (r, c1)" by fastforce
    obtain q out' c2 where w: "Radio_Connection.write_ready c1 out = (q, out', c2)" by (metis prod.exhaust)
    have inv1: "radio_inv P accept c1" using radio.feed_inv [OF less.prems, of remaining] f by simp
    have inv2: "radio_inv P accept c2" "q \<noteq> Panic"
      using radio.exec_inv [OF inv1, of "WriteReady out"] radio.exec_safe [OF inv1, of "WriteReady out"] safe.ready_safe w
      by auto
    show ?thesis
    proof (cases r)
      case (Ok n)
      with f radio.feed_bound [OF less.prems] have n: "n \<le> length remaining" by blast
      have "fuzz_radio_feed_loop P c2 out' (drop n remaining) \<noteq> Panic" if "0 < n"
        using that False inv2(1) by (intro less.hyps) simp_all
      with Ok f w n inv2(2) show ?thesis
        by (simp add: fuzz_radio_feed_loop.simps [of P c out remaining] and_then_eq_Panic)
    next
      case Panic
      with f radio.feed_safe [OF less.prems, of remaining] safe.ready_safe show ?thesis by simp
    qed (use f in \<open>simp add: fuzz_radio_feed_loop.simps [of P c out remaining]\<close>)
  qed (simp add: fuzz_radio_feed_loop.simps [of P c out "[]"])
qed

end

text \<open>
  C38. The fuzz targets find nothing on a 64-bit target: no input, of any length that a slice can have, makes
  any of the nine targets panic, and each of them ends.
\<close>

theorem fuzz_targets_never_panic:
  assumes "heapless_contract H" and "usize_bits T = 64" and "length data < 2 ^ 63"
  shows "fuzz_frame_decoder T data \<noteq> Panic \<and> fuzz_frame_encoder T data \<noteq> Panic \<and> fuzz_greeting_parser data \<noteq> Panic \<and>
    fuzz_null_ready_parser T data \<noteq> Panic \<and> fuzz_plain_hello_parser data \<noteq> Panic \<and>
    fuzz_sub_table H data \<noteq> Panic \<and> fuzz_group_table H data \<noteq> Panic \<and>
    fuzz_connection_feed T H data \<noteq> Panic \<and> fuzz_radio_connection_feed T H data \<noteq> Panic"
proof -
  let ?P = "\<lparr>target_of = T, heapless_of = H, FRAME_CAP = 4096, SUB_CAP = 8, PREFIX_CAP = 64\<rparr>"
  let ?R = "\<lparr>target_of = T, heapless_of = H, FRAME_CAP = 4096, GROUP_CAP = 8, GROUP_LEN_CAP = 64\<rparr>"
  have P: "pub_build_64 ?P"
    using assms by (intro pub_build_64.intro pub_build.intro pub_build_64_axioms.intro) simp_all
  have R: "dish_build_64 ?R"
    using assms by (intro dish_build_64.intro dish_build.intro dish_build_64_axioms.intro) simp_all
  obtain r out c where g: "Connection.write_greeting (new_connection ?P) (replicate 256 0) = (r, out, c)"
    by (metis prod.exhaust)
  from pub_build_64.fuzz_feed_start [OF P g] have "fuzz_connection_feed T H data \<noteq> Panic"
    using pub_build_64.fuzz_feed_loop_safe [OF P] g
    by (auto simp: fuzz_connection_feed_def Let_def and_then_eq_Panic)
  moreover obtain r' out' c' where h: "Radio_Connection.write_greeting (new_radio ?R) (replicate 256 0) = (r', out', c')"
    by (metis prod.exhaust)
  from dish_build_64.fuzz_radio_feed_start [OF R h] have "fuzz_radio_connection_feed T H data \<noteq> Panic"
    using dish_build_64.fuzz_radio_feed_loop_safe [OF R] h
    by (auto simp: fuzz_radio_connection_feed_def Let_def and_then_eq_Panic)
  ultimately show ?thesis
    using fuzz_parsers_safe [OF assms(2,3)] heapless_contract.fuzz_tables_safe [OF assms(1)] by blast
qed

theorem fuzz_targets_never_panic_witness:
  "fuzz_connection_feed \<lparr>usize_bits = 64, overflow_checks = True\<rparr> list_heapless
     (sub_greeting @ sub_ready @ sub_subscribe (ascii ''a'') @ [0xFF]) \<noteq> Panic"
proof -
  have "length (sub_greeting @ sub_ready @ sub_subscribe (ascii ''a'') @ [0xFF]) = 105" by code_simp
  then show ?thesis
    using fuzz_targets_never_panic [OF list_vec.heapless_contract_axioms, of "\<lparr>usize_bits = 64, overflow_checks = True\<rparr>"
        "sub_greeting @ sub_ready @ sub_subscribe (ascii ''a'') @ [0xFF]"]
    by simp
qed

end
