(* ===== verification/Examples.thy ===== *)
theory Examples
  imports Driver_Dropped Smoltcp_Adapter
begin

text \<open>
  The example applications (\<^verbatim>\<open>examples\<close>). Arguments, sockets, printing and sleeping are left out; what is
  modelled is what they do with the library. \<^verbatim>\<open>Err ()\<close> is the end of the process with exit code 1. A loop
  \<^verbatim>\<open>while Instant::now() < deadline\<close> runs as often as its condition has been true, a number that the
  clock decides and that is an argument here: the clock is monotonic, so the condition is true so many
  times and then false.
\<close>

section \<open>pub_hello\<close>

text \<open>Polling until the connection is established; errors of \<^verbatim>\<open>poll\<close> are ignored.\<close>

fun hello_await :: "('b, 'v) conn_build \<Rightarrow> ('t, 'e) transport_impl \<Rightarrow> nat \<Rightarrow> ('v Connection, 't) Driver \<Rightarrow>
    (bool, unit) outcome \<times> ('v Connection, 't) Driver" where
  "hello_await P T 0 d = (Ok False, d)"
| "hello_await P T (Suc ticks) d =
     (case poll P T d of
        (Ok True, d) \<Rightarrow> (Ok True, d)
      | (Ok False, d) \<Rightarrow> hello_await P T ticks d
      | (Err _, d) \<Rightarrow> hello_await P T ticks d
      | (Panic, d) \<Rightarrow> (Panic, d))"

text \<open>Publishing until a subscription matches: whether the message was published.\<close>

fun hello_publish :: "('b, 'v) conn_build \<Rightarrow> ('t, 'e) transport_impl \<Rightarrow> nat \<Rightarrow> ('v Connection, 't) Driver \<Rightarrow>
    (bool, unit) outcome \<times> ('v Connection, 't) Driver" where
  "hello_publish P T 0 d = (Ok False, d)"
| "hello_publish P T (Suc ticks) d =
     (case poll P T d of
        (Panic, d) \<Rightarrow> (Panic, d)
      | (_, d) \<Rightarrow>
          (case driver_publish P T d (ascii ''hello'') (ascii ''world'') of
             (Ok n, d) \<Rightarrow> if 0 < n then (Ok True, d) else hello_publish P T ticks d
           | (Err _, d) \<Rightarrow> (Err (), d)
           | (Panic, d) \<Rightarrow> (Panic, d)))"

definition hello_handshake :: "('b, 'v) conn_build \<Rightarrow> ('t, 'e) transport_impl \<Rightarrow> nat \<Rightarrow> nat \<Rightarrow> ('v Connection, 't) Driver \<Rightarrow>
    (bool, unit) outcome \<times> ('v Connection, 't) Driver" where
  "hello_handshake P T ticks1 ticks2 driver =
     try_then (hello_await P T ticks1 driver) (\<lambda>established driver.
       if \<not> established then (Err (), driver) else hello_publish P T ticks2 driver)"

text \<open>The whole program, with the driver as it is at the end if there is one.\<close>

definition hello_run :: "('b, 'v) conn_build \<Rightarrow> ('t, 'e) transport_impl \<Rightarrow> nat \<Rightarrow> nat \<Rightarrow> 't \<Rightarrow>
    (bool, unit) outcome \<times> ('v Connection, 't) Driver option" where
  "hello_run P T ticks1 ticks2 stream =
     (case new_driver P T stream of
        Ok d \<Rightarrow> (case hello_handshake P T ticks1 ticks2 d of (r, d) \<Rightarrow> (r, Some d))
      | Err _ \<Rightarrow> (Err (), None)
      | Panic \<Rightarrow> (Panic, None))"

section \<open>embassy_pub\<close>

text \<open>The same over the asynchronous driver. The task itself is not dropped, its transport may be.\<close>

fun embassy_handshake :: "('b, 'v) conn_build \<Rightarrow> ('t, 'e) async_impl \<Rightarrow> nat \<Rightarrow> ('v, 't) AsyncDriver \<Rightarrow>
    (unit, unit) outcome awaited \<times> ('v, 't) AsyncDriver" where
  "embassy_handshake P A 0 d = (Completed (Err ()), d)"
| "embassy_handshake P A (Suc ticks) d =
     (case async_poll P A d of
        (Completed (Ok True), d) \<Rightarrow> (Completed (Ok ()), d)
      | (Completed (Ok False), d) \<Rightarrow> embassy_handshake P A ticks d
      | (Completed (Err _), d) \<Rightarrow> embassy_handshake P A ticks d
      | (Completed Panic, d) \<Rightarrow> (Completed Panic, d)
      | (Dropped, d) \<Rightarrow> (Dropped, d))"

fun embassy_publish :: "('b, 'v) conn_build \<Rightarrow> ('t, 'e) async_impl \<Rightarrow> nat \<Rightarrow> ('v, 't) AsyncDriver \<Rightarrow>
    (bool, unit) outcome awaited \<times> ('v, 't) AsyncDriver" where
  "embassy_publish P A 0 d = (Completed (Ok False), d)"
| "embassy_publish P A (Suc ticks) d =
     (case async_poll P A d of
        (Completed Panic, d) \<Rightarrow> (Completed Panic, d)
      | (Dropped, d) \<Rightarrow> (Dropped, d)
      | (Completed _, d) \<Rightarrow>
          (case async_publish P A d (ascii ''hello'') (ascii ''world'') of
             (Completed (Ok n), d) \<Rightarrow> if 0 < n then (Completed (Ok True), d) else embassy_publish P A ticks d
           | (Completed (Err _), d) \<Rightarrow> (Completed (Err ()), d)
           | (Completed Panic, d) \<Rightarrow> (Completed Panic, d)
           | (Dropped, d) \<Rightarrow> (Dropped, d)))"

definition embassy_pub_task :: "('b, 'v) conn_build \<Rightarrow> ('t, 'e) async_impl \<Rightarrow> nat \<Rightarrow> nat \<Rightarrow> 't \<Rightarrow> (bool, unit) outcome awaited" where
  "embassy_pub_task P A ticks1 ticks2 stream =
     (case async_new P A stream of
        Completed (Ok d) \<Rightarrow>
          fst (await_then (embassy_handshake P A ticks1 d) (\<lambda>_ d. embassy_publish P A ticks2 d))
      | Completed (Err _) \<Rightarrow> Completed (Err ())
      | Completed Panic \<Rightarrow> Completed Panic
      | Dropped \<Rightarrow> Dropped)"

section \<open>What the examples do\<close>

text \<open>The build of both examples: \<^verbatim>\<open>Driver::<8, 32, 1024, _>\<close>.\<close>

definition example_caps :: "target \<Rightarrow> ('b, 'v) heapless \<Rightarrow> ('b, 'v) conn_build" where
  "example_caps T H = \<lparr>target_of = T, heapless_of = H, FRAME_CAP = 1024, SUB_CAP = 8, PREFIX_CAP = 32\<rparr>"

text \<open>As long as nothing is dropped the two examples do the same.\<close>

lemma hello_await_no_Err [simp]: "fst (hello_await P T ticks d) \<noteq> Err ()"
proof (induction ticks arbitrary: d)
  case (Suc ticks)
  obtain r d1 where p: "poll P T d = (r, d1)" by fastforce
  show ?case by (cases r) (auto simp: p Suc.IH split: bool.splits)
qed simp

definition awaited_of :: "(bool, unit) outcome \<Rightarrow> (unit, unit) outcome" where
  "awaited_of r = and_then r (\<lambda>established. if established then Ok () else Err ())"

lemma embassy_handshake_follows:
  assumes AT: "stands_for False T A"
  shows "embassy_handshake P A ticks d =
    (Completed (awaited_of (fst (hello_await P T ticks d))), snd (hello_await P T ticks d))"
proof (induction ticks arbitrary: d)
  case (Suc ticks)
  obtain r d1 where p: "poll P T d = (r, d1)" by fastforce
  with async_poll_follows [OF AT, of P d] have a: "async_poll P A d = (Completed r, d1)" by (simp add: follows_never)
  show ?case
    by (cases r) (simp_all add: p a Suc.IH awaited_of_def split: bool.splits)
qed (simp add: awaited_of_def)

lemma embassy_publish_follows:
  assumes AT: "stands_for False T A"
  shows "embassy_publish P A ticks d = completed (hello_publish P T ticks d)"
proof (induction ticks arbitrary: d)
  case (Suc ticks)
  obtain r d1 q d2 where p: "poll P T d = (r, d1)"
    "driver_publish P T d1 (ascii ''hello'') (ascii ''world'') = (q, d2)" by fastforce
  then have a: "async_poll P A d = (Completed r, d1)"
    "async_publish P A d1 (ascii ''hello'') (ascii ''world'') = (Completed q, d2)"
    using async_poll_follows [OF AT, of P d] async_publish_follows [OF AT, of P d1]
    by (simp_all add: follows_never del: ascii_simps)
  show ?case by (cases r; cases q) (simp_all add: p a Suc.IH del: ascii_simps)
qed simp

lemma embassy_is_hello:
  assumes AT: "stands_for False T A"
  shows "embassy_pub_task P A ticks1 ticks2 t = Completed (fst (hello_run P T ticks1 ticks2 t))"
proof -
  have new: "async_new P A t = Completed (new_driver P T t)"
    using async_new_follows(1) [OF AT, of P t] by (simp add: follows_never completed_def)
  show ?thesis
  proof (cases "new_driver P T t")
    case (Ok d)
    obtain r d1 where h: "hello_await P T ticks1 d = (r, d1)" by fastforce
    then show ?thesis
      using Ok new embassy_publish_follows [OF AT, of P ticks2 d1] hello_await_no_Err [of P T ticks1 d]
      by (cases r; cases "hello_publish P T ticks2 d1") (simp_all add: embassy_pub_task_def hello_run_def hello_handshake_def completed_def
          embassy_handshake_follows [OF AT] awaited_of_def)
  qed (use new in \<open>simp_all add: embassy_pub_task_def hello_run_def\<close>)
qed

text \<open>What the example program reports as published has gone out last.\<close>

context pub_driver begin

lemma published_last:
  assumes "driver_publish P T d topic payload = (Ok n, d')" and "0 < n"
  shows "\<exists>bs. sent (transport d') = bs @ wire_message topic payload"
proof -
  let ?th = "frame_header True False (length topic)" and ?ph = "frame_header False False (length payload)"
  have msg: "wire_message topic payload = ?th @ topic @ ?ph @ payload"
    by (simp add: wire_message_def wire_frame_def topic_frame_def payload_frame_def)
  have "Connection.publish_headers P (conn d) topic payload = Ok (Some (message_headers topic payload))"
    using assms by (auto simp: driver_publish_gen gen_publish_def publish_headers_eq split: if_splits)
  then obtain u1 d1 u2 d2 u3 d3 u4 where "transmit T d ?th = (Ok u1, d1)" "transmit T d1 topic = (Ok u2, d2)"
    "transmit T d2 ?ph = (Ok u3, d3)" "transmit T d3 payload = (Ok u4, d')"
    using assms(1) by (auto simp: driver_publish_gen gen_publish_def message_headers_def Let_def try_then_eq_Ok)
  from this [THEN drv.transmit_ok] show ?thesis by (auto simp: msg)
qed

lemma hello_publish_last:
  "hello_publish P T ticks d = (Ok True, d') \<Longrightarrow> \<exists>bs. sent (transport d') = bs @ wire_message (ascii ''hello'') (ascii ''world'')"
proof (induction ticks arbitrary: d)
  case (Suc ticks)
  obtain r d1 q d2 where p: "poll P T d = (r, d1)"
    "driver_publish P T d1 (ascii ''hello'') (ascii ''world'') = (q, d2)" by fastforce
  then have last: "\<exists>bs. sent (transport d2) = bs @ wire_message (ascii ''hello'') (ascii ''world'')" if "q = Ok n" "0 < n" for n
    using published_last that by blast
  from Suc p last show ?case
    by (cases r; cases q) (auto simp del: ascii_simps split: if_splits)
qed simp

end

text \<open>On a 64-bit target it never panics, over any byte stream and for any time it is given.\<close>

context pub_driver_64 begin

lemma poll_keeps_fit: "sdrv.fit accept d \<Longrightarrow> sdrv.fit accept (snd (poll P T d)) \<and> fst (poll P T d) \<noteq> Panic"
  unfolding poll_gen by (rule sdrv.poll_fit)

lemma publish_keeps_fit:
  "sdrv.fit accept d \<Longrightarrow> sdrv.fit accept (snd (driver_publish P T d topic payload)) \<and>
     fst (driver_publish P T d topic payload) \<noteq> Panic"
  unfolding driver_publish_gen by (rule sdrv.publish_fit) (auto simp: publish_headers_eq)

lemma hello_await_fit:
  "sdrv.fit accept d \<Longrightarrow> sdrv.fit accept (snd (hello_await P T ticks d)) \<and> fst (hello_await P T ticks d) \<noteq> Panic"
proof (induction ticks arbitrary: d)
  case (Suc ticks)
  obtain r d1 where p: "poll P T d = (r, d1)" by fastforce
  with poll_keeps_fit [OF Suc.prems] have d1: "sdrv.fit accept d1" "r \<noteq> Panic" by auto
  show ?case
    using d1 Suc.IH [OF d1(1)] p by (cases r) (simp_all split: bool.splits)
qed simp

lemma hello_publish_fit: "sdrv.fit accept d \<Longrightarrow> fst (hello_publish P T ticks d) \<noteq> Panic"
proof (induction ticks arbitrary: d)
  case (Suc ticks)
  obtain r d1 where p: "poll P T d = (r, d1)" by fastforce
  with poll_keeps_fit [OF Suc.prems] have d1: "sdrv.fit accept d1" "r \<noteq> Panic" by auto
  obtain q d2 where q: "driver_publish P T d1 (ascii ''hello'') (ascii ''world'') = (q, d2)" by fastforce
  with publish_keeps_fit [OF d1(1)] have d2: "sdrv.fit accept d2" "q \<noteq> Panic" by (metis fst_conv snd_conv)+
  show ?case
    using d1(2) d2(2) Suc.IH [OF d2(1)] p q by (cases r; cases q) (simp_all del: ascii_simps)
qed simp

lemma new_driver_no_panic: "new_driver P T t \<noteq> Panic"
  using write_not_Panic [of t "encode_greeting []"]
  by (simp add: new_driver_def write_greeting_eq new_connection_def Let_def greeting_values and_then_eq_Panic
      split: prod.splits) auto

lemma hello_run_ok:
  assumes "received t = []" "sent t = []"
  shows "case hello_run P T ticks1 ticks2 t of (r, d) \<Rightarrow>
    r \<noteq> Panic \<and>
    (r = Ok True \<longrightarrow> (\<exists>d' bs. d = Some d' \<and> sent (transport d') = bs @ wire_message (ascii ''hello'') (ascii ''world'')))"
proof (cases "new_driver P T t")
  case (Ok d)
  with driver_start [of Null undefined t d] assms
  have d: "sdrv.fit (start_auth Null undefined) d"
    by (simp add: open_driver_def driver_ok_def)
  obtain r d1 where h: "hello_await P T ticks1 d = (r, d1)" by fastforce
  with hello_await_fit [OF d, of ticks1] have d1: "sdrv.fit (start_auth Null undefined) d1" "r \<noteq> Panic" by auto
  obtain q d2 where q: "hello_publish P T ticks2 d1 = (q, d2)" by fastforce
  from d1(2) hello_publish_fit [OF d1(1), of ticks2] hello_publish_last [of ticks2 d1 d2] Ok h q show ?thesis
    by (cases r) (auto simp: hello_run_def hello_handshake_def simp del: ascii_simps)
qed (simp_all add: hello_run_def new_driver_no_panic)

end

text \<open>
  C37. The example \<^verbatim>\<open>pub_hello\<close> says what it does: on a 64-bit target and over any byte stream it never panics, however
  long it is given and whatever the peer sends, and when it reports the message as published, the two frames of
  the message are the last bytes it has handed to its transport.
\<close>

theorem hello_publishes:
  assumes "heapless_contract H" and "byte_stream T received sent" and "received t = []" and "sent t = []"
  shows "case hello_run (example_caps \<lparr>usize_bits = 64, overflow_checks = oc\<rparr> H) T ticks1 ticks2 t of (r, d) \<Rightarrow>
    r \<noteq> Panic \<and>
    (r = Ok True \<longrightarrow> (\<exists>d' bs. d = Some d' \<and> sent (transport d') = bs @ wire_message (ascii ''hello'') (ascii ''world'')))"
proof -
  have "pub_driver_64 (example_caps \<lparr>usize_bits = 64, overflow_checks = oc\<rparr> H) T received sent"
    using assms(1,2)
    by (intro pub_driver_64.intro pub_driver.intro pub_build_64.intro pub_build_64_axioms.intro pub_build.intro)
      (simp_all add: example_caps_def)
  from pub_driver_64.hello_run_ok [OF this assms(3,4)] show ?thesis .
qed

text \<open>A peer that subscribes to what begins with \<^verbatim>\<open>he\<close>, on the transport of the tests.\<close>

definition hello_example :: "(bool, unit) outcome \<times> (bytes list Connection, MockTransport) Driver option" where
  "hello_example =
     hello_run (example_caps \<lparr>usize_bits = 64, overflow_checks = True\<rparr> list_heapless) (mock_impl id) 3 2
       (new_mock (sub_greeting @ sub_ready @ sub_subscribe (ascii ''he'')))"

lemma hello_example_published: "fst hello_example = Ok True"
  by code_simp

theorem hello_publishes_witness:
  "\<exists>d bs. snd hello_example = Some d \<and> our_bytes (transport d) = bs @ wire_message (ascii ''hello'') (ascii ''world'')"
proof -
  define t where "t = new_mock (sub_greeting @ sub_ready @ sub_subscribe (ascii ''he''))"
  have "take (peer_pos t) (peer_bytes t) = []" "our_bytes t = []" by (simp_all add: new_mock_def t_def)
  then have "case hello_example of (r, d) \<Rightarrow> r \<noteq> Panic \<and>
      (r = Ok True \<longrightarrow> (\<exists>d' bs. d = Some d' \<and> our_bytes (transport d') = bs @ wire_message (ascii ''hello'') (ascii ''world'')))"
    unfolding hello_example_def t_def [symmetric]
    by (rule hello_publishes [OF list_vec.heapless_contract_axioms mock.byte_stream_axioms])
  with hello_example_published show ?thesis by (auto simp: case_prod_beta simp del: ascii_simps)
qed

end
