(* ===== verification/Smoltcp_Pub.thy ===== *)
theory Smoltcp_Pub
  imports Smoltcp_Adapter
begin

text \<open>
  The example \<^verbatim>\<open>examples/smoltcp_pub.rs\<close>: an application that drives a PUB connection itself, on the adapter
  over a TCP socket. It differs from the drivers: errors are ignored, and a buffer that the connection does
  not consume is thrown away. One pass of its loop is a function on the variables of the loop.
\<close>

section \<open>The loop\<close>

text \<open>
  The local variables of \<^verbatim>\<open>main\<close> that its loop changes. The TCP stack (\<^verbatim>\<open>iface.poll\<close>) works on the socket
  between two passes and is not part of a pass.
\<close>

record ('v, 's) pub_app =
  app_conn :: "'v Connection"
  app_socket :: 's
  app_greeting_done :: bool
  app_greeting_buf :: "(bytes \<times> nat) option"
  app_rx_buf :: bytes
  app_rx_len :: nat
  app_established :: bool

definition new_pub_app :: "('b, 'v) conn_build \<Rightarrow> 's \<Rightarrow> ('v, 's) pub_app" where
  "new_pub_app P s =
     \<lparr>app_conn = new_connection P, app_socket = s, app_greeting_done = False, app_greeting_buf = None,
      app_rx_buf = replicate 512 0, app_rx_len = 0, app_established = False\<rparr>"

text \<open>\<^verbatim>\<open>let _ = transport.write_all(bs);\<close>.\<close>

definition app_send :: "('s, 'e AdapterError) write_all_op \<Rightarrow> ('s, 'e) tcp_socket \<Rightarrow> bytes \<Rightarrow> ('v, 's) pub_app \<Rightarrow> (unit, ConnError) outcome \<times> ('v, 's) pub_app" where
  "app_send all S bs a =
     (case all (adapter_write S) (app_socket a) bs of (r, s) \<Rightarrow> (ignore_err r, a\<lparr>app_socket := s\<rparr>))"

text \<open>The greeting is encoded once and written until a write succeeds.\<close>

definition app_encode_greeting :: "('v, 's) pub_app \<Rightarrow> (unit, ConnError) outcome \<times> ('v, 's) pub_app" where
  "app_encode_greeting a =
     (if app_greeting_buf a = None then
        (case Connection.write_greeting (app_conn a) (replicate 64 0) of (r, buf, c) \<Rightarrow>
           attempt r (a\<lparr>app_conn := c\<rparr>) (\<lambda>n. (Ok (), a\<lparr>app_conn := c, app_greeting_buf := Some (buf, n)\<rparr>)))
      else (Ok (), a))"

definition app_send_greeting :: "('s, 'e AdapterError) write_all_op \<Rightarrow> ('s, 'e) tcp_socket \<Rightarrow> ('v, 's) pub_app \<Rightarrow> (unit, ConnError) outcome \<times> ('v, 's) pub_app" where
  "app_send_greeting all S a =
     (case app_greeting_buf a of
        None \<Rightarrow> (Panic, a)
      | Some (greeting, n) \<Rightarrow>
          attempt (slice greeting 0 n) a (\<lambda>bs.
            case all (adapter_write S) (app_socket a) bs of
              (Ok _, s) \<Rightarrow> (Ok (), a\<lparr>app_socket := s, app_greeting_done := True\<rparr>)
            | (Err _, s) \<Rightarrow> (Ok (), a\<lparr>app_socket := s\<rparr>)
            | (Panic, s) \<Rightarrow> (Panic, a\<lparr>app_socket := s\<rparr>)))"

definition app_greet :: "('s, 'e AdapterError) write_all_op \<Rightarrow> ('s, 'e) tcp_socket \<Rightarrow> ('v, 's) pub_app \<Rightarrow> (unit, ConnError) outcome \<times> ('v, 's) pub_app" where
  "app_greet all S a =
     (if \<not> app_greeting_done a then try_then (app_encode_greeting a) (\<lambda>_ a. app_send_greeting all S a) else (Ok (), a))"

definition app_read :: "('s, 'e) tcp_socket \<Rightarrow> ('v, 's) pub_app \<Rightarrow> (unit, ConnError) outcome \<times> ('v, 's) pub_app" where
  "app_read S a =
     attempt (slice (app_rx_buf a) (app_rx_len a) (length (app_rx_buf a))) a (\<lambda>free.
       case adapter_read S (app_socket a) free of
         (r, free, s) \<Rightarrow>
           let a = a\<lparr>app_rx_buf := take (app_rx_len a) (app_rx_buf a) @ free, app_socket := s\<rparr> in
           (case r of
              Ok n \<Rightarrow> if n = 0 then (Ok (), a) else (Ok (), a\<lparr>app_rx_len := app_rx_len a + n\<rparr>)
            | Err _ \<Rightarrow> (Ok (), a)
            | Panic \<Rightarrow> (Panic, a)))"

text \<open>Errors of \<^verbatim>\<open>feed\<close> are ignored; a buffer of which nothing was consumed is thrown away.\<close>

definition app_feed :: "('b, 'v) conn_build \<Rightarrow> ('v, 's) pub_app \<Rightarrow> (unit, ConnError) outcome \<times> ('v, 's) pub_app" where
  "app_feed P a =
     (if 0 < app_rx_len a then
        let prev_rx = app_rx_len a in
        try_then
          (attempt (slice (app_rx_buf a) 0 (app_rx_len a)) a (\<lambda>input.
             case Connection.feed P (app_conn a) input of
               (Ok n, c) \<Rightarrow>
                 let a = a\<lparr>app_conn := c\<rparr> in
                 if 0 < n then
                   attempt (slice (app_rx_buf a) n (app_rx_len a)) a (\<lambda>rest.
                   attempt (copy_range (app_rx_buf a) 0 (length rest) rest) a (\<lambda>buf.
                     (Ok (), a\<lparr>app_rx_buf := buf, app_rx_len := app_rx_len a - n\<rparr>)))
                 else (Ok (), a)
             | (Err _, c) \<Rightarrow> (Ok (), a\<lparr>app_conn := c\<rparr>)
             | (Panic, c) \<Rightarrow> (Panic, a\<lparr>app_conn := c\<rparr>)))
          (\<lambda>_ a. (Ok (), if app_rx_len a = prev_rx \<and> 0 < app_rx_len a then a\<lparr>app_rx_len := 0\<rparr> else a))
      else (Ok (), a))"

definition app_ready :: "('s, 'e AdapterError) write_all_op \<Rightarrow> ('s, 'e) tcp_socket \<Rightarrow> ('v, 's) pub_app \<Rightarrow> (unit, ConnError) outcome \<times> ('v, 's) pub_app" where
  "app_ready all S a =
     (if state (app_conn a) = Ready then
        (case Connection.write_ready (app_conn a) (replicate 32 0) of
           (Ok n, ready, c) \<Rightarrow> attempt (slice ready 0 n) (a\<lparr>app_conn := c\<rparr>) (\<lambda>bs. app_send all S bs (a\<lparr>app_conn := c\<rparr>))
         | (Err _, _, c) \<Rightarrow> (Ok (), a\<lparr>app_conn := c\<rparr>)
         | (Panic, _, c) \<Rightarrow> (Panic, a\<lparr>app_conn := c\<rparr>))
      else (Ok (), a))"

definition app_pong :: "('s, 'e AdapterError) write_all_op \<Rightarrow> ('s, 'e) tcp_socket \<Rightarrow> ('v, 's) pub_app \<Rightarrow> (unit, ConnError) outcome \<times> ('v, 's) pub_app" where
  "app_pong all S a =
     (case Connection.write_pong (app_conn a) (replicate 23 0) of
        (Ok (Some n), pong, c) \<Rightarrow> attempt (slice pong 0 n) (a\<lparr>app_conn := c\<rparr>) (\<lambda>bs. app_send all S bs (a\<lparr>app_conn := c\<rparr>))
      | (Ok None, _, c) \<Rightarrow> (Ok (), a\<lparr>app_conn := c\<rparr>)
      | (Err _, _, c) \<Rightarrow> (Ok (), a\<lparr>app_conn := c\<rparr>)
      | (Panic, _, c) \<Rightarrow> (Panic, a\<lparr>app_conn := c\<rparr>))"

definition app_publish :: "('b, 'v) conn_build \<Rightarrow> ('s, 'e AdapterError) write_all_op \<Rightarrow> ('s, 'e) tcp_socket \<Rightarrow> ('v, 's) pub_app \<Rightarrow>
    (unit, ConnError) outcome \<times> ('v, 's) pub_app" where
  "app_publish P all S a =
     (if state (app_conn a) = Established then
        let a = (if \<not> app_established a then a\<lparr>app_established := True\<rparr> else a) in
        (case Connection.publish_headers P (app_conn a) (ascii ''hello'') (ascii ''world'') of
           Ok (Some (th, th_n, ph, ph_n)) \<Rightarrow>
             attempt (slice th 0 th_n) a (\<lambda>th.
             try_then (app_send all S th a) (\<lambda>_ a.
             try_then (app_send all S (ascii ''hello'') a) (\<lambda>_ a.
             attempt (slice ph 0 ph_n) a (\<lambda>ph.
             try_then (app_send all S ph a) (\<lambda>_ a.
             app_send all S (ascii ''world'') a)))))
         | Ok None \<Rightarrow> (Ok (), a)
         | Err _ \<Rightarrow> (Ok (), a)
         | Panic \<Rightarrow> (Panic, a))
      else (Ok (), a))"

text \<open>One pass of the loop, after the TCP stack has been driven.\<close>

definition app_pass :: "('b, 'v) conn_build \<Rightarrow> ('s, 'e AdapterError) write_all_op \<Rightarrow> ('s, 'e) tcp_socket \<Rightarrow> ('v, 's) pub_app \<Rightarrow>
    (unit, ConnError) outcome \<times> ('v, 's) pub_app" where
  "app_pass P all S a =
     try_then (app_greet all S a) (\<lambda>_ a.
     try_then (app_read S a) (\<lambda>_ a.
     try_then (app_feed P a) (\<lambda>_ a.
     try_then (app_ready all S a) (\<lambda>_ a.
     try_then (app_pong all S a) (\<lambda>_ a.
     app_publish P all S a)))))"

text \<open>Passes, each after what the TCP stack has done to the socket meanwhile.\<close>

fun app_passes :: "('b, 'v) conn_build \<Rightarrow> ('s, 'e AdapterError) write_all_op \<Rightarrow> ('s, 'e) tcp_socket \<Rightarrow> ('s \<Rightarrow> 's) list \<Rightarrow> ('v, 's) pub_app \<Rightarrow>
    (unit, ConnError) outcome \<times> ('v, 's) pub_app" where
  "app_passes P all S [] a = (Ok (), a)"
| "app_passes P all S (stack # stacks) a =
     try_then (app_pass P all S (a\<lparr>app_socket := stack (app_socket a)\<rparr>)) (\<lambda>_ a. app_passes P all S stacks a)"

section \<open>The socket\<close>

text \<open>
  What the documentation of \<^verbatim>\<open>smoltcp\<close> says of a TCP socket. \<^verbatim>\<open>recv_slice\<close> fills the beginning of the buffer it is
  given. \<^verbatim>\<open>send_slice\<close> enqueues as many bytes as there is free space in the transmit buffer, down to zero; an error
  enqueues nothing. \<^verbatim>\<open>free s\<close> is that space.
\<close>

locale tcp_contract =
  fixes S :: "('s, 'e) tcp_socket"
    and free :: "'s \<Rightarrow> nat"
  assumes recv_ok: "recv_slice S s buf = (Ok n, buf', s') \<Longrightarrow> n \<le> length buf \<and> length buf' = length buf \<and> free s' = free s"
    and recv_err: "recv_slice S s buf = (Err e, buf', s') \<Longrightarrow> length buf' = length buf \<and> free s' = free s"
    and recv_not_Panic: "fst (recv_slice S s buf) \<noteq> Panic"
    and send_ok: "send_slice S s bs = (Ok n, s') \<Longrightarrow> n = min (length bs) (free s) \<and> free s' = free s - n"
    and send_err: "send_slice S s bs = (Err f, s') \<Longrightarrow> free s' = free s"
    and send_not_Panic: "fst (send_slice S s bs) \<noteq> Panic"

text \<open>
  What one pass writes at most: the greeting, READY, a PONG with 16 bytes of context, and the message. A run is
  drained when the TCP stack has left that much free space before each of its passes.
\<close>

definition pass_bytes :: nat where
  "pass_bytes = 64 + 27 + 23 + 14"

fun drained :: "('b, 'v) conn_build \<Rightarrow> ('s, 'e AdapterError) write_all_op \<Rightarrow> ('s, 'e) tcp_socket \<Rightarrow> ('s \<Rightarrow> nat) \<Rightarrow>
    ('s \<Rightarrow> 's) list \<Rightarrow> ('v, 's) pub_app \<Rightarrow> bool" where
  "drained P all S free [] a \<longleftrightarrow> True"
| "drained P all S free (stack # stacks) a \<longleftrightarrow>
     pass_bytes \<le> free (stack (app_socket a)) \<and>
     drained P all S free stacks (snd (app_pass P all S (a\<lparr>app_socket := stack (app_socket a)\<rparr>)))"

section \<open>No pass fails\<close>

text \<open>The first pass encodes the greeting; from then on it is kept.\<close>

definition started :: "('b, 'v) conn_build \<Rightarrow> ('v, 's) pub_app \<Rightarrow> bool" where
  "started P a \<longleftrightarrow> conn_inv P unit_auth (app_conn a) \<and> length (app_rx_buf a) = 512 \<and> app_rx_len a \<le> 512 \<and>
     (\<exists>buf. app_greeting_buf a = Some (buf, 64) \<and> length buf = 64)"

lemma started_simps [simp]:
  "started P (a\<lparr>app_socket := s\<rparr>) = started P a" "started P (a\<lparr>app_established := b\<rparr>) = started P a"
  "started P (a\<lparr>app_greeting_done := b\<rparr>) = started P a"
  by (simp_all add: started_def)

text \<open>A step that does not fail and leaves \<^verbatim>\<open>k\<close> bytes of free space.\<close>

definition goes_on :: "('b, 'v) conn_build \<Rightarrow> ('s \<Rightarrow> nat) \<Rightarrow> nat \<Rightarrow> (unit, ConnError) outcome \<times> ('v, 's) pub_app \<Rightarrow> bool" where
  "goes_on P free k r \<longleftrightarrow> fst r = Ok () \<and> started P (snd r) \<and> k \<le> free (app_socket (snd r))"

lemma goes_on_Ok [simp]: "goes_on P free k (Ok (), a) \<longleftrightarrow> started P a \<and> k \<le> free (app_socket a)"
  by (simp add: goes_on_def)

lemma goes_on_then:
  "goes_on P free k r \<Longrightarrow> (\<And>a. started P a \<Longrightarrow> k \<le> free (app_socket a) \<Longrightarrow> goes_on P free k' (h () a)) \<Longrightarrow>
     goes_on P free k' (try_then r h)"
  by (cases r) (auto simp: goes_on_def)

lemma goes_on_weaken: "goes_on P free k r \<Longrightarrow> k' \<le> k \<Longrightarrow> goes_on P free k' r"
  by (simp add: goes_on_def)

locale pub_on_socket = pub_build_64 P + write_all_contract all + tcp_contract S free
  for P :: "('b, 'v) conn_build" and all :: "('s, 'e AdapterError) write_all_op"
    and S :: "('s, 'e) tcp_socket" and free
begin

text \<open>With room for all of it a write is one \<^verbatim>\<open>send_slice\<close>, or an error.\<close>

lemma write_with_room:
  assumes "length bs + k \<le> free s" and "all (adapter_write S) s bs = (r, s')"
  shows "r \<noteq> Panic \<and> k \<le> free s'"
proof (cases "bs = []")
  case True
  with assms show ?thesis by (auto simp: all_Nil)
next
  case False
  obtain q t where w: "send_slice S s bs = (q, t)" by fastforce
  show ?thesis
  proof (cases q)
    case (Ok n)
    with send_ok [OF w [unfolded Ok]] assms(1) have "n = length bs" "free t = free s - n" by auto
    with all_at_once [OF False, of "adapter_write S" s t] w Ok assms show ?thesis
      by (simp add: adapter_write_def)
  next
    case (Err e)
    with send_err [OF w [unfolded Err]] all_err [OF False, of "adapter_write S" s "Send e" t] w assms show ?thesis
      by (simp add: adapter_write_def)
  qed (use send_not_Panic [of s bs] w in simp)
qed

lemma app_send_goes_on:
  assumes "started P a" and "length bs + k \<le> free (app_socket a)"
  shows "goes_on P free k (app_send all S bs a)"
  using write_with_room [OF assms(2)] assms(1)
  by (auto simp: app_send_def goes_on_def ignore_err_ok split: prod.splits)

lemma app_send_greeting_goes_on:
  assumes "started P a" and "64 + k \<le> free (app_socket a)"
  shows "goes_on P free k (app_send_greeting all S a)"
proof -
  obtain buf where "app_greeting_buf a = Some (buf, 64)" "length buf = 64" using assms(1) by (auto simp: started_def)
  with write_with_room [of buf k "app_socket a"] assms show ?thesis
    by (auto simp: app_send_greeting_def split: prod.splits outcome.splits)
qed

lemma app_read_goes_on:
  assumes "started P a" and "k \<le> free (app_socket a)"
  shows "goes_on P free k (app_read S a)"
proof -
  let ?free = "drop (app_rx_len a) (app_rx_buf a)"
  obtain r buf s where r: "recv_slice S (app_socket a) ?free = (r, buf, s)" by (metis prod.exhaust)
  have a: "length ?free = 512 - app_rx_len a" "length (app_rx_buf a) = 512" "app_rx_len a \<le> 512"
    using assms(1) by (auto simp: started_def)
  show ?thesis
  proof (cases r)
    case (Ok n)
    with recv_ok [OF r [unfolded Ok]] r a assms show ?thesis
      by (auto simp: app_read_def adapter_read_def Let_def started_def)
  next
    case (Err e)
    with recv_err [OF r [unfolded Err]] r a assms show ?thesis
      by (auto simp: app_read_def adapter_read_def Let_def started_def)
  qed (use recv_not_Panic [of "app_socket a" ?free] r in simp)
qed

lemma call_started:
  assumes "started P a" and "Connection.exec P (app_conn a) b = ((r, out), c)"
  shows "started P (a\<lparr>app_conn := c\<rparr>) \<and> r \<noteq> Panic \<and> (\<forall>n. r = Ok n \<longrightarrow> (\<forall>input. b \<noteq> Feed input) \<longrightarrow> n \<le> length out)"
proof -
  have inv: "conn_inv P unit_auth (app_conn a)" using assms(1) by (simp add: started_def)
  show ?thesis
    using assms pub.exec_inv [OF inv, of b] pub.exec_safe [OF inv, of b] safe.ready_safe pub.write_bound [OF inv]
    by (auto simp: started_def)
qed

lemma app_encode_goes_on:
  assumes "started P a \<or> a = new_pub_app P s" and "k \<le> free (app_socket a)"
  shows "goes_on P free k (app_encode_greeting a)"
  using assms(1)
proof
  assume a: "a = new_pub_app P s"
  obtain r out c where w: "Connection.write_greeting (new_connection P) (replicate 64 0) = (r, out, c)"
    by (metis prod.exhaust)
  have "conn_inv P unit_auth c" using pub.exec_inv [OF start_inv(1), of "WriteGreeting (replicate 64 0)"] w by simp
  moreover have "r = Ok 64" "length out = 64"
    using w by (auto simp: write_greeting_eq new_connection_def greeting_values)
  ultimately show ?thesis
    using w assms(2) by (simp add: a app_encode_greeting_def new_pub_app_def started_def)
qed (use assms(2) in \<open>auto simp: app_encode_greeting_def started_def\<close>)

lemma app_greet_goes_on:
  assumes "started P a \<or> a = new_pub_app P s" and "64 + k \<le> free (app_socket a)"
  shows "goes_on P free k (app_greet all S a)"
proof (cases "app_greeting_done a")
  case True
  with assms show ?thesis by (auto simp: app_greet_def new_pub_app_def)
next
  case False
  with goes_on_then [OF app_encode_goes_on [OF assms] app_send_greeting_goes_on] show ?thesis
    by (simp add: app_greet_def)
qed

lemma app_feed_goes_on:
  assumes "started P a" and "k \<le> free (app_socket a)"
  shows "goes_on P free k (app_feed P a)"
proof (cases "0 < app_rx_len a")
  case True
  have a: "length (app_rx_buf a) = 512" "app_rx_len a \<le> 512" using assms by (simp_all add: started_def)
  obtain r c where f: "Connection.feed P (app_conn a) (take (app_rx_len a) (app_rx_buf a)) = (r, c)" by fastforce
  have c: "started P (a\<lparr>app_conn := c\<rparr>)" "r \<noteq> Panic"
    using call_started [OF assms(1), of "Feed (take (app_rx_len a) (app_rx_buf a))" r "[]" c] f by simp_all
  have "n \<le> app_rx_len a" if "r = Ok n" for n
    using pub.feed_bound [of unit_auth "app_conn a"] assms f that a by (force simp: started_def)
  with True a c f assms(2) show ?thesis
    by (cases r) (auto simp: app_feed_def Let_def started_def)
qed (use assms in \<open>simp add: app_feed_def\<close>)

lemma app_ready_goes_on:
  assumes "started P a" and "27 + k \<le> free (app_socket a)"
  shows "goes_on P free k (app_ready all S a)"
proof (cases "state (app_conn a) = Ready")
  case True
  obtain r out c where w: "Connection.write_ready (app_conn a) (replicate 32 0) = (r, out, c)" by (metis prod.exhaust)
  note c = call_started [OF assms(1), of "WriteReady (replicate 32 0)" r out c]
  have "r = Ok n \<Longrightarrow> n = 27" for n
    using w by (auto simp: write_ready_eq READY_FRAME_def split: if_splits)
  with w True c assms(2) show ?thesis
    by (cases r) (auto simp: app_ready_def intro!: app_send_goes_on)
qed (use assms in \<open>simp add: app_ready_def\<close>)

lemma app_pong_goes_on:
  assumes "started P a" and "23 + k \<le> free (app_socket a)"
  shows "goes_on P free k (app_pong all S a)"
proof -
  obtain r out c where w: "Connection.write_pong (app_conn a) (replicate 23 0) = (r, out, c)" by (metis prod.exhaust)
  note c = call_started [OF assms(1), of "WritePong (replicate 23 0)" _ out c]
  have "link_inv (FRAME_CAP P) unit_auth (app_conn a)" using assms(1) by (simp add: started_def client_inv_def)
  then have "r = Ok (Some n) \<Longrightarrow> n \<le> 23" for n
    using w by (auto simp: write_pong_eq link_inv_def split: option.splits if_splits)
  with w c assms(2) show ?thesis
    by (cases r) (auto simp: app_pong_def intro!: app_send_goes_on split: option.splits)
qed

lemma app_publish_goes_on:
  assumes "started P a" and "14 + k \<le> free (app_socket a)"
  shows "goes_on P free k (app_publish P all S a)"
proof -
  have len: "length (frame_header more False 5) = 2" for more by (simp add: length_frame_header)
  have five: "length (ascii ''hello'') = 5" "length (ascii ''world'') = 5" by simp_all
  let ?hello = "ascii ''hello''" and ?world = "ascii ''world''"
  have send: "goes_on P free k
      (try_then (app_send all S (frame_header True False 5) a) (\<lambda>_ a.
       try_then (app_send all S ?hello a) (\<lambda>_ a.
       try_then (app_send all S (frame_header False False 5) a) (\<lambda>_ a. app_send all S ?world a))))"
    if "started P a" "14 + k \<le> free (app_socket a)" for a
    by (rule goes_on_then [where k = "12 + k"], rule app_send_goes_on, use that len in simp_all,
        rule goes_on_then [where k = "7 + k"], rule app_send_goes_on, simp_all,
        rule goes_on_then [where k = "5 + k"], rule app_send_goes_on, simp_all add: len app_send_goes_on)
  show ?thesis
    using assms send [of a] send [of "a\<lparr>app_established := True\<rparr>"]
    by (auto simp: app_publish_def publish_headers_eq message_headers_def Let_def len five simp del: ascii_simps length_ascii)
qed

lemma app_pass_goes_on:
  assumes "started P a \<or> a = new_pub_app P s" and "pass_bytes \<le> free (app_socket a)"
  shows "goes_on P free 0 (app_pass P all S a)"
  unfolding app_pass_def
  by (rule goes_on_then [where k = "27 + (23 + 14)"], rule app_greet_goes_on [OF assms(1)],
      use assms(2) in \<open>simp add: pass_bytes_def\<close>,
      rule goes_on_then, erule (1) app_read_goes_on, rule goes_on_then, erule (1) app_feed_goes_on,
      rule goes_on_then [where k = "23 + 14"], erule (1) app_ready_goes_on,
      rule goes_on_then [where k = "14"], erule (1) app_pong_goes_on, erule app_publish_goes_on, simp)

lemma app_passes_go_on:
  assumes "started P a \<or> a = new_pub_app P s" and "drained P all S free stacks a"
  shows "fst (app_passes P all S stacks a) = Ok ()"
  using assms
proof (induction stacks arbitrary: a s)
  case (Cons stack stacks)
  let ?a = "a\<lparr>app_socket := stack (app_socket a)\<rparr>"
  have "started P ?a \<or> ?a = new_pub_app P (stack (app_socket a))"
    using Cons.prems(1) by (auto simp: new_pub_app_def)
  moreover have "pass_bytes \<le> free (app_socket ?a)" using Cons.prems(2) by simp
  ultimately have "goes_on P free 0 (app_pass P all S ?a)" by (rule app_pass_goes_on)
  then obtain a' where "app_pass P all S ?a = (Ok (), a')" "started P a'"
    by (cases "app_pass P all S ?a") (auto simp: goes_on_def)
  with Cons show ?case by simp
qed simp

end

text \<open>
  C36. The example \<^verbatim>\<open>smoltcp_pub\<close> keeps going: on a 64-bit target no pass of its loop panics or leaves the loop,
  whatever the peer sends, whatever errors the socket returns and whatever the TCP stack does to the socket
  between two passes, as long as it leaves at least 128 bytes of the transmit buffer free before each of the passes of
  the run, the most that a pass can write. (When there is no room a pass can panic:
  \<^verbatim>\<open>adapter_write_all_full\<close>.)
\<close>

theorem smoltcp_pub_goes_on:
  assumes "heapless_contract (heapless_of P)" and "usize_bits (target_of P) = 64"
    and "write_all_contract all" and "tcp_contract S free"
    and "drained P all S free stacks (new_pub_app P s)"
  shows "fst (app_passes P all S stacks (new_pub_app P s)) = Ok ()"
proof -
  have "pub_on_socket P all S free"
    using assms(1-4)
    by (intro pub_on_socket.intro pub_build_64.intro pub_build_64_axioms.intro pub_build.intro)
  from pub_on_socket.app_passes_go_on [OF this disjI2 [OF refl] assms(5)] show ?thesis .
qed

text \<open>
  A socket with a transmit buffer of 160 bytes: what it has received, what waits to be transmitted, and what has gone
  out. The TCP stack transmits what waits.
\<close>

definition example_socket :: "(bytes \<times> bytes \<times> bytes, unit) tcp_socket" where
  "example_socket =
     \<lparr>recv_slice = (\<lambda>(rx, tx, wire) buf. (Ok (min (length buf) (length rx)), take (length buf) rx @ drop (length rx) buf,
         drop (length buf) rx, tx, wire)),
      send_slice = (\<lambda>(rx, tx, wire) bs. (Ok (min (length bs) (160 - length tx)), rx, tx @ take (160 - length tx) bs, wire))\<rparr>"

definition example_room :: "bytes \<times> bytes \<times> bytes \<Rightarrow> nat" where
  "example_room = (\<lambda>(rx, tx, wire). 160 - length tx)"

definition example_stack :: "bytes \<times> bytes \<times> bytes \<Rightarrow> bytes \<times> bytes \<times> bytes" where
  "example_stack = (\<lambda>(rx, tx, wire). (rx, [], wire @ tx))"

interpretation bounded: tcp_contract example_socket example_room
  by unfold_locales (auto simp: example_socket_def example_room_def)

interpretation bounded_pub: pub_on_socket "list_build 64 F n l" write_all_of example_socket example_room for F n l
  by (rule pub_on_socket.intro)
    (rule list_pub_64.pub_build_64_axioms write_loop.write_all_contract_axioms bounded.tcp_contract_axioms)+

definition smoltcp_example :: "(bytes \<times> bytes \<times> bytes) \<Rightarrow> (unit, ConnError) outcome \<times> (bytes list, bytes \<times> bytes \<times> bytes) pub_app" where
  "smoltcp_example s =
     app_passes (list_build 64 1024 8 32) write_all_of example_socket [example_stack, example_stack, example_stack]
       (new_pub_app (list_build 64 1024 8 32) s)"

text \<open>After three passes a peer that subscribes to what begins with \<^verbatim>\<open>he\<close> has the message.\<close>

lemma smoltcp_example_established:
  "case smoltcp_example (sub_greeting @ sub_ready @ sub_subscribe (ascii ''he''), [], []) of (r, a) \<Rightarrow>
     state (app_conn a) = Established \<and>
     snd (snd (app_socket a)) @ fst (snd (app_socket a)) =
       encode_greeting [] @ READY_FRAME @ wire_message (ascii ''hello'') (ascii ''world'')"
  by code_simp

theorem smoltcp_pub_goes_on_witness: "fst (smoltcp_example (sub_greeting, [], [])) = Ok ()"
proof -
  have "pass_bytes \<le> example_room (example_stack s)" for s
    by (cases s) (simp add: pass_bytes_def example_room_def example_stack_def)
  then have "drained P all S example_room (replicate k example_stack) a" for P all S k and a :: "(bytes list, _) pub_app"
    by (induction k arbitrary: a) simp_all
  from this [of _ _ _ 3] show ?thesis
    unfolding smoltcp_example_def
    by (intro smoltcp_pub_goes_on [OF _ _ write_loop.write_all_contract_axioms bounded.tcp_contract_axioms])
      (simp_all add: list_vec.heapless_contract_axioms numeral_3_eq_3)
qed

section \<open>The unit tests of the adapter\<close>

text \<open>
  The tests of \<^verbatim>\<open>src/io/smoltcp.rs\<close>, except that of the \<^verbatim>\<open>Display\<close> texts. Their fresh socket is one on which
  nothing can be received or sent yet.
\<close>

definition error_send_kind_is_other :: "error_kinds \<Rightarrow> 'e \<Rightarrow> bool" where
  "error_send_kind_is_other K invalid_state \<longleftrightarrow> adapter_kind K (Send invalid_state) = Other K"

definition error_recv_invalid_state_kind_is_not_connected :: "error_kinds \<Rightarrow> bool" where
  "error_recv_invalid_state_kind_is_not_connected K \<longleftrightarrow> adapter_kind K (Recv InvalidState :: unit AdapterError) = NotConnected K"

definition error_recv_finished_kind_is_broken_pipe :: "error_kinds \<Rightarrow> bool" where
  "error_recv_finished_kind_is_broken_pipe K \<longleftrightarrow> adapter_kind K (Recv Finished :: unit AdapterError) = BrokenPipe K"

definition read_on_fresh_socket_returns_invalid_state :: "error_kinds \<Rightarrow> ('s, 'e) tcp_socket \<Rightarrow> 's \<Rightarrow> bool" where
  "read_on_fresh_socket_returns_invalid_state K S socket =
     (case adapter_read S socket (replicate 32 0) of (result, _, _) \<Rightarrow>
        (case result of Err e \<Rightarrow> adapter_kind K e = NotConnected K | _ \<Rightarrow> False))"

definition write_on_fresh_socket_returns_invalid_state :: "error_kinds \<Rightarrow> ('s, 'e) tcp_socket \<Rightarrow> 's \<Rightarrow> bool" where
  "write_on_fresh_socket_returns_invalid_state K S socket =
     (case adapter_write S socket (ascii ''hello'') of (result, _) \<Rightarrow>
        (case result of Err e \<Rightarrow> adapter_kind K e = Other K | _ \<Rightarrow> False))"

definition flush_succeeds :: "'s \<Rightarrow> bool" where
  "flush_succeeds socket = (case adapter_flush socket of (result, _) \<Rightarrow> result = (Ok () :: (unit, unit AdapterError) outcome))"

lemma adapter_tests_pass:
  assumes "recv_slice S socket (replicate 32 0) = (Err InvalidState, buf, s)"
    and "send_slice S socket (ascii ''hello'') = (Err e, s')"
  shows "error_send_kind_is_other K e \<and> error_recv_invalid_state_kind_is_not_connected K \<and>
    error_recv_finished_kind_is_broken_pipe K \<and> read_on_fresh_socket_returns_invalid_state K S socket \<and>
    write_on_fresh_socket_returns_invalid_state K S socket \<and> flush_succeeds socket"
  using assms
  by (simp add: error_send_kind_is_other_def error_recv_invalid_state_kind_is_not_connected_def
      error_recv_finished_kind_is_broken_pipe_def read_on_fresh_socket_returns_invalid_state_def
      write_on_fresh_socket_returns_invalid_state_def flush_succeeds_def adapter_kind_def adapter_read_def
      adapter_write_def adapter_flush_def del: ascii_simps)

end
