(* ===== verification/Size_Probe.thy ===== *)
theory Size_Probe
  imports Fuzz_Targets Driver_Sync Driver_Async Radio_Driver_Sync Radio_Driver_Async Mock_Transport
begin

text \<open>
  The program whose size is measured (\<^verbatim>\<open>sizing/src/main.rs\<close>): it calls every public operation once and drops the
  results. As in the fuzz targets only a panic matters. Its cargo features are arguments.
\<close>

section \<open>The operations without I/O\<close>

definition probe_connection :: "('b, 'v) conn_build \<Rightarrow> bytes \<Rightarrow> (unit, unit) outcome \<times> bytes" where
  "probe_connection P buf =
     (let conn = new_connection P in
      case Connection.write_greeting conn buf of (r, buf, conn) \<Rightarrow> attempt (drop_result r) buf (\<lambda>_.
      case Connection.feed P conn buf of (r, conn) \<Rightarrow> attempt (drop_result r) buf (\<lambda>_.
      case Connection.write_ready conn buf of (r, buf, conn) \<Rightarrow> attempt (drop_result r) buf (\<lambda>_.
      case Connection.publish P conn (ascii ''t'') (ascii ''p'') buf of (r, buf) \<Rightarrow> attempt (drop_result r) buf (\<lambda>_.
      case Connection.write_error conn buf of (r, buf) \<Rightarrow> attempt (drop_result r) buf (\<lambda>_.
      case Connection.write_pong conn buf of (r, buf, conn) \<Rightarrow> (drop_result r, buf)))))))"

definition probe_radio_connection :: "('b, 'v) radio_build \<Rightarrow> bytes \<Rightarrow> (unit, unit) outcome \<times> bytes" where
  "probe_radio_connection P buf =
     (let radio = new_radio P in
      case Radio_Connection.write_greeting radio buf of (r, buf, radio) \<Rightarrow> attempt (drop_result r) buf (\<lambda>_.
      case Radio_Connection.feed P radio buf of (r, radio) \<Rightarrow> attempt (drop_result r) buf (\<lambda>_.
      case Radio_Connection.write_ready radio buf of (r, buf, radio) \<Rightarrow> attempt (drop_result r) buf (\<lambda>_.
      case Radio_Connection.publish P radio (ascii ''g'') (ascii ''p'') buf of (r, buf) \<Rightarrow> (drop_result r, buf)))))"

definition probe_tables :: "('b, 'v) heapless \<Rightarrow> (unit, unit) outcome" where
  "probe_tables H =
     (case subscribe H 16 64 (new_sub_table H) (ascii ''a'') of (r, sub) \<Rightarrow>
      and_then (drop_result r) (\<lambda>_.
      case sub_matches H sub (ascii ''abc'') of _ \<Rightarrow>
      case cancel H sub (ascii ''a'') of (r, sub) \<Rightarrow>
      and_then (drop_result r) (\<lambda>_.
      case join H 16 64 (new_group_table H) (ascii ''g'') of (r, grp) \<Rightarrow>
      and_then (drop_result r) (\<lambda>_.
      case group_matches H grp (ascii ''g'') of _ \<Rightarrow>
      case leave H grp (ascii ''g'') of (r, grp) \<Rightarrow> drop_result r))))"

definition probe_codecs :: "target \<Rightarrow> bool \<Rightarrow> bytes \<Rightarrow> (unit, unit) outcome \<times> bytes" where
  "probe_codecs T plain buf =
     (case Frame.feed T 512 (new_decoder 512) buf of (r, dec) \<Rightarrow> attempt (drop_result r) buf (\<lambda>_.
      case encode_message_frame buf 10 False of (r, buf) \<Rightarrow> attempt (drop_result r) buf (\<lambda>_.
      case encode_command_frame buf 10 of (r, buf) \<Rightarrow> attempt (drop_result r) buf (\<lambda>_.
      case encode_ready buf of (r, buf) \<Rightarrow> attempt (drop_result r) buf (\<lambda>_.
      case encode_ready_radio buf of (r, buf) \<Rightarrow> attempt (drop_result r) buf (\<lambda>_.
      attempt (drop_result (parse_ready T buf)) buf (\<lambda>_.
      attempt (drop_result (parse_ready_radio T buf)) buf (\<lambda>_.
      case encode_error buf (ascii ''nope'') of (r, buf) \<Rightarrow> attempt (drop_result r) buf (\<lambda>_.
        if plain then
          (case encode_welcome buf of (r, buf) \<Rightarrow> attempt (drop_result r) buf (\<lambda>_.
           (drop_result (parse_hello_from True buf), buf)))
        else (Ok (), buf))))))))))"

section \<open>The drivers\<close>

text \<open>
  \<^verbatim>\<open>NullIo\<close>: every read fails with \<^verbatim>\<open>BrokenPipe\<close> of the third-party \<^verbatim>\<open>ErrorKind\<close>, every write
  is accepted and forgotten.
\<close>

definition null_io :: "'k \<Rightarrow> ('k \<Rightarrow> nat) \<Rightarrow> (unit, 'k) transport_impl" where
  "null_io broken_pipe kind =
     \<lparr>t_read = \<lambda>t buf. (Err broken_pipe, buf, t), t_write_all = write_all_of (\<lambda>t buf. (Ok (length buf), t)), t_kind = kind\<rparr>"

definition async_null_io :: "'k \<Rightarrow> ('k \<Rightarrow> nat) \<Rightarrow> (unit, 'k) async_impl" where
  "async_null_io broken_pipe kind =
     \<lparr>a_read = \<lambda>t buf. (Completed (Err broken_pipe), buf, t),
      a_write_all = async_write_all_of (\<lambda>t buf. (Completed (Ok (length buf)), t)), a_kind = kind\<rparr>"

definition accept_all :: authenticator where
  "accept_all username password = True"

definition sync_probe :: "('b, 'v) conn_build \<Rightarrow> ('b, 'v) radio_build \<Rightarrow> bool \<Rightarrow> 'k \<Rightarrow> ('k \<Rightarrow> nat) \<Rightarrow> (unit, unit) outcome" where
  "sync_probe P R plain broken_pipe kind =
     (let T = null_io broken_pipe kind in
      and_then
        (case new_driver P T () of
           Ok d \<Rightarrow>
             (case poll P T d of (r, d) \<Rightarrow> and_then (drop_result r) (\<lambda>_.
                drop_result (fst (driver_publish P T d (ascii ''t'') (ascii ''p'')))))
         | Err _ \<Rightarrow> Ok ()
         | Panic \<Rightarrow> Panic) (\<lambda>_.
      and_then
        (case new_radio_driver R T () of
           Ok d \<Rightarrow>
             (case radio_poll R T d of (r, d) \<Rightarrow> and_then (drop_result r) (\<lambda>_.
                drop_result (fst (radio_driver_publish R T d (ascii ''g'') (ascii ''p'')))))
         | Err _ \<Rightarrow> Ok ()
         | Panic \<Rightarrow> Panic) (\<lambda>_.
      if plain then
        (case new_plain_driver P T () accept_all of
           Ok d \<Rightarrow> drop_result (fst (poll P T d))
         | Err _ \<Rightarrow> Ok ()
         | Panic \<Rightarrow> Panic)
      else Ok ())))"

text \<open>
  A future is polled once. \<^verbatim>\<open>NullIo\<close> is always ready, so it completes; were it pending, it would be dropped.
\<close>

definition drop_polled :: "('a, 'e) outcome awaited \<Rightarrow> (unit, unit) outcome" where
  "drop_polled r = (case r of Completed r \<Rightarrow> drop_result r | Dropped \<Rightarrow> Ok ())"

definition async_probe :: "('b, 'v) conn_build \<Rightarrow> ('b, 'v) radio_build \<Rightarrow> bool \<Rightarrow> 'k \<Rightarrow> ('k \<Rightarrow> nat) \<Rightarrow> (unit, unit) outcome" where
  "async_probe P R plain broken_pipe kind =
     (let A = async_null_io broken_pipe kind in
      and_then
        (case async_new P A () of
           Completed (Ok d) \<Rightarrow>
             (case async_poll P A d of (r, d) \<Rightarrow> and_then (drop_polled r) (\<lambda>_.
                drop_polled (fst (async_publish P A d (ascii ''t'') (ascii ''p'')))))
         | Completed (Err _) \<Rightarrow> Ok ()
         | Completed Panic \<Rightarrow> Panic
         | Dropped \<Rightarrow> Ok ()) (\<lambda>_.
      and_then
        (case async_radio_new R A () of
           Completed (Ok d) \<Rightarrow> drop_polled (fst (async_radio_poll R A d))
         | Completed (Err _) \<Rightarrow> Ok ()
         | Completed Panic \<Rightarrow> Panic
         | Dropped \<Rightarrow> Ok ()) (\<lambda>_.
      if plain then drop_polled (async_new_plain P A () accept_all) else Ok ())))"

text \<open>The whole program, for a target, an implementation of the vectors and the three features.\<close>

definition probe :: "target \<Rightarrow> ('b, 'v) heapless \<Rightarrow> bool \<Rightarrow> bool \<Rightarrow> bool \<Rightarrow> 'k \<Rightarrow> ('k \<Rightarrow> nat) \<Rightarrow> (unit, unit) outcome" where
  "probe T H plain sync async broken_pipe kind =
     (let P = \<lparr>target_of = T, heapless_of = H, FRAME_CAP = 512, SUB_CAP = 8, PREFIX_CAP = 32\<rparr>;
          R = \<lparr>target_of = T, heapless_of = H, FRAME_CAP = 512, GROUP_CAP = 8, GROUP_LEN_CAP = 32\<rparr>;
          buf = replicate 256 0 in
      case probe_connection P buf of (r, buf) \<Rightarrow> and_then r (\<lambda>_.
      case probe_radio_connection R buf of (r, buf) \<Rightarrow> and_then r (\<lambda>_.
      and_then (probe_tables H) (\<lambda>_.
      case probe_codecs T plain buf of (r, buf) \<Rightarrow> and_then r (\<lambda>_.
      and_then (if sync then sync_probe P R plain broken_pipe kind else Ok ()) (\<lambda>_.
      if async then async_probe P R plain broken_pipe kind else Ok ()))))))"

text \<open>
  With every feature it runs to its end on the target it is built for (32 bits, no overflow checks) as well as on a
  64-bit host.
\<close>

lemma probe_ends:
  "probe \<lparr>usize_bits = 32, overflow_checks = False\<rparr> list_heapless True True True (32 :: nat) id = Ok ()"
  "probe \<lparr>usize_bits = 64, overflow_checks = True\<rparr> list_heapless True True True (32 :: nat) id = Ok ()"
  by code_simp+

end
