(* ===== verification/Assertions.thy ===== *)
theory Assertions
  imports Link
begin

text \<open>
  What the unit tests of the repository have in common: the assertions, as truth values that are also false when
  an index is out of bounds, and the target they run on, a 64-bit host with overflow checks.
\<close>

definition is_ok :: "('a, 'e) outcome \<Rightarrow> bool" where
  "is_ok r = (case r of Ok _ \<Rightarrow> True | _ \<Rightarrow> False)"

definition is_err :: "('a, 'e) outcome \<Rightarrow> bool" where
  "is_err r = (case r of Err _ \<Rightarrow> True | _ \<Rightarrow> False)"

text \<open>\<^verbatim>\<open>assert_eq!(buf[i], x)\<close> and \<^verbatim>\<open>assert_eq!(buf[a..b], bs)\<close>: false as well when the index is out of bounds.\<close>

definition at_is :: "'a list \<Rightarrow> nat \<Rightarrow> 'a \<Rightarrow> bool" where
  "at_is buf i x \<longleftrightarrow> i < length buf \<and> buf ! i = x"

definition range_is :: "'a list \<Rightarrow> nat \<Rightarrow> nat \<Rightarrow> 'a list \<Rightarrow> bool" where
  "range_is buf a b bs \<longleftrightarrow> a \<le> b \<and> b \<le> length buf \<and> take (b - a) (drop a buf) = bs"

definition host :: target where
  "host = \<lparr>usize_bits = 64, overflow_checks = True\<rparr>"

text \<open>\<^verbatim>\<open>assert!(n > 0)\<close> after an \<^verbatim>\<open>unwrap\<close>.\<close>

definition positive :: "(nat, 'e) outcome \<Rightarrow> bool" where
  "positive r = (case r of Ok n \<Rightarrow> 0 < n | _ \<Rightarrow> False)"

text \<open>The PING command that several tests feed, with the context ''hi''.\<close>

definition ping_hi :: bytes where
  "ping_hi = [0x04, 0x09, 0x04] @ ascii ''PING'' @ [0x00, 0x00] @ ascii ''hi''"

end
