(* ===== verification/Codec_Tests.thy ===== *)
theory Codec_Tests
  imports Assertions Frame_Stream Greeting Auth Plain_Mechanism Null_Mechanism Test_Helpers
begin

text \<open>
  The unit tests of the codecs (the \<^verbatim>\<open>tests\<close> modules of \<^verbatim>\<open>src/frame.rs\<close>, \<^verbatim>\<open>src/greeting.rs\<close>,
  \<^verbatim>\<open>src/null.rs\<close>, \<^verbatim>\<open>src/plain.rs\<close> and \<^verbatim>\<open>src/auth.rs\<close>), each as a truth value that says whether it passes on the
  model: an assertion that fails and an \<^verbatim>\<open>unwrap\<close> of an error make it false. The lemma at the end of a section runs them.
\<close>

section \<open>Frames\<close>

text \<open>The frame that a test expects, as \<^verbatim>\<open>DecodedFrame { more, is_command, body }\<close>.\<close>

definition frame_of :: "bool \<Rightarrow> bool \<Rightarrow> bytes \<Rightarrow> DecodedFrame" where
  "frame_of has_more is_command body = \<lparr>df_more = has_more, df_is_command = is_command, df_body = body\<rparr>"

definition short_message_last_frame_header :: bool where
  "short_message_last_frame_header =
     (case encode_message_frame (replicate 9 0) 6 False of (result, buf) \<Rightarrow>
        result = Ok 2 \<and> range_is buf 0 2 [0x00, 0x06])"

definition short_message_more_frame_header :: bool where
  "short_message_more_frame_header =
     (case encode_message_frame (replicate 9 0) 3 True of (result, buf) \<Rightarrow>
        result = Ok 2 \<and> range_is buf 0 2 [0x01, 0x03])"

definition short_frame_max_body_255 :: bool where
  "short_frame_max_body_255 =
     (case encode_message_frame (replicate 9 0) 255 False of (result, buf) \<Rightarrow>
        result = Ok 2 \<and> range_is buf 0 2 [0x00, 0xFF])"

definition long_frame_body_256_switches_to_long :: bool where
  "long_frame_body_256_switches_to_long =
     (case encode_message_frame (replicate 9 0) 256 False of (result, buf) \<Rightarrow>
        result = Ok 9 \<and> at_is buf 0 0x02 \<and> range_is buf 1 9 [0, 0, 0, 0, 0, 0, 1, 0])"

definition long_frame_body_65536 :: bool where
  "long_frame_body_65536 =
     (case encode_message_frame (replicate 9 0) 65536 False of (result, buf) \<Rightarrow>
        result = Ok 9 \<and> at_is buf 0 0x02 \<and> be_nat (take 8 (drop 1 buf)) = 65536)"

definition long_frame_more_flag :: bool where
  "long_frame_more_flag =
     (case encode_message_frame (replicate 9 0) 300 True of (result, buf) \<Rightarrow>
        result = Ok 9 \<and> at_is buf 0 0x03)"

definition command_frame_short :: bool where
  "command_frame_short =
     (case encode_command_frame (replicate 9 0) 25 of (result, buf) \<Rightarrow>
        result = Ok 2 \<and> range_is buf 0 2 [0x04, 0x19])"

definition command_frame_long :: bool where
  "command_frame_long =
     (case encode_command_frame (replicate 9 0) 300 of (result, buf) \<Rightarrow>
        result = Ok 9 \<and> at_is buf 0 0x06 \<and> be_nat (take 8 (drop 1 buf)) = 300)"

definition message_frame_buffer_too_small_short :: bool where
  "message_frame_buffer_too_small_short \<longleftrightarrow>
     fst (encode_message_frame (replicate 1 0) 10 False) = Err FrameError.BufferTooSmall"

definition message_frame_buffer_too_small_long :: bool where
  "message_frame_buffer_too_small_long \<longleftrightarrow>
     fst (encode_message_frame (replicate 8 0) 256 False) = Err FrameError.BufferTooSmall"

definition encode_pub_message_topic_and_payload :: bool where
  "encode_pub_message_topic_and_payload =
     (case encode_message_frame (replicate 9 0) (length (ascii ''foo'')) True of (r1, buf) \<Rightarrow>
        r1 = Ok 2 \<and> range_is buf 0 2 [0x01, 0x03] \<and>
        (case encode_message_frame buf (length (ascii ''bar'')) False of (r2, buf) \<Rightarrow>
           r2 = Ok 2 \<and> range_is buf 0 2 [0x00, 0x03]))"

definition decode_short_message_frame_all_at_once :: bool where
  "decode_short_message_frame_all_at_once \<longleftrightarrow>
     fst (Frame.feed host 64 (new_decoder 64) ([0x00, 0x06] @ ascii ''foobar'')) =
       Ok (8, Some (frame_of False False (ascii ''foobar'')))"

definition decode_short_command_frame_all_at_once :: bool where
  "decode_short_command_frame_all_at_once =
     (let frame = replicate 27 0;
          frame = frame[0 := 0x04];
          frame = frame[1 := 0x19];
          frame = frame[2 := 0x05];
          frame = frame[3 := of_char (CHR ''R'')];
          frame = frame[4 := of_char (CHR ''E'')];
          frame = frame[5 := of_char (CHR ''A'')];
          frame = frame[6 := of_char (CHR ''D'')];
          frame = frame[7 := of_char (CHR ''Y'')] in
      fst (Frame.feed host 64 (new_decoder 64) frame) =
        Ok (27, Some (frame_of False True (take 25 (drop 2 frame)))))"

fun feed_each :: "FrameDecoder \<Rightarrow> bytes \<Rightarrow> (FrameDecoder \<Rightarrow> bool) \<Rightarrow> bool" where
  "feed_each dec [] k = k dec"
| "feed_each dec (byte # bs) k =
     (case Frame.feed host 64 dec [byte] of (result, dec) \<Rightarrow> result = Ok (1, None) \<and> feed_each dec bs k)"

definition decode_short_message_byte_by_byte :: bool where
  "decode_short_message_byte_by_byte =
     (let input = [0x00, 0x06] @ ascii ''foobar'' in
      feed_each (new_decoder 64) (take (length input - 1) input) (\<lambda>dec.
        fst (Frame.feed host 64 dec (drop (length input - 1) input)) =
          Ok (1, Some (frame_of False False (ascii ''foobar'')))))"

definition decode_long_frame_header_then_body :: bool where
  "decode_long_frame_header_then_body =
     (let body_len = 256;
          body = map (\<lambda>i. of_nat (i mod 256)) [0..<body_len];
          buf = [0x02] @ be_bytes 8 body_len @ body in
      (case fst (Frame.feed host 512 (new_decoder 512) buf) of
         Ok (consumed, Some frame) \<Rightarrow>
           consumed = 9 + body_len \<and> \<not> df_more frame \<and> \<not> df_is_command frame \<and> length (df_body frame) = body_len \<and>
           df_body frame = body
       | _ \<Rightarrow> False))"

definition decode_more_flag_set :: bool where
  "decode_more_flag_set \<longleftrightarrow>
     fst (Frame.feed host 64 (new_decoder 64) ([0x01, 0x03] @ ascii ''foo'')) =
       Ok (5, Some (frame_of True False (ascii ''foo'')))"

definition decode_rejects_reserved_flag_bits :: bool where
  "decode_rejects_reserved_flag_bits \<longleftrightarrow>
     fst (Frame.feed host 64 (new_decoder 64) [0x08, 0x01, 0x00]) = Err DecodeError.ReservedFlagBits"

definition decode_rejects_command_frame_with_more_bit :: bool where
  "decode_rejects_command_frame_with_more_bit \<longleftrightarrow>
     fst (Frame.feed host 64 (new_decoder 64) ([0x05, 0x05] @ ascii ''READY'')) = Err DecodeError.ReservedFlagBits"

definition decode_rejects_body_exceeding_capacity :: bool where
  "decode_rejects_body_exceeding_capacity \<longleftrightarrow>
     fst (Frame.feed host 4 (new_decoder 4) ([0x00, 0x05] @ ascii ''hello'')) = Err BodyTooLarge"

definition decode_two_frames_sequential :: bool where
  "decode_two_frames_sequential =
     (case Frame.feed host 64 (new_decoder 64) ([0x00, 0x03] @ ascii ''one'') of (r1, dec) \<Rightarrow>
        r1 = Ok (5, Some (frame_of False False (ascii ''one''))) \<and>
        fst (Frame.feed host 64 dec ([0x00, 0x03] @ ascii ''two'')) = Ok (5, Some (frame_of False False (ascii ''two''))))"

definition decode_partial_then_complete :: bool where
  "decode_partial_then_complete =
     (case Frame.feed host 64 (new_decoder 64) [0x00, 0x04] of (r1, dec) \<Rightarrow>
        r1 = Ok (2, None) \<and>
        fst (Frame.feed host 64 dec (ascii ''data'')) = Ok (4, Some (frame_of False False (ascii ''data''))))"

definition command_frame_buffer_too_small_short :: bool where
  "command_frame_buffer_too_small_short \<longleftrightarrow>
     fst (encode_command_frame (replicate 1 0) 10) = Err FrameError.BufferTooSmall"

definition command_frame_buffer_too_small_long :: bool where
  "command_frame_buffer_too_small_long \<longleftrightarrow>
     fst (encode_command_frame (replicate 8 0) 300) = Err FrameError.BufferTooSmall"

definition decode_poisoned_decoder_returns_error :: bool where
  "decode_poisoned_decoder_returns_error =
     (case Frame.feed host 64 (new_decoder 64) [0x08] of (_, dec) \<Rightarrow>
        fst (Frame.feed host 64 dec [0x00, 0x01, 0x00]) = Err DecodeError.ReservedFlagBits)"

definition decoder_reset_allows_reuse :: bool where
  "decoder_reset_allows_reuse =
     (case Frame.feed host 64 (new_decoder 64) [0x00, 0x04] of (r, dec) \<Rightarrow>
        is_ok r \<and>
        fst (Frame.feed host 64 (reset dec) ([0x00, 0x02] @ ascii ''hi'')) = Ok (4, Some (frame_of False False (ascii ''hi''))))"

text \<open>The two with long frames by the specification of the codec, the others by evaluation.\<close>

lemma long_frame_tests_pass: "long_frame_body_65536" "decode_long_frame_header_then_body"
proof -
  show "long_frame_body_65536"
    by (simp add: long_frame_body_65536_def encode_message_frame_eq Let_def frame_header_def flags_byte_def at_is_def)
  define body :: bytes where "body = map (\<lambda>i. of_nat (i mod 256)) [0..<256]"
  define f where "f = frame_of False False body"
  have len: "length body = 256" by (simp add: body_def)
  then have "[0x02] @ be_bytes 8 256 @ body = wire_frame f"
    by (simp add: wire_frame_def f_def frame_of_def frame_header_def flags_byte_def)
  moreover have "fst (Frame.feed host 512 (new_decoder 512) (wire_frame f)) = Ok (length (wire_frame f), Some f)"
    using feed_fresh [of 512 "new_decoder 512" host "wire_frame f"] parse_frame_wire [of f 512 host "[]"] len
    by (simp add: feed_result_def f_def frame_of_def host_def)
  moreover have "length (wire_frame f) = 9 + 256"
    using len by (simp add: wire_frame_def f_def frame_of_def length_frame_header)
  ultimately show "decode_long_frame_header_then_body"
    using len by (simp add: decode_long_frame_header_then_body_def Let_def body_def [symmetric] del: upt_rec_numeral)
      (simp add: f_def frame_of_def)
qed

lemma frame_tests_pass:
  "short_message_last_frame_header \<and> short_message_more_frame_header \<and> short_frame_max_body_255 \<and>
   long_frame_body_256_switches_to_long \<and> long_frame_more_flag \<and> command_frame_short \<and>
   command_frame_long \<and> message_frame_buffer_too_small_short \<and> message_frame_buffer_too_small_long \<and>
   encode_pub_message_topic_and_payload \<and> decode_short_message_frame_all_at_once \<and> decode_short_command_frame_all_at_once \<and>
   decode_short_message_byte_by_byte \<and> decode_more_flag_set \<and> decode_rejects_reserved_flag_bits \<and>
   decode_rejects_command_frame_with_more_bit \<and> decode_rejects_body_exceeding_capacity \<and> decode_two_frames_sequential \<and>
   decode_partial_then_complete \<and> command_frame_buffer_too_small_short \<and> command_frame_buffer_too_small_long \<and>
   decode_poisoned_decoder_returns_error \<and> decoder_reset_allows_reuse"
  by code_simp

section \<open>Greetings\<close>

definition valid_sub_greeting :: bytes where
  "valid_sub_greeting =
     (let g = replicate GREETING_LEN 0;
          g = g[SIG0 := 0xFF];
          g = g[SIG9 := 0x7F];
          g = g[VERSION_MAJOR := 0x03];
          g = g[VERSION_MINOR := 0x01];
          g = g[MECHANISM := of_char (CHR ''N'')];
          g = g[MECHANISM + 1 := of_char (CHR ''U'')];
          g = g[MECHANISM + 2 := of_char (CHR ''L'')];
          g = g[MECHANISM + 3 := of_char (CHR ''L'')] in g)"

text \<open>\<^verbatim>\<open>buf[a..b].iter().all(|&b| b == 0)\<close>.\<close>

definition all_zero :: "bytes \<Rightarrow> nat \<Rightarrow> nat \<Rightarrow> bool" where
  "all_zero buf a b \<longleftrightarrow> a \<le> b \<and> b \<le> length buf \<and> list_all (\<lambda>x. x = 0) (take (b - a) (drop a buf))"

definition emits_64_byte_null_pub_greeting :: bool where
  "emits_64_byte_null_pub_greeting =
     (let buf = encode_greeting (replicate GREETING_LEN 0) in
      at_is buf SIG0 0xFF \<and> range_is buf 1 9 (replicate 8 0) \<and> at_is buf SIG9 0x7F \<and>
      at_is buf VERSION_MAJOR 0x03 \<and> at_is buf VERSION_MINOR 0x01 \<and>
      range_is buf MECHANISM (MECHANISM + 4) (ascii ''NULL'') \<and> all_zero buf (MECHANISM + 4) AS_SERVER \<and>
      at_is buf AS_SERVER 0x00 \<and> all_zero buf AS_SERVER GREETING_LEN)"

definition accepts_valid_greeting_version_minor_1 :: bool where
  "accepts_valid_greeting_version_minor_1 \<longleftrightarrow> parse_greeting valid_sub_greeting = Ok \<lparr>version_minor = 0x01\<rparr>"

definition accepts_version_minor_0 :: bool where
  "accepts_version_minor_0 \<longleftrightarrow>
     parse_greeting (valid_sub_greeting[VERSION_MINOR := 0x00]) = Ok \<lparr>version_minor = 0x00\<rparr>"

definition rejects_wrong_signature_first_byte :: bool where
  "rejects_wrong_signature_first_byte \<longleftrightarrow> parse_greeting (valid_sub_greeting[SIG0 := 0xFE]) = Err InvalidSignature"

definition rejects_wrong_signature_tenth_byte :: bool where
  "rejects_wrong_signature_tenth_byte \<longleftrightarrow> parse_greeting (valid_sub_greeting[SIG9 := 0x00]) = Err InvalidSignature"

definition rejects_wrong_version_major :: bool where
  "rejects_wrong_version_major \<longleftrightarrow>
     parse_greeting (valid_sub_greeting[VERSION_MAJOR := 0x02]) = Err UnsupportedVersionMajor"

definition rejects_unknown_mechanism :: bool where
  "rejects_unknown_mechanism \<longleftrightarrow>
     parse_greeting (valid_sub_greeting[MECHANISM := of_char (CHR ''C'')]) = Err UnsupportedMechanism"

definition rejects_mechanism_null_with_nonzero_padding :: bool where
  "rejects_mechanism_null_with_nonzero_padding \<longleftrightarrow>
     parse_greeting (valid_sub_greeting[MECHANISM + 4 := of_char (CHR ''X'')]) = Err UnsupportedMechanism"

definition rejects_nonzero_as_server :: bool where
  "rejects_nonzero_as_server \<longleftrightarrow> parse_greeting (valid_sub_greeting[AS_SERVER := 0x01]) = Err InvalidAsServer"

definition partial_greeting_accepts_valid_first_11_bytes :: bool where
  "partial_greeting_accepts_valid_first_11_bytes \<longleftrightarrow>
     parse_partial_greeting ((replicate GREETING_PARTIAL_LEN 0)[SIG0 := 0xFF, SIG9 := 0x7F, VERSION_MAJOR := 0x03]) = Ok ()"

definition partial_greeting_rejects_wrong_signature :: bool where
  "partial_greeting_rejects_wrong_signature \<longleftrightarrow>
     parse_partial_greeting ((replicate GREETING_PARTIAL_LEN 0)[SIG0 := 0xFE, SIG9 := 0x7F, VERSION_MAJOR := 0x03]) =
       Err InvalidSignature"

definition partial_greeting_rejects_wrong_version_major :: bool where
  "partial_greeting_rejects_wrong_version_major \<longleftrightarrow>
     parse_partial_greeting ((replicate GREETING_PARTIAL_LEN 0)[SIG0 := 0xFF, SIG9 := 0x7F, VERSION_MAJOR := 0x02]) =
       Err UnsupportedVersionMajor"

definition valid_plain_client_greeting :: bytes where
  "valid_plain_client_greeting =
     (let g = replicate GREETING_LEN 0;
          g = g[SIG0 := 0xFF];
          g = g[SIG9 := 0x7F];
          g = g[VERSION_MAJOR := 0x03];
          g = g[VERSION_MINOR := 0x01];
          g = g[MECHANISM := of_char (CHR ''P'')];
          g = g[MECHANISM + 1 := of_char (CHR ''L'')];
          g = g[MECHANISM + 2 := of_char (CHR ''A'')];
          g = g[MECHANISM + 3 := of_char (CHR ''I'')];
          g = g[MECHANISM + 4 := of_char (CHR ''N'')] in g)"

definition encode_plain_greeting_sets_mechanism_and_as_server :: bool where
  "encode_plain_greeting_sets_mechanism_and_as_server =
     (let buf = encode_plain_greeting (replicate GREETING_LEN 0) in
      at_is buf SIG0 0xFF \<and> at_is buf SIG9 0x7F \<and> at_is buf VERSION_MAJOR 0x03 \<and> at_is buf VERSION_MINOR 0x01 \<and>
      range_is buf MECHANISM (MECHANISM + 5) (ascii ''PLAIN'') \<and> all_zero buf (MECHANISM + 5) AS_SERVER \<and>
      at_is buf AS_SERVER 0x01)"

definition parse_plain_greeting_accepts_valid_client_greeting :: bool where
  "parse_plain_greeting_accepts_valid_client_greeting \<longleftrightarrow>
     parse_plain_greeting valid_plain_client_greeting = Ok \<lparr>version_minor = 0x01\<rparr>"

definition parse_plain_greeting_rejects_null_mechanism :: bool where
  "parse_plain_greeting_rejects_null_mechanism \<longleftrightarrow> parse_plain_greeting valid_sub_greeting = Err UnsupportedMechanism"

definition parse_plain_greeting_rejects_nonzero_padding_after_plain :: bool where
  "parse_plain_greeting_rejects_nonzero_padding_after_plain \<longleftrightarrow>
     parse_plain_greeting (valid_plain_client_greeting[MECHANISM + 5 := of_char (CHR ''X'')]) = Err UnsupportedMechanism"

definition parse_plain_greeting_rejects_as_server_set :: bool where
  "parse_plain_greeting_rejects_as_server_set \<longleftrightarrow>
     parse_plain_greeting (valid_plain_client_greeting[AS_SERVER := 0x01]) = Err InvalidAsServer"

lemma greeting_tests_pass:
  "emits_64_byte_null_pub_greeting \<and> accepts_valid_greeting_version_minor_1 \<and> accepts_version_minor_0 \<and>
   rejects_wrong_signature_first_byte \<and> rejects_wrong_signature_tenth_byte \<and> rejects_wrong_version_major \<and>
   rejects_unknown_mechanism \<and> rejects_mechanism_null_with_nonzero_padding \<and> rejects_nonzero_as_server \<and>
   partial_greeting_accepts_valid_first_11_bytes \<and> partial_greeting_rejects_wrong_signature \<and>
   partial_greeting_rejects_wrong_version_major \<and> encode_plain_greeting_sets_mechanism_and_as_server \<and>
   parse_plain_greeting_accepts_valid_client_greeting \<and> parse_plain_greeting_rejects_null_mechanism \<and>
   parse_plain_greeting_rejects_nonzero_padding_after_plain \<and> parse_plain_greeting_rejects_as_server_set"
  by code_simp

section \<open>The NULL mechanism\<close>

definition ready_frame_constant_matches_expected_bytes :: bool where
  "ready_frame_constant_matches_expected_bytes \<longleftrightarrow> READY_FRAME =
     [0x04, 0x19, 0x05, 0x52, 0x45, 0x41, 0x44, 0x59, 0x0B, 0x53, 0x6F, 0x63, 0x6B, 0x65,
      0x74, 0x2D, 0x54, 0x79, 0x70, 0x65, 0x00, 0x00, 0x00, 0x03, 0x50, 0x55, 0x42]"

definition encode_ready_writes_correct_bytes :: bool where
  "encode_ready_writes_correct_bytes \<longleftrightarrow> encode_ready (replicate 27 0) = (Ok 27, READY_FRAME)"

definition encode_ready_returns_err_on_small_buffer :: bool where
  "encode_ready_returns_err_on_small_buffer \<longleftrightarrow>
     fst (encode_ready (replicate 26 0)) = Err NullError.BufferTooSmall"

definition parse_ready_sub_returns_sub_socket_type :: bool where
  "parse_ready_sub_returns_sub_socket_type \<longleftrightarrow> parse_ready host
     [0x04, 0x19, 0x05, 0x52, 0x45, 0x41, 0x44, 0x59, 0x0B, 0x53, 0x6F, 0x63, 0x6B, 0x65,
      0x74, 0x2D, 0x54, 0x79, 0x70, 0x65, 0x00, 0x00, 0x00, 0x03, 0x53, 0x55, 0x42] = Ok Sub"

definition parse_ready_xsub_returns_xsub_socket_type :: bool where
  "parse_ready_xsub_returns_xsub_socket_type =
     (let frame = [0x04, 0x1A, 0x05, 0x52, 0x45, 0x41, 0x44, 0x59, 0x0B, 0x53, 0x6F, 0x63, 0x6B, 0x65,
        0x74, 0x2D, 0x54, 0x79, 0x70, 0x65, 0x00, 0x00, 0x00, 0x04, 0x58, 0x53, 0x55, 0x42, 0x00, 0x00] in
      parse_ready host (take 28 frame) = Ok Xsub)"

definition parse_ready_wrong_socket_type_returns_err :: bool where
  "parse_ready_wrong_socket_type_returns_err \<longleftrightarrow> parse_ready host
     [0x04, 0x1A, 0x05, 0x52, 0x45, 0x41, 0x44, 0x59, 0x0B, 0x53, 0x6F, 0x63, 0x6B, 0x65,
      0x74, 0x2D, 0x54, 0x79, 0x70, 0x65, 0x00, 0x00, 0x00, 0x04, 0x50, 0x55, 0x53, 0x48] = Err WrongSocketType"

definition parse_ready_not_a_command_returns_err :: bool where
  "parse_ready_not_a_command_returns_err \<longleftrightarrow>
     parse_ready host ((replicate 27 0)[0 := 0x00, 1 := 0x19]) = Err NullError.NotACommand"

definition parse_ready_unknown_command_returns_err :: bool where
  "parse_ready_unknown_command_returns_err \<longleftrightarrow> parse_ready host
     [0x04, 0x19, 0x05, 0x48, 0x45, 0x4C, 0x4C, 0x4F, 0x0B, 0x53, 0x6F, 0x63, 0x6B, 0x65, 0x74, 0x2D, 0x54, 0x79,
      0x70, 0x65, 0x00, 0x00, 0x00, 0x03, 0x50, 0x55, 0x42] = Err NullError.UnknownCommand"

definition parse_ready_peer_error_command_returns_peer_error :: bool where
  "parse_ready_peer_error_command_returns_peer_error \<longleftrightarrow>
     parse_ready host (take 10 [0x04, 0x08, 0x05, 0x45, 0x52, 0x52, 0x4F, 0x52, 0x00, 0x00]) = Err NullError.PeerError"

definition encode_error_reason_too_long_returns_err :: bool where
  "encode_error_reason_too_long_returns_err \<longleftrightarrow>
     fst (encode_error (replicate 512 0) (replicate 249 (of_char (CHR ''x'')))) = Err ReasonTooLong"

definition encode_error_reason_at_boundary_succeeds :: bool where
  "encode_error_reason_at_boundary_succeeds =
     (case encode_error (replicate 512 0) (replicate 248 (of_char (CHR ''x''))) of (r, buf) \<Rightarrow>
        at_is buf 1 0xFF \<and> r = Ok (2 + 255))"

definition parse_ready_missing_socket_type_returns_wrong_socket_type :: bool where
  "parse_ready_missing_socket_type_returns_wrong_socket_type \<longleftrightarrow>
     parse_ready host ([0x04, 0x06, 0x05] @ ascii ''READY'') = Err WrongSocketType"

definition encode_error_writes_invalid_socket_type_message :: bool where
  "encode_error_writes_invalid_socket_type_message =
     (let reason = ascii ''Invalid socket type'' in
      case encode_error (replicate 64 0) reason of (r, buf) \<Rightarrow>
        r = Ok 28 \<and> at_is buf 0 0x04 \<and> at_is buf 1 0x1A \<and> at_is buf 2 0x05 \<and> range_is buf 3 8 (ascii ''ERROR'') \<and>
        at_is buf 8 0x13 \<and> range_is buf 9 28 reason)"

definition radio_ready_frame_constant_matches_expected_bytes :: bool where
  "radio_ready_frame_constant_matches_expected_bytes \<longleftrightarrow> RADIO_READY_FRAME =
     [0x04, 0x1B, 0x05, 0x52, 0x45, 0x41, 0x44, 0x59, 0x0B, 0x53, 0x6F, 0x63, 0x6B, 0x65,
      0x74, 0x2D, 0x54, 0x79, 0x70, 0x65, 0x00, 0x00, 0x00, 0x05, 0x52, 0x41, 0x44, 0x49, 0x4F]"

definition encode_ready_radio_writes_correct_bytes :: bool where
  "encode_ready_radio_writes_correct_bytes \<longleftrightarrow> encode_ready_radio (replicate 29 0) = (Ok 29, RADIO_READY_FRAME)"

definition encode_ready_radio_returns_err_on_small_buffer :: bool where
  "encode_ready_radio_returns_err_on_small_buffer \<longleftrightarrow>
     fst (encode_ready_radio (replicate 28 0)) = Err NullError.BufferTooSmall"

definition parse_ready_radio_with_dish_returns_dish_socket_type :: bool where
  "parse_ready_radio_with_dish_returns_dish_socket_type \<longleftrightarrow> parse_ready_radio host
     [0x04, 0x1A, 0x05, 0x52, 0x45, 0x41, 0x44, 0x59, 0x0B, 0x53, 0x6F, 0x63, 0x6B, 0x65,
      0x74, 0x2D, 0x54, 0x79, 0x70, 0x65, 0x00, 0x00, 0x00, 0x04, 0x44, 0x49, 0x53, 0x48] = Ok Dish"

definition parse_ready_radio_with_sub_returns_wrong_socket_type :: bool where
  "parse_ready_radio_with_sub_returns_wrong_socket_type \<longleftrightarrow> parse_ready_radio host
     [0x04, 0x19, 0x05, 0x52, 0x45, 0x41, 0x44, 0x59, 0x0B, 0x53, 0x6F, 0x63, 0x6B, 0x65,
      0x74, 0x2D, 0x54, 0x79, 0x70, 0x65, 0x00, 0x00, 0x00, 0x03, 0x53, 0x55, 0x42] = Err WrongSocketType"

definition parse_ready_non_socket_type_property_skipped :: bool where
  "parse_ready_non_socket_type_property_skipped =
     (let frame = replicate 24 0;
          frame = frame[0 := 0x04];
          frame = frame[1 := 22];
          frame = frame[2 := 0x05];
          frame = take 3 frame @ ascii ''READY'' @ drop 8 frame;
          frame = frame[8 := 0x08];
          frame = take 9 frame @ ascii ''Identity'' @ drop 17 frame;
          frame = frame[17 := 0x00];
          frame = frame[18 := 0x00];
          frame = frame[19 := 0x00];
          frame = frame[20 := 0x03];
          frame = take 21 frame @ ascii ''foo'' @ drop 24 frame in
      parse_ready host frame = Err WrongSocketType)"

definition encode_error_buffer_too_small_returns_err :: bool where
  "encode_error_buffer_too_small_returns_err \<longleftrightarrow>
     fst (encode_error (replicate 5 0) (ascii ''oops'')) = Err NullError.BufferTooSmall"

lemma null_tests_pass:
  "ready_frame_constant_matches_expected_bytes \<and> encode_ready_writes_correct_bytes \<and>
   encode_ready_returns_err_on_small_buffer \<and> parse_ready_sub_returns_sub_socket_type \<and>
   parse_ready_xsub_returns_xsub_socket_type \<and> parse_ready_wrong_socket_type_returns_err \<and>
   parse_ready_not_a_command_returns_err \<and> parse_ready_unknown_command_returns_err \<and>
   parse_ready_peer_error_command_returns_peer_error \<and> encode_error_reason_too_long_returns_err \<and>
   encode_error_reason_at_boundary_succeeds \<and> parse_ready_missing_socket_type_returns_wrong_socket_type \<and>
   encode_error_writes_invalid_socket_type_message \<and> radio_ready_frame_constant_matches_expected_bytes \<and>
   encode_ready_radio_writes_correct_bytes \<and> encode_ready_radio_returns_err_on_small_buffer \<and>
   parse_ready_radio_with_dish_returns_dish_socket_type \<and> parse_ready_radio_with_sub_returns_wrong_socket_type \<and>
   parse_ready_non_socket_type_property_skipped \<and> encode_error_buffer_too_small_returns_err"
  by code_simp

section \<open>The PLAIN mechanism and the interface for credentials\<close>

definition hello_body :: "bytes \<Rightarrow> bytes \<Rightarrow> bytes" where
  "hello_body username password =
     (let name = ascii ''HELLO'';
          v = [];
          v = v @ [of_nat (length name)];
          v = v @ name;
          v = v @ [of_nat (length username)];
          v = v @ username;
          v = v @ [of_nat (length password)];
          v = v @ password in v)"

definition encode_welcome_emits_correct_frame :: bool where
  "encode_welcome_emits_correct_frame =
     (case encode_welcome (replicate 16 0) of (r, buf) \<Rightarrow>
        r = Ok WELCOME_LEN \<and> at_is buf 0 0x04 \<and> at_is buf 1 0x08 \<and> at_is buf 2 0x07 \<and>
        range_is buf 3 10 (ascii ''WELCOME''))"

definition encode_welcome_buffer_too_small :: bool where
  "encode_welcome_buffer_too_small \<longleftrightarrow> fst (encode_welcome (replicate 5 0)) = Err PlainError.BufferTooSmall"

definition parse_hello_from_valid :: bool where
  "parse_hello_from_valid \<longleftrightarrow>
     parse_hello_from True (hello_body (ascii ''alice'') (ascii ''secret'')) = Ok (ascii ''alice'', ascii ''secret'')"

definition parse_hello_from_empty_credentials :: bool where
  "parse_hello_from_empty_credentials \<longleftrightarrow> parse_hello_from True (hello_body [] []) = Ok ([], [])"

definition parse_hello_from_not_a_command :: bool where
  "parse_hello_from_not_a_command \<longleftrightarrow>
     parse_hello_from False (hello_body (ascii ''u'') (ascii ''p'')) = Err PlainError.NotACommand"

definition parse_hello_from_error_command :: bool where
  "parse_hello_from_error_command \<longleftrightarrow>
     parse_hello_from True ([5] @ ascii ''ERROR'' @ (0x00 # ascii ''something'')) = Err PlainError.PeerError"

definition parse_hello_from_unknown_command :: bool where
  "parse_hello_from_unknown_command \<longleftrightarrow>
     parse_hello_from True ([5] @ ascii ''READY'') = Err PlainError.UnknownCommand"

definition parse_hello_from_empty_body :: bool where
  "parse_hello_from_empty_body \<longleftrightarrow> parse_hello_from True [] = Err MalformedHello"

definition parse_hello_from_truncated_username :: bool where
  "parse_hello_from_truncated_username \<longleftrightarrow>
     parse_hello_from True ([5] @ ascii ''HELLO'' @ [5] @ ascii ''ab'') = Err MalformedHello"

definition parse_hello_from_missing_password_len :: bool where
  "parse_hello_from_missing_password_len \<longleftrightarrow>
     parse_hello_from True ([5] @ ascii ''HELLO'' @ [0]) = Err MalformedHello"

definition unit_impl_always_returns_false :: bool where
  "unit_impl_always_returns_false \<longleftrightarrow>
     \<not> unit_auth (ascii ''user'') (ascii ''pass'') \<and> \<not> unit_auth [] []"

lemma plain_tests_pass:
  "encode_welcome_emits_correct_frame \<and> encode_welcome_buffer_too_small \<and> parse_hello_from_valid \<and>
   parse_hello_from_empty_credentials \<and> parse_hello_from_not_a_command \<and> parse_hello_from_error_command \<and>
   parse_hello_from_unknown_command \<and> parse_hello_from_empty_body \<and> parse_hello_from_truncated_username \<and>
   parse_hello_from_missing_password_len \<and> unit_impl_always_returns_false"
  by code_simp

end
