(* ===== verification/Table_Tests.thy ===== *)
theory Table_Tests
  imports Assertions Sub_Table Group_Table
begin

text \<open>
  The unit tests of the two tables (the \<^verbatim>\<open>tests\<close> modules of \<^verbatim>\<open>src/sub_table.rs\<close> and
  \<^verbatim>\<open>src/group_table.rs\<close>), as truth values, for any implementation of \<^verbatim>\<open>heapless::Vec\<close>; they are run on lists. The
  operations that return nothing in Rust (\<^verbatim>\<open>cancel\<close>, \<^verbatim>\<open>leave\<close>) must not panic.
\<close>

section \<open>Subscriptions\<close>

definition empty_table_matches_nothing :: "('b, 'v) heapless \<Rightarrow> bool" where
  "empty_table_matches_nothing H =
     (let table = new_sub_table H in
      \<not> sub_matches H table (ascii ''foo''))"

definition subscribe_empty_prefix_matches_all :: "('b, 'v) heapless \<Rightarrow> bool" where
  "subscribe_empty_prefix_matches_all H =
     (let table = new_sub_table H in
      (case subscribe H 8 16 table [] of (r, table) \<Rightarrow> is_ok r \<and>
       sub_matches H table (ascii ''foo'') \<and>
       sub_matches H table [] \<and>
       sub_matches H table (ascii ''anything'')))"

definition subscribe_prefix_matches_exact :: "('b, 'v) heapless \<Rightarrow> bool" where
  "subscribe_prefix_matches_exact H =
     (let table = new_sub_table H in
      (case subscribe H 8 16 table (ascii ''foo'') of (r, table) \<Rightarrow> is_ok r \<and>
       sub_matches H table (ascii ''foo'')))"

definition subscribe_prefix_matches_longer_topic :: "('b, 'v) heapless \<Rightarrow> bool" where
  "subscribe_prefix_matches_longer_topic H =
     (let table = new_sub_table H in
      (case subscribe H 8 16 table (ascii ''foo'') of (r, table) \<Rightarrow> is_ok r \<and>
       sub_matches H table (ascii ''foobar'')))"

definition subscribe_prefix_does_not_match_shorter_topic :: "('b, 'v) heapless \<Rightarrow> bool" where
  "subscribe_prefix_does_not_match_shorter_topic H =
     (let table = new_sub_table H in
      (case subscribe H 8 16 table (ascii ''foobar'') of (r, table) \<Rightarrow> is_ok r \<and>
       \<not> sub_matches H table (ascii ''foo'')))"

definition subscribe_prefix_does_not_match_different_prefix :: "('b, 'v) heapless \<Rightarrow> bool" where
  "subscribe_prefix_does_not_match_different_prefix H =
     (let table = new_sub_table H in
      (case subscribe H 8 16 table (ascii ''foo'') of (r, table) \<Rightarrow> is_ok r \<and>
       \<not> sub_matches H table (ascii ''bar'')))"

definition cancel_removes_subscription :: "('b, 'v) heapless \<Rightarrow> bool" where
  "cancel_removes_subscription H =
     (let table = new_sub_table H in
      (case subscribe H 8 16 table (ascii ''foo'') of (r, table) \<Rightarrow> is_ok r \<and>
       (case cancel H table (ascii ''foo'') of (r, table) \<Rightarrow> is_ok r \<and>
        \<not> sub_matches H table (ascii ''foo''))))"

definition cancel_nonexistent_is_noop :: "('b, 'v) heapless \<Rightarrow> bool" where
  "cancel_nonexistent_is_noop H =
     (let table = new_sub_table H in
      (case cancel H table (ascii ''foo'') of (r, table) \<Rightarrow> is_ok r \<and>
       sub_len H table = 0))"

definition multiple_subscriptions_any_match :: "('b, 'v) heapless \<Rightarrow> bool" where
  "multiple_subscriptions_any_match H =
     (let table = new_sub_table H in
      (case subscribe H 8 16 table (ascii ''foo'') of (r, table) \<Rightarrow> is_ok r \<and>
       (case subscribe H 8 16 table (ascii ''bar'') of (r, table) \<Rightarrow> is_ok r \<and>
        sub_matches H table (ascii ''fooX'') \<and>
        sub_matches H table (ascii ''barX'') \<and>
        \<not> sub_matches H table (ascii ''baz''))))"

definition table_full_returns_err :: "('b, 'v) heapless \<Rightarrow> bool" where
  "table_full_returns_err H =
     (let table = new_sub_table H in
      (case subscribe H 2 8 table (ascii ''first'') of (r, table) \<Rightarrow> is_ok r \<and>
       (case subscribe H 2 8 table (ascii ''second'') of (r, table) \<Rightarrow> is_ok r \<and>
        fst (subscribe H 2 8 table (ascii ''third'')) = Err SubError.TableFull)))"

definition prefix_too_long_returns_err :: "('b, 'v) heapless \<Rightarrow> bool" where
  "prefix_too_long_returns_err H =
     (let table = new_sub_table H in
      fst (subscribe H 8 4 table (ascii ''toolong'')) = Err PrefixTooLong)"

definition len_and_is_empty :: "('b, 'v) heapless \<Rightarrow> bool" where
  "len_and_is_empty H =
     (let table = new_sub_table H in
      sub_is_empty H table \<and>
      sub_len H table = 0 \<and>
      (case subscribe H 8 16 table (ascii ''foo'') of (r, table) \<Rightarrow> is_ok r \<and>
       sub_len H table = 1 \<and>
       \<not> sub_is_empty H table \<and>
       (case cancel H table (ascii ''foo'') of (r, table) \<Rightarrow> is_ok r \<and>
        sub_len H table = 0 \<and>
        sub_is_empty H table)))"

definition duplicate_subscribe_is_additive :: "('b, 'v) heapless \<Rightarrow> bool" where
  "duplicate_subscribe_is_additive H =
     (let table = new_sub_table H in
      (case subscribe H 8 16 table (ascii ''foo'') of (r, table) \<Rightarrow> is_ok r \<and>
       (case subscribe H 8 16 table (ascii ''foo'') of (r, table) \<Rightarrow> is_ok r \<and>
        sub_len H table = 2 \<and>
        sub_matches H table (ascii ''foo'') \<and>
        (case cancel H table (ascii ''foo'') of (r, table) \<Rightarrow> is_ok r \<and>
         sub_len H table = 1 \<and>
         sub_matches H table (ascii ''foo'') \<and>
         (case cancel H table (ascii ''foo'') of (r, table) \<Rightarrow> is_ok r \<and>
          sub_len H table = 0 \<and>
          \<not> sub_matches H table (ascii ''foo''))))))"

lemma sub_table_tests_pass:
  "empty_table_matches_nothing list_heapless \<and> subscribe_empty_prefix_matches_all list_heapless \<and>
   subscribe_prefix_matches_exact list_heapless \<and> subscribe_prefix_matches_longer_topic list_heapless \<and>
   subscribe_prefix_does_not_match_shorter_topic list_heapless \<and> subscribe_prefix_does_not_match_different_prefix list_heapless \<and>
   cancel_removes_subscription list_heapless \<and> cancel_nonexistent_is_noop list_heapless \<and>
   multiple_subscriptions_any_match list_heapless \<and> table_full_returns_err list_heapless \<and>
   prefix_too_long_returns_err list_heapless \<and> len_and_is_empty list_heapless \<and>
   duplicate_subscribe_is_additive list_heapless"
  by code_simp

section \<open>Groups\<close>

definition group_empty_table_matches_nothing :: "('b, 'v) heapless \<Rightarrow> bool" where
  "group_empty_table_matches_nothing H =
     (let table = new_group_table H in
      \<not> group_matches H table (ascii ''foo''))"

definition join_exact_match :: "('b, 'v) heapless \<Rightarrow> bool" where
  "join_exact_match H =
     (let table = new_group_table H in
      (case join H 8 16 table (ascii ''foo'') of (r, table) \<Rightarrow> is_ok r \<and>
       group_matches H table (ascii ''foo'')))"

definition join_does_not_prefix_match :: "('b, 'v) heapless \<Rightarrow> bool" where
  "join_does_not_prefix_match H =
     (let table = new_group_table H in
      (case join H 8 16 table (ascii ''foo'') of (r, table) \<Rightarrow> is_ok r \<and>
       \<not> group_matches H table (ascii ''foobar'') \<and>
       \<not> group_matches H table (ascii ''fo'')))"

definition leave_removes_group :: "('b, 'v) heapless \<Rightarrow> bool" where
  "leave_removes_group H =
     (let table = new_group_table H in
      (case join H 8 16 table (ascii ''foo'') of (r, table) \<Rightarrow> is_ok r \<and>
       (case leave H table (ascii ''foo'') of (r, table) \<Rightarrow> is_ok r \<and>
        \<not> group_matches H table (ascii ''foo''))))"

definition leave_nonexistent_is_noop :: "('b, 'v) heapless \<Rightarrow> bool" where
  "leave_nonexistent_is_noop H =
     (let table = new_group_table H in
      (case leave H table (ascii ''foo'') of (r, table) \<Rightarrow> is_ok r \<and>
       group_len H table = 0))"

definition multiple_groups_exact_match :: "('b, 'v) heapless \<Rightarrow> bool" where
  "multiple_groups_exact_match H =
     (let table = new_group_table H in
      (case join H 8 16 table (ascii ''foo'') of (r, table) \<Rightarrow> is_ok r \<and>
       (case join H 8 16 table (ascii ''bar'') of (r, table) \<Rightarrow> is_ok r \<and>
        group_matches H table (ascii ''foo'') \<and>
        group_matches H table (ascii ''bar'') \<and>
        \<not> group_matches H table (ascii ''baz''))))"

definition group_table_full_returns_err :: "('b, 'v) heapless \<Rightarrow> bool" where
  "group_table_full_returns_err H =
     (let table = new_group_table H in
      (case join H 2 8 table (ascii ''first'') of (r, table) \<Rightarrow> is_ok r \<and>
       (case join H 2 8 table (ascii ''second'') of (r, table) \<Rightarrow> is_ok r \<and>
        fst (join H 2 8 table (ascii ''third'')) = Err GroupError.TableFull)))"

definition group_too_long_returns_err :: "('b, 'v) heapless \<Rightarrow> bool" where
  "group_too_long_returns_err H =
     (let table = new_group_table H in
      fst (join H 8 4 table (ascii ''toolong'')) = Err GroupTooLong)"

definition group_len_and_is_empty :: "('b, 'v) heapless \<Rightarrow> bool" where
  "group_len_and_is_empty H =
     (let table = new_group_table H in
      group_is_empty H table \<and>
      group_len H table = 0 \<and>
      (case join H 8 16 table (ascii ''foo'') of (r, table) \<Rightarrow> is_ok r \<and>
       group_len H table = 1 \<and>
       \<not> group_is_empty H table \<and>
       (case leave H table (ascii ''foo'') of (r, table) \<Rightarrow> is_ok r \<and>
        group_len H table = 0 \<and>
        group_is_empty H table)))"

definition duplicate_join_does_not_add_twice :: "('b, 'v) heapless \<Rightarrow> bool" where
  "duplicate_join_does_not_add_twice H =
     (let table = new_group_table H in
      (case join H 8 16 table (ascii ''foo'') of (r, table) \<Rightarrow> is_ok r \<and>
       (case join H 8 16 table (ascii ''foo'') of (r, table) \<Rightarrow> is_ok r \<and>
        group_len H table = 1 \<and>
        group_matches H table (ascii ''foo''))))"

definition join_at_max_length_succeeds :: "('b, 'v) heapless \<Rightarrow> bool" where
  "join_at_max_length_succeeds H =
     (let table = new_group_table H in
      (case join H 8 4 table (ascii ''abcd'') of (r, table) \<Rightarrow> is_ok r \<and>
       group_matches H table (ascii ''abcd'') \<and>
       group_len H table = 1))"

definition leave_at_max_length_removes_group :: "('b, 'v) heapless \<Rightarrow> bool" where
  "leave_at_max_length_removes_group H =
     (let table = new_group_table H in
      (case join H 8 4 table (ascii ''abcd'') of (r, table) \<Rightarrow> is_ok r \<and>
       (case leave H table (ascii ''abcd'') of (r, table) \<Rightarrow> is_ok r \<and>
        \<not> group_matches H table (ascii ''abcd'') \<and>
        group_is_empty H table)))"

lemma group_table_tests_pass:
  "group_empty_table_matches_nothing list_heapless \<and> join_exact_match list_heapless \<and>
   join_does_not_prefix_match list_heapless \<and> leave_removes_group list_heapless \<and>
   leave_nonexistent_is_noop list_heapless \<and> multiple_groups_exact_match list_heapless \<and>
   group_table_full_returns_err list_heapless \<and> group_too_long_returns_err list_heapless \<and>
   group_len_and_is_empty list_heapless \<and> duplicate_join_does_not_add_twice list_heapless \<and>
   join_at_max_length_succeeds list_heapless \<and> leave_at_max_length_removes_group list_heapless"
  by code_simp

end
