(* ===== verification/Radio_Connection_Tests.thy ===== *)
theory Radio_Connection_Tests
  imports Assertions Test_Helpers Radio_Connection
begin

text \<open>
  The unit tests of \<^verbatim>\<open>src/radio_connection.rs\<close>, as truth values (see \<^verbatim>\<open>Assertions\<close>). The vectors in which the fixtures
  collect frames are lists here; they are never full.
\<close>

section \<open>Fixtures\<close>

definition radio_test_build :: "('b, 'v) heapless \<Rightarrow> ('b, 'v) radio_build" where
  "radio_test_build H = \<lparr>target_of = host, heapless_of = H, FRAME_CAP = 512, GROUP_CAP = 8, GROUP_LEN_CAP = 32\<rparr>"

definition rejected_sub_ready :: bytes where
  "rejected_sub_ready =
     [0x04, 0x19, 0x05, 0x52, 0x45, 0x41, 0x44, 0x59, 0x0B, 0x53, 0x6F, 0x63, 0x6B, 0x65,
      0x74, 0x2D, 0x54, 0x79, 0x70, 0x65, 0x00, 0x00, 0x00, 0x03, 0x53, 0x55, 0x42]"

text \<open>A helper that ends with an \<^verbatim>\<open>unwrap\<close> takes the rest of the test.\<close>

definition do_handshake :: "('b, 'v) radio_build \<Rightarrow> 'v RadioConnection \<Rightarrow> ('v RadioConnection \<Rightarrow> bool) \<Rightarrow> bool" where
  "do_handshake P conn test =
     (case write_greeting conn (replicate 64 0) of (r, out, conn) \<Rightarrow> is_ok r \<and>
      (case Radio_Connection.feed P conn dish_greeting of (r, conn) \<Rightarrow> is_ok r \<and>
       (case write_ready conn (replicate 32 0) of (r, ready_out, conn) \<Rightarrow> is_ok r \<and>
        (case Radio_Connection.feed P conn dish_ready of (r, conn) \<Rightarrow> is_ok r \<and>
         test conn))))"

definition build_join_frame :: "bytes \<Rightarrow> bytes" where
  "build_join_frame grp =
     (let name = ascii ''JOIN'';
          body_len = 1 + length name + length grp;
          frame = [];
          frame = frame @ [0x04];
          frame = frame @ [of_nat body_len];
          frame = frame @ [of_nat (length name)];
          frame = frame @ name;
          frame = frame @ grp in frame)"

definition build_leave_frame :: "bytes \<Rightarrow> bytes" where
  "build_leave_frame grp =
     (let name = ascii ''LEAVE'';
          body_len = 1 + length name + length grp;
          frame = [];
          frame = frame @ [0x04];
          frame = frame @ [of_nat body_len];
          frame = frame @ [of_nat (length name)];
          frame = frame @ name;
          frame = frame @ grp in frame)"

section \<open>Tests\<close>

definition initial_state_is_greeting :: "('b, 'v) heapless \<Rightarrow> bool" where
  "initial_state_is_greeting H =
     (let P = radio_test_build H; conn = new_radio P in
      state conn = Greeting)"

definition write_greeting_succeeds :: "('b, 'v) heapless \<Rightarrow> bool" where
  "write_greeting_succeeds H =
     (let P = radio_test_build H; conn = new_radio P in
      (case write_greeting conn (replicate 64 0) of (r, out, conn) \<Rightarrow> r = Ok GREETING_LEN \<and>
       at_is out 0 0xFF \<and> at_is out 9 0x7F \<and> at_is out 10 0x03))"

definition write_greeting_wrong_state_fails :: "('b, 'v) heapless \<Rightarrow> bool" where
  "write_greeting_wrong_state_fails H =
     (let P = radio_test_build H; conn = new_radio P in
      (case write_greeting conn (replicate 64 0) of (r, out, conn) \<Rightarrow> is_ok r \<and>
       fst (write_greeting conn out) = Err WrongState))"

definition feed_peer_greeting_advances_to_ready :: "('b, 'v) heapless \<Rightarrow> bool" where
  "feed_peer_greeting_advances_to_ready H =
     (let P = radio_test_build H; conn = new_radio P in
      (case write_greeting conn (replicate 64 0) of (r, out, conn) \<Rightarrow> is_ok r \<and>
       (case Radio_Connection.feed P conn dish_greeting of (r, conn) \<Rightarrow> is_ok r \<and>
        state conn = Ready)))"

definition write_ready_after_greeting_succeeds :: "('b, 'v) heapless \<Rightarrow> bool" where
  "write_ready_after_greeting_succeeds H =
     (let P = radio_test_build H; conn = new_radio P in
      (case write_greeting conn (replicate 64 0) of (r, out, conn) \<Rightarrow> is_ok r \<and>
       (case Radio_Connection.feed P conn dish_greeting of (r, conn) \<Rightarrow> is_ok r \<and>
        fst (write_ready conn (replicate 32 0)) = Ok RADIO_READY_LEN)))"

definition feed_dish_ready_advances_to_established :: "('b, 'v) heapless \<Rightarrow> bool" where
  "feed_dish_ready_advances_to_established H =
     (let P = radio_test_build H; conn = new_radio P in
      do_handshake P conn (\<lambda>conn.
       state conn = Established))"

definition feed_sub_ready_returns_wrong_socket_type :: "('b, 'v) heapless \<Rightarrow> bool" where
  "feed_sub_ready_returns_wrong_socket_type H =
     (let P = radio_test_build H; conn = new_radio P in
      (case write_greeting conn (replicate 64 0) of (r, out, conn) \<Rightarrow> is_ok r \<and>
       (case Radio_Connection.feed P conn dish_greeting of (r, conn) \<Rightarrow> is_ok r \<and>
        (case write_ready conn (replicate 32 0) of (r, ready_out, conn) \<Rightarrow> is_ok r \<and>
         (case Radio_Connection.feed P conn rejected_sub_ready of (r, conn) \<Rightarrow> r = Err (NullError WrongSocketType) \<and>
          state conn = Failed)))))"

definition publish_without_membership_returns_zero :: "('b, 'v) heapless \<Rightarrow> bool" where
  "publish_without_membership_returns_zero H =
     (let P = radio_test_build H; conn = new_radio P in
      do_handshake P conn (\<lambda>conn.
       fst (publish P conn (ascii ''foo'') (ascii ''bar'') (replicate 256 0)) = Ok 0))"

definition publish_with_matching_group_writes_frames :: "('b, 'v) heapless \<Rightarrow> bool" where
  "publish_with_matching_group_writes_frames H =
     (let P = radio_test_build H; conn = new_radio P in
      do_handshake P conn (\<lambda>conn.
       (case Radio_Connection.feed P conn (build_join_frame (ascii ''foo'')) of (r, conn) \<Rightarrow> is_ok r \<and>
        (case publish P conn (ascii ''foo'') (ascii ''bar'') (replicate 256 0) of (r, buf) \<Rightarrow> r = Ok 10 \<and>
         at_is buf 0 0x01 \<and> at_is buf 1 0x03 \<and> range_is buf 2 5 (ascii ''foo'') \<and> at_is buf 5 0x00 \<and>
         at_is buf 6 0x03 \<and> range_is buf 7 10 (ascii ''bar'')))))"

definition publish_requires_exact_match :: "('b, 'v) heapless \<Rightarrow> bool" where
  "publish_requires_exact_match H =
     (let P = radio_test_build H; conn = new_radio P in
      do_handshake P conn (\<lambda>conn.
       (case Radio_Connection.feed P conn (build_join_frame (ascii ''foo'')) of (r, conn) \<Rightarrow> is_ok r \<and>
        (case publish P conn (ascii ''foobar'') (ascii ''payload'') (replicate 256 0) of (r, buf) \<Rightarrow> r = Ok 0 \<and>
         positive (fst (publish P conn (ascii ''foo'') (ascii ''payload'') buf))))))"

definition leave_removes_membership :: "('b, 'v) heapless \<Rightarrow> bool" where
  "leave_removes_membership H =
     (let P = radio_test_build H; conn = new_radio P in
      do_handshake P conn (\<lambda>conn.
       (case Radio_Connection.feed P conn (build_join_frame (ascii ''foo'')) of (r, conn) \<Rightarrow> is_ok r \<and>
        (case publish P conn (ascii ''foo'') (ascii ''x'') (replicate 256 0) of (r, buf) \<Rightarrow> positive r \<and>
         (case Radio_Connection.feed P conn (build_leave_frame (ascii ''foo'')) of (r, conn) \<Rightarrow> is_ok r \<and>
          fst (publish P conn (ascii ''foo'') (ascii ''x'') buf) = Ok 0)))))"

definition publish_in_wrong_state_fails :: "('b, 'v) heapless \<Rightarrow> bool" where
  "publish_in_wrong_state_fails H =
     (let P = radio_test_build H; conn = new_radio P in
      fst (publish P conn (ascii ''foo'') (ascii ''bar'') (replicate 256 0)) = Err WrongState)"

definition ping_command_queues_pong_with_context :: "('b, 'v) heapless \<Rightarrow> bool" where
  "ping_command_queues_pong_with_context H =
     (let P = radio_test_build H; conn = new_radio P in
      do_handshake P conn (\<lambda>conn.
       (case Radio_Connection.feed P conn ping_hi of (r, conn) \<Rightarrow> is_ok r \<and>
        (case write_pong conn (replicate 23 0) of (r, pong_buf, conn) \<Rightarrow> r = Ok (Some 9) \<and>
         at_is pong_buf 0 0x04 \<and> at_is pong_buf 1 7 \<and> at_is pong_buf 2 4 \<and> range_is pong_buf 3 7 (ascii ''PONG'') \<and>
         range_is pong_buf 7 9 (ascii ''hi'') \<and> fst (write_pong conn pong_buf) = Ok None))))"

definition write_error_returns_error_frame :: "('b, 'v) heapless \<Rightarrow> bool" where
  "write_error_returns_error_frame H =
     (let P = radio_test_build H; conn = new_radio P in
      (case write_greeting conn (replicate 64 0) of (r, out, conn) \<Rightarrow> is_ok r \<and>
       (case Radio_Connection.feed P conn dish_greeting of (r, conn) \<Rightarrow> is_ok r \<and>
        (case write_ready conn (replicate 32 0) of (r, ready_out, conn) \<Rightarrow> is_ok r \<and>
         (case Radio_Connection.feed P conn rejected_sub_ready of (_, conn) \<Rightarrow>
          state conn = Failed \<and>
          (case write_error conn (replicate 64 0) of (r, err_out) \<Rightarrow> positive r \<and>
           at_is err_out 0 0x04 \<and> range_is err_out 3 8 (ascii ''ERROR'')))))))"

definition peer_version_returns_3_1 :: "('b, 'v) heapless \<Rightarrow> bool" where
  "peer_version_returns_3_1 H =
     (let P = radio_test_build H; conn = new_radio P in
      peer_version conn = (3, 0) \<and>
      (case write_greeting conn (replicate 64 0) of (r, out, conn) \<Rightarrow> is_ok r \<and>
       (case Radio_Connection.feed P conn dish_greeting of (r, conn) \<Rightarrow> is_ok r \<and>
        peer_version conn = (3, 1))))"

definition write_greeting_twice_fails :: "('b, 'v) heapless \<Rightarrow> bool" where
  "write_greeting_twice_fails H =
     (let P = radio_test_build H; conn = new_radio P in
      (case write_greeting conn (replicate 64 0) of (r, out, conn) \<Rightarrow> is_ok r \<and>
       fst (write_greeting conn out) = Err WrongState))"

definition write_greeting_matches_encode_greeting :: "('b, 'v) heapless \<Rightarrow> bool" where
  "write_greeting_matches_encode_greeting H =
     (let P = radio_test_build H; conn = new_radio P in
      (case write_greeting conn (replicate GREETING_LEN 0) of (r, combined, conn) \<Rightarrow> r = Ok GREETING_LEN \<and>
       combined = encode_greeting (replicate GREETING_LEN 0)))"

section \<open>PLAIN\<close>

definition accept_all :: authenticator where
  "accept_all username password = True"

definition reject_all :: authenticator where
  "reject_all username password = False"

definition require_credentials :: "bytes \<Rightarrow> bytes \<Rightarrow> authenticator" where
  "require_credentials user pass username password \<longleftrightarrow> username = user \<and> password = pass"

definition plain_dish_greeting :: bytes where
  "plain_dish_greeting =
     (let g = replicate GREETING_LEN 0;
          g = g[0 := 0xFF];
          g = g[9 := 0x7F];
          g = g[10 := 0x03];
          g = g[11 := 0x01];
          g = g[12 := of_char (CHR ''P'')];
          g = g[13 := of_char (CHR ''L'')];
          g = g[14 := of_char (CHR ''A'')];
          g = g[15 := of_char (CHR ''I'')];
          g = g[16 := of_char (CHR ''N'')] in g)"

definition hello_frame :: "bytes \<Rightarrow> bytes \<Rightarrow> bytes" where
  "hello_frame username password =
     (let body_len = of_nat (1 + 5 + 1 + length username + 1 + length password);
          f = [];
          f = f @ [0x04];
          f = f @ [body_len];
          f = f @ [5];
          f = f @ ascii ''HELLO'';
          f = f @ [of_nat (length username)];
          f = f @ username;
          f = f @ [of_nat (length password)];
          f = f @ password in f)"

definition do_plain_handshake :: "('b, 'v) radio_build \<Rightarrow> 'v RadioConnection \<Rightarrow> ('v RadioConnection \<Rightarrow> bool) \<Rightarrow> bool" where
  "do_plain_handshake P conn test =
     (case write_greeting conn (replicate 64 0) of (r, out, conn) \<Rightarrow> is_ok r \<and>
      (case Radio_Connection.feed P conn plain_dish_greeting of (r, conn) \<Rightarrow> is_ok r \<and>
       (case Radio_Connection.feed P conn (hello_frame (ascii ''user'') (ascii ''pass'')) of (r, conn) \<Rightarrow> is_ok r \<and>
        (case write_welcome conn (replicate 16 0) of (r, welcome_buf, conn) \<Rightarrow> is_ok r \<and>
         (case write_ready conn (replicate 32 0) of (r, ready_out, conn) \<Rightarrow> is_ok r \<and>
          (case Radio_Connection.feed P conn dish_ready of (r, conn) \<Rightarrow> is_ok r \<and>
           test conn))))))"

definition plain_write_greeting_uses_plain_greeting :: "('b, 'v) heapless \<Rightarrow> bool" where
  "plain_write_greeting_uses_plain_greeting H =
     (let P = radio_test_build H; conn = new_radio_plain P accept_all in
      (case write_greeting conn (replicate GREETING_LEN 0) of (r, combined, conn) \<Rightarrow> r = Ok GREETING_LEN \<and>
       combined = encode_plain_greeting (replicate GREETING_LEN 0)))"

definition plain_greeting_exchange_transitions_to_plain_hello :: "('b, 'v) heapless \<Rightarrow> bool" where
  "plain_greeting_exchange_transitions_to_plain_hello H =
     (let P = radio_test_build H; conn = new_radio_plain P accept_all in
      (case write_greeting conn (replicate 64 0) of (r, out, conn) \<Rightarrow> is_ok r \<and>
       (case Radio_Connection.feed P conn plain_dish_greeting of (r, conn) \<Rightarrow> is_ok r \<and>
        state conn = PlainHello)))"

definition plain_valid_hello_transitions_to_plain_ready :: "('b, 'v) heapless \<Rightarrow> bool" where
  "plain_valid_hello_transitions_to_plain_ready H =
     (let P = radio_test_build H; conn = new_radio_plain P (require_credentials (ascii ''alice'') (ascii ''secret'')) in
      (case write_greeting conn (replicate 64 0) of (r, out, conn) \<Rightarrow> is_ok r \<and>
       (case Radio_Connection.feed P conn plain_dish_greeting of (r, conn) \<Rightarrow> is_ok r \<and>
        (case Radio_Connection.feed P conn (hello_frame (ascii ''alice'') (ascii ''secret'')) of (r, conn) \<Rightarrow> is_ok r \<and>
         state conn = PlainReady))))"

definition plain_wrong_credentials_returns_auth_failed :: "('b, 'v) heapless \<Rightarrow> bool" where
  "plain_wrong_credentials_returns_auth_failed H =
     (let P = radio_test_build H; conn = new_radio_plain P reject_all in
      (case write_greeting conn (replicate 64 0) of (r, out, conn) \<Rightarrow> is_ok r \<and>
       (case Radio_Connection.feed P conn plain_dish_greeting of (r, conn) \<Rightarrow> is_ok r \<and>
        (case Radio_Connection.feed P conn (hello_frame (ascii ''user'') (ascii ''wrong'')) of (r, conn) \<Rightarrow> r = Err (PlainError AuthFailed) \<and>
         state conn = Failed))))"

definition plain_write_welcome_writes_correct_frame :: "('b, 'v) heapless \<Rightarrow> bool" where
  "plain_write_welcome_writes_correct_frame H =
     (let P = radio_test_build H; conn = new_radio_plain P accept_all in
      (case write_greeting conn (replicate 64 0) of (r, out, conn) \<Rightarrow> is_ok r \<and>
       (case Radio_Connection.feed P conn plain_dish_greeting of (r, conn) \<Rightarrow> is_ok r \<and>
        (case Radio_Connection.feed P conn (hello_frame (ascii ''u'') (ascii ''p'')) of (r, conn) \<Rightarrow> is_ok r \<and>
         (case write_welcome conn (replicate 16 0) of (r, welcome_buf, conn) \<Rightarrow> r = Ok WELCOME_LEN \<and>
          at_is welcome_buf 0 0x04 \<and> at_is welcome_buf 1 0x08 \<and> range_is welcome_buf 3 10 (ascii ''WELCOME''))))))"

definition plain_full_handshake_reaches_established :: "('b, 'v) heapless \<Rightarrow> bool" where
  "plain_full_handshake_reaches_established H =
     (let P = radio_test_build H; conn = new_radio_plain P accept_all in
      do_plain_handshake P conn (\<lambda>conn.
       state conn = Established))"

definition plain_write_ready_before_welcome_fails :: "('b, 'v) heapless \<Rightarrow> bool" where
  "plain_write_ready_before_welcome_fails H =
     (let P = radio_test_build H; conn = new_radio_plain P accept_all in
      (case write_greeting conn (replicate 64 0) of (r, out, conn) \<Rightarrow> is_ok r \<and>
       (case Radio_Connection.feed P conn plain_dish_greeting of (r, conn) \<Rightarrow> is_ok r \<and>
        (case Radio_Connection.feed P conn (hello_frame (ascii ''u'') (ascii ''p'')) of (r, conn) \<Rightarrow> is_ok r \<and>
         state conn = PlainReady \<and> fst (write_ready conn (replicate 32 0)) = Err WrongState))))"

definition plain_write_welcome_in_wrong_state_fails :: "('b, 'v) heapless \<Rightarrow> bool" where
  "plain_write_welcome_in_wrong_state_fails H =
     (let P = radio_test_build H; conn = new_radio_plain P accept_all in
      fst (write_welcome conn (replicate 16 0)) = Err WrongState)"

definition plain_rejects_null_peer_greeting :: "('b, 'v) heapless \<Rightarrow> bool" where
  "plain_rejects_null_peer_greeting H =
     (let P = radio_test_build H; conn = new_radio_plain P accept_all in
      (case write_greeting conn (replicate 64 0) of (r, out, conn) \<Rightarrow> is_ok r \<and>
       is_err (fst (Radio_Connection.feed P conn dish_greeting))))"

definition plain_publish_after_handshake_works :: "('b, 'v) heapless \<Rightarrow> bool" where
  "plain_publish_after_handshake_works H =
     (let P = radio_test_build H; conn = new_radio_plain P accept_all in
      do_plain_handshake P conn (\<lambda>conn.
       (case Radio_Connection.feed P conn (build_join_frame []) of (r, conn) \<Rightarrow> is_ok r \<and>
        positive (fst (publish P conn [] (ascii ''hello'') (replicate 256 0))))))"

section \<open>Running the tests\<close>

lemma radio_connection_tests_pass_1:
  "initial_state_is_greeting list_heapless \<and> write_greeting_succeeds list_heapless \<and>
   write_greeting_wrong_state_fails list_heapless \<and> feed_peer_greeting_advances_to_ready list_heapless \<and>
   write_ready_after_greeting_succeeds list_heapless \<and> feed_dish_ready_advances_to_established list_heapless"
  by code_simp

lemma radio_connection_tests_pass_2:
  "feed_sub_ready_returns_wrong_socket_type list_heapless \<and> publish_without_membership_returns_zero list_heapless \<and>
   publish_with_matching_group_writes_frames list_heapless \<and> publish_requires_exact_match list_heapless \<and>
   leave_removes_membership list_heapless \<and> publish_in_wrong_state_fails list_heapless"
  by code_simp

lemma radio_connection_tests_pass_3:
  "ping_command_queues_pong_with_context list_heapless \<and> write_error_returns_error_frame list_heapless \<and>
   peer_version_returns_3_1 list_heapless \<and> write_greeting_twice_fails list_heapless \<and>
   write_greeting_matches_encode_greeting list_heapless"
  by code_simp

lemma radio_connection_plain_tests_pass_1:
  "plain_write_greeting_uses_plain_greeting list_heapless \<and> plain_greeting_exchange_transitions_to_plain_hello list_heapless \<and>
   plain_valid_hello_transitions_to_plain_ready list_heapless \<and> plain_wrong_credentials_returns_auth_failed list_heapless \<and>
   plain_write_welcome_writes_correct_frame list_heapless \<and> plain_full_handshake_reaches_established list_heapless"
  by code_simp

lemma radio_connection_plain_tests_pass_2:
  "plain_write_ready_before_welcome_fails list_heapless \<and> plain_write_welcome_in_wrong_state_fails list_heapless \<and>
   plain_rejects_null_peer_greeting list_heapless \<and> plain_publish_after_handshake_works list_heapless"
  by code_simp

end
