(* ===== verification/Driver_Assertions.thy ===== *)
theory Driver_Assertions
  imports Assertions Awaited
begin

text \<open>
  What the tests of the drivers have in common. A test that unwraps a result or polls until the connection is
  established goes on with what it gets, and is false when there is nothing: on an error, on a panic, and
  when the loop does not end.
\<close>

definition unwrap_then :: "('a, 'e) outcome \<Rightarrow> ('a \<Rightarrow> bool) \<Rightarrow> bool" where
  "unwrap_then r test = (case r of Ok a \<Rightarrow> test a | _ \<Rightarrow> False)"

definition is_io :: "('a, ConnError) outcome \<Rightarrow> bool" where
  "is_io r = (case r of Err e \<Rightarrow> is_io_error e | _ \<Rightarrow> False)"

text \<open>\<^verbatim>\<open>while !driver.poll().unwrap() {}\<close>.\<close>

partial_function (option) until_true :: "('d \<Rightarrow> (bool, 'e) outcome \<times> 'd) \<Rightarrow> 'd \<Rightarrow> 'd option" where
  "until_true pl d =
     (case pl d of (r, d) \<Rightarrow>
        (case r of Ok b \<Rightarrow> if b then Some d else until_true pl d | Err _ \<Rightarrow> None | Panic \<Rightarrow> None))"

definition until_established :: "('d \<Rightarrow> (bool, 'e) outcome \<times> 'd) \<Rightarrow> 'd \<Rightarrow> ('d \<Rightarrow> bool) \<Rightarrow> bool" where
  "until_established pl d test = (case until_true pl d of Some d \<Rightarrow> test d | None \<Rightarrow> False)"

text \<open>The loop of ten polls, which leaves when the connection is established and panics on an error.\<close>

fun established_within :: "nat \<Rightarrow> ('d \<Rightarrow> (bool, 'e) outcome \<times> 'd) \<Rightarrow> 'd \<Rightarrow> ('d \<Rightarrow> bool) \<Rightarrow> bool" where
  "established_within 0 pl d test = False"
| "established_within (Suc n) pl d test =
     (case pl d of (Ok b, d) \<Rightarrow> if b then test d else established_within n pl d test | _ \<Rightarrow> False)"

text \<open>The loop of the tests with wrong credentials: whether it ends with an error.\<close>

partial_function (option) polls_to_error :: "('d \<Rightarrow> (bool, 'e) outcome \<times> 'd) \<Rightarrow> 'd \<Rightarrow> bool option" where
  "polls_to_error pl d =
     (case pl d of (r, d) \<Rightarrow>
        (case r of Ok b \<Rightarrow> if b then Some False else polls_to_error pl d | Err _ \<Rightarrow> Some True | Panic \<Rightarrow> None))"

declare until_true.simps [code] polls_to_error.simps [code]

text \<open>A test awaits every future to its end; were it dropped, the test would not pass.\<close>

definition await :: "('a, 'e) outcome awaited \<times> 's \<Rightarrow> ('a, 'e) outcome \<times> 's" where
  "await x = (case x of (Completed r, s) \<Rightarrow> (r, s) | (Dropped, s) \<Rightarrow> (Panic, s))"

definition await_new :: "('a, 'e) outcome awaited \<Rightarrow> ('a, 'e) outcome" where
  "await_new x = (case x of Completed r \<Rightarrow> r | Dropped \<Rightarrow> Panic)"

lemma await_completed [simp]: "await (completed x) = x" "await_new (Completed r) = r"
  by (simp_all add: await_def completed_def await_new_def)

end
