(* ===== verification/Driver_Tests.thy ===== *)
theory Driver_Tests
  imports Driver_Assertions Connection_Tests Driver_Sync Mock_Transport
begin

text \<open>
  The unit tests of \<^verbatim>\<open>src/io/sync.rs\<close> (modules \<^verbatim>\<open>tests\<close> and \<^verbatim>\<open>plain_driver_tests\<close>), as truth values (see \<^verbatim>\<open>Driver_Assertions\<close>).
\<close>

section \<open>Fixtures\<close>

definition read_error_write :: "unit \<Rightarrow> bytes \<Rightarrow> (nat, 'k) outcome \<times> unit" where
  "read_error_write t buf = (Ok (length buf), t)"

definition read_error_impl :: "'k \<Rightarrow> ('k \<Rightarrow> nat) \<Rightarrow> (unit, 'k) transport_impl" where
  "read_error_impl broken_pipe kind =
     \<lparr>t_read = \<lambda>t buf. (Err broken_pipe, buf, t), t_write_all = write_all_of read_error_write, t_kind = kind\<rparr>"

definition make_established :: "('b, 'v) heapless \<Rightarrow> ('k \<Rightarrow> nat) \<Rightarrow> bytes option \<Rightarrow> (('v Connection, MockTransport) Driver \<Rightarrow> bool) \<Rightarrow> bool" where
  "make_established H kind pfx test =
     (let P = test_build H; T = mock_impl kind in
      (let peer = sub_greeting @ sub_ready @ (case pfx of Some p \<Rightarrow> sub_subscribe p | None \<Rightarrow> []) in
       unwrap_then (new_driver P T (new_mock peer)) (\<lambda>driver.
        until_established (poll P T) driver test)))"

section \<open>Tests\<close>

definition driver_sends_full_greeting_first :: "('b, 'v) heapless \<Rightarrow> 'k \<Rightarrow> ('k \<Rightarrow> nat) \<Rightarrow> bool" where
  "driver_sends_full_greeting_first H broken_pipe kind =
     (let P = test_build H; T = mock_impl kind in
      unwrap_then (new_driver P T (new_mock (sub_greeting @ sub_ready))) (\<lambda>driver.
       (let written = our_bytes (transport driver) in
        length written = 64 \<and> at_is written 0 0xFF \<and> at_is written 9 0x7F \<and> at_is written 10 0x03)))"

definition driver_respects_deadlock_rule :: "('b, 'v) heapless \<Rightarrow> 'k \<Rightarrow> ('k \<Rightarrow> nat) \<Rightarrow> bool" where
  "driver_respects_deadlock_rule H broken_pipe kind =
     (let P = test_build H; T = mock_impl kind in
      unwrap_then (new_driver P T (new_mock (sub_greeting @ sub_ready))) (\<lambda>driver.
       established_within 10 (poll P T) driver (\<lambda>driver.
        state (conn driver) = Established \<and>
        (let written = our_bytes (transport driver) in
         64 + 27 \<le> length written \<and> range_is written 64 (64 + 27) pub_ready))))"

definition driver_publish_returns_zero_without_subscription :: "('b, 'v) heapless \<Rightarrow> 'k \<Rightarrow> ('k \<Rightarrow> nat) \<Rightarrow> bool" where
  "driver_publish_returns_zero_without_subscription H broken_pipe kind =
     (let P = test_build H; T = mock_impl kind in
      make_established H kind None (\<lambda>driver.
       fst (driver_publish P T driver (ascii ''topic'') (ascii ''payload'')) = Ok 0))"

definition driver_publish_writes_correct_wire_bytes :: "('b, 'v) heapless \<Rightarrow> 'k \<Rightarrow> ('k \<Rightarrow> nat) \<Rightarrow> bool" where
  "driver_publish_writes_correct_wire_bytes H broken_pipe kind =
     (let P = test_build H; T = mock_impl kind in
      make_established H kind (Some (ascii ''foo'')) (\<lambda>driver.
       (case driver_publish P T driver (ascii ''foo'') (ascii ''bar'') of (r, driver) \<Rightarrow> r = Ok 10 \<and>
        drop 91 (our_bytes (transport driver)) = ([0x01, 0x03] @ ascii ''foo'' @ [0x00, 0x03] @ ascii ''bar''))))"

definition driver_publish_filtered_by_prefix :: "('b, 'v) heapless \<Rightarrow> 'k \<Rightarrow> ('k \<Rightarrow> nat) \<Rightarrow> bool" where
  "driver_publish_filtered_by_prefix H broken_pipe kind =
     (let P = test_build H; T = mock_impl kind in
      make_established H kind (Some (ascii ''foo'')) (\<lambda>driver.
       (case driver_publish P T driver (ascii ''bar'') (ascii ''payload'') of (r, driver) \<Rightarrow> r = Ok 0 \<and>
        positive (fst (driver_publish P T driver (ascii ''fooX'') (ascii ''payload''))))))"

definition driver_poll_eof_returns_error :: "('b, 'v) heapless \<Rightarrow> 'k \<Rightarrow> ('k \<Rightarrow> nat) \<Rightarrow> bool" where
  "driver_poll_eof_returns_error H broken_pipe kind =
     (let P = test_build H; T = mock_impl kind in
      unwrap_then (new_driver P T (new_mock [])) (\<lambda>driver.
       fst (poll P T driver) = Err (IoError 0)))"

definition driver_poll_transport_read_error_propagates :: "('b, 'v) heapless \<Rightarrow> 'k \<Rightarrow> ('k \<Rightarrow> nat) \<Rightarrow> bool" where
  "driver_poll_transport_read_error_propagates H broken_pipe kind =
     (let P = test_build H; T = read_error_impl broken_pipe kind in
      unwrap_then (new_driver P T ()) (\<lambda>driver.
       is_io (fst (poll P T driver))))"

definition driver_ping_triggers_pong_response :: "('b, 'v) heapless \<Rightarrow> 'k \<Rightarrow> ('k \<Rightarrow> nat) \<Rightarrow> bool" where
  "driver_ping_triggers_pong_response H broken_pipe kind =
     (let P = test_build H; T = mock_impl kind in
      unwrap_then (new_driver P T (new_mock (sub_greeting @ sub_ready @ ping_hi))) (\<lambda>driver.
       until_established (poll P T) driver (\<lambda>driver.
        (let written = our_bytes (transport driver); pong_frame = take 9 (drop 91 written) in
         100 \<le> length written \<and> at_is pong_frame 0 0x04 \<and> at_is pong_frame 1 7 \<and>
         range_is pong_frame 2 7 (0x04 # ascii ''PONG'') \<and> range_is pong_frame 7 9 (ascii ''hi'')))))"

definition driver_feed_error_writes_error_frame_and_returns_err :: "('b, 'v) heapless \<Rightarrow> 'k \<Rightarrow> ('k \<Rightarrow> nat) \<Rightarrow> bool" where
  "driver_feed_error_writes_error_frame_and_returns_err H broken_pipe kind =
     (let P = test_build H; T = mock_impl kind in
      unwrap_then (new_driver P T (new_mock (sub_greeting @ push_ready))) (\<lambda>driver.
       (case poll P T driver of (r, driver) \<Rightarrow> r = Ok False \<and>
        (case poll P T driver of (r, driver) \<Rightarrow> is_err r \<and>
         (let written = our_bytes (transport driver) in
          91 < length written \<and> at_is written 91 0x04)))))"

definition driver_chunked_read_completes_handshake :: "('b, 'v) heapless \<Rightarrow> 'k \<Rightarrow> ('k \<Rightarrow> nat) \<Rightarrow> bool" where
  "driver_chunked_read_completes_handshake H broken_pipe kind =
     (let P = test_build H; T = chunked_impl kind in
      unwrap_then (new_driver P T (new_chunked (sub_greeting @ sub_ready))) (\<lambda>driver.
       until_established (poll P T) driver (\<lambda>driver.
        state (conn driver) = Established)))"

definition driver_new_greeting_write_error :: "('b, 'v) heapless \<Rightarrow> 'k \<Rightarrow> ('k \<Rightarrow> nat) \<Rightarrow> bool" where
  "driver_new_greeting_write_error H broken_pipe kind =
     (let P = test_build H; T = write_fail_impl broken_pipe kind in
      is_io (new_driver P T (new_write_fail [] 0)))"

definition driver_publish_write_error :: "('b, 'v) heapless \<Rightarrow> 'k \<Rightarrow> ('k \<Rightarrow> nat) \<Rightarrow> bool" where
  "driver_publish_write_error H broken_pipe kind =
     (let P = test_build H; T = write_fail_impl broken_pipe kind in
      unwrap_then (new_driver P T (new_write_fail (sub_greeting @ sub_ready @ sub_subscribe (ascii ''foo'')) 3)) (\<lambda>driver.
       until_established (poll P T) driver (\<lambda>driver.
        is_io (fst (driver_publish P T driver (ascii ''foo'') (ascii ''bar''))))))"

definition driver_drain_buffer_write_rest_error :: "('b, 'v) heapless \<Rightarrow> 'k \<Rightarrow> ('k \<Rightarrow> nat) \<Rightarrow> bool" where
  "driver_drain_buffer_write_rest_error H broken_pipe kind =
     (let P = test_build H; T = write_fail_impl broken_pipe kind in
      unwrap_then (new_driver P T (new_write_fail (sub_greeting @ sub_ready) 1)) (\<lambda>driver.
       is_io (fst (poll P T driver))))"

section \<open>PLAIN\<close>

definition make_plain_established :: "('b, 'v) heapless \<Rightarrow> ('k \<Rightarrow> nat) \<Rightarrow> bytes option \<Rightarrow> (('v Connection, MockTransport) Driver \<Rightarrow> bool) \<Rightarrow> bool" where
  "make_plain_established H kind pfx test =
     (let P = test_build H; T = mock_impl kind in
      (let peer = plain_sub_greeting @ plain_hello (ascii ''user'') (ascii ''pass'') @ sub_ready @ (case pfx of Some p \<Rightarrow> sub_subscribe p | None \<Rightarrow> []) in
       unwrap_then (new_plain_driver P T (new_mock peer) accept_all) (\<lambda>driver.
        until_established (poll P T) driver test)))"

definition plain_driver_writes_full_greeting_on_construction :: "('b, 'v) heapless \<Rightarrow> 'k \<Rightarrow> ('k \<Rightarrow> nat) \<Rightarrow> bool" where
  "plain_driver_writes_full_greeting_on_construction H broken_pipe kind =
     (let P = test_build H; T = mock_impl kind in
      unwrap_then (new_plain_driver P T (new_mock (plain_sub_greeting @ plain_hello (ascii ''u'') (ascii ''p'') @ sub_ready)) accept_all) (\<lambda>driver.
       (let written = our_bytes (transport driver) in
        length written = 64 \<and> at_is written 0 0xFF \<and> at_is written 9 0x7F \<and> at_is written 10 0x03)))"

definition plain_driver_completes_handshake :: "('b, 'v) heapless \<Rightarrow> 'k \<Rightarrow> ('k \<Rightarrow> nat) \<Rightarrow> bool" where
  "plain_driver_completes_handshake H broken_pipe kind =
     (let P = test_build H; T = mock_impl kind in
      make_plain_established H kind None (\<lambda>driver.
       state (conn driver) = Established))"

definition plain_driver_emits_welcome_then_ready :: "('b, 'v) heapless \<Rightarrow> 'k \<Rightarrow> ('k \<Rightarrow> nat) \<Rightarrow> bool" where
  "plain_driver_emits_welcome_then_ready H broken_pipe kind =
     (let P = test_build H; T = mock_impl kind in
      make_plain_established H kind None (\<lambda>driver.
       (let written = our_bytes (transport driver) in
        101 \<le> length written \<and> range_is written 12 17 (ascii ''PLAIN'') \<and> at_is written 32 0x01 \<and>
        at_is written 64 0x04 \<and> at_is written 65 0x08 \<and> at_is written 66 0x07 \<and>
        range_is written 67 74 (ascii ''WELCOME'') \<and> range_is written 74 101 pub_ready)))"

definition plain_driver_publish_returns_zero_without_subscription :: "('b, 'v) heapless \<Rightarrow> 'k \<Rightarrow> ('k \<Rightarrow> nat) \<Rightarrow> bool" where
  "plain_driver_publish_returns_zero_without_subscription H broken_pipe kind =
     (let P = test_build H; T = mock_impl kind in
      make_plain_established H kind None (\<lambda>driver.
       fst (driver_publish P T driver (ascii ''topic'') (ascii ''payload'')) = Ok 0))"

definition plain_driver_publish_writes_correct_wire_bytes :: "('b, 'v) heapless \<Rightarrow> 'k \<Rightarrow> ('k \<Rightarrow> nat) \<Rightarrow> bool" where
  "plain_driver_publish_writes_correct_wire_bytes H broken_pipe kind =
     (let P = test_build H; T = mock_impl kind in
      make_plain_established H kind (Some (ascii ''foo'')) (\<lambda>driver.
       (case driver_publish P T driver (ascii ''foo'') (ascii ''bar'') of (r, driver) \<Rightarrow> r = Ok 10 \<and>
        drop 101 (our_bytes (transport driver)) = ([0x01, 0x03] @ ascii ''foo'' @ [0x00, 0x03] @ ascii ''bar''))))"

definition plain_driver_rejects_bad_credentials :: "('b, 'v) heapless \<Rightarrow> 'k \<Rightarrow> ('k \<Rightarrow> nat) \<Rightarrow> bool" where
  "plain_driver_rejects_bad_credentials H broken_pipe kind =
     (let P = test_build H; T = chunked_impl kind in
      unwrap_then (new_plain_driver P T (new_chunked (plain_sub_greeting @ plain_hello (ascii ''wrong'') (ascii ''creds''))) reject_all) (\<lambda>driver.
       polls_to_error (poll P T) driver = Some True))"

definition plain_driver_new_plain_greeting_write_error :: "('b, 'v) heapless \<Rightarrow> 'k \<Rightarrow> ('k \<Rightarrow> nat) \<Rightarrow> bool" where
  "plain_driver_new_plain_greeting_write_error H broken_pipe kind =
     (let P = test_build H; T = write_fail_impl broken_pipe kind in
      is_io (new_plain_driver P T (new_write_fail [] 0) accept_all))"

section \<open>Running the tests\<close>

text \<open>
  All but the tests in which the handshake arrives byte by byte (\<^verbatim>\<open>driver_chunked_read_completes_handshake\<close>, \<^verbatim>\<open>plain_driver_rejects_bad_credentials\<close>): they poll too often for the evaluation in
  the kernel to be practical.
\<close>

lemma driver_tests_pass_1:
  "driver_sends_full_greeting_first list_heapless (32 :: nat) id \<and>
   driver_respects_deadlock_rule list_heapless (32 :: nat) id \<and>
   driver_publish_returns_zero_without_subscription list_heapless (32 :: nat) id \<and>
   driver_publish_writes_correct_wire_bytes list_heapless (32 :: nat) id \<and>
   driver_publish_filtered_by_prefix list_heapless (32 :: nat) id"
  by code_simp

lemma driver_tests_pass_2:
  "driver_poll_eof_returns_error list_heapless (32 :: nat) id \<and>
   driver_poll_transport_read_error_propagates list_heapless (32 :: nat) id \<and>
   driver_ping_triggers_pong_response list_heapless (32 :: nat) id \<and>
   driver_feed_error_writes_error_frame_and_returns_err list_heapless (32 :: nat) id \<and>
   driver_new_greeting_write_error list_heapless (32 :: nat) id"
  by code_simp

lemma driver_tests_pass_3:
  "driver_publish_write_error list_heapless (32 :: nat) id \<and>
   driver_drain_buffer_write_rest_error list_heapless (32 :: nat) id"
  by code_simp

lemma driver_tests_plain_pass_1:
  "plain_driver_writes_full_greeting_on_construction list_heapless (32 :: nat) id \<and>
   plain_driver_completes_handshake list_heapless (32 :: nat) id \<and>
   plain_driver_emits_welcome_then_ready list_heapless (32 :: nat) id \<and>
   plain_driver_publish_returns_zero_without_subscription list_heapless (32 :: nat) id \<and>
   plain_driver_publish_writes_correct_wire_bytes list_heapless (32 :: nat) id"
  by code_simp

lemma driver_tests_plain_pass_2:
  "plain_driver_new_plain_greeting_write_error list_heapless (32 :: nat) id"
  by code_simp

end
