(* ===== verification/Radio_Driver_Tests.thy ===== *)
theory Radio_Driver_Tests
  imports Driver_Assertions Radio_Connection_Tests Radio_Driver_Sync Mock_Transport
begin

text \<open>
  The unit tests of \<^verbatim>\<open>src/io/sync.rs\<close> (module \<^verbatim>\<open>radio_tests\<close>), as truth values (see \<^verbatim>\<open>Driver_Assertions\<close>).
\<close>

section \<open>Fixtures\<close>

definition read_error_write :: "unit \<Rightarrow> bytes \<Rightarrow> (nat, 'k) outcome \<times> unit" where
  "read_error_write t buf = (Ok (length buf), t)"

definition read_error_impl :: "'k \<Rightarrow> ('k \<Rightarrow> nat) \<Rightarrow> (unit, 'k) transport_impl" where
  "read_error_impl broken_pipe kind =
     \<lparr>t_read = \<lambda>t buf. (Err broken_pipe, buf, t), t_write_all = write_all_of read_error_write, t_kind = kind\<rparr>"

definition make_established :: "('b, 'v) heapless \<Rightarrow> ('k \<Rightarrow> nat) \<Rightarrow> bytes option \<Rightarrow> (('v RadioConnection, MockTransport) Driver \<Rightarrow> bool) \<Rightarrow> bool" where
  "make_established H kind grp test =
     (let P = radio_test_build H; T = mock_impl kind in
      (let peer = dish_greeting @ dish_ready @ (case grp of Some p \<Rightarrow> dish_join p | None \<Rightarrow> []) in
       unwrap_then (new_radio_driver P T (new_mock peer)) (\<lambda>driver.
        until_established (radio_poll P T) driver test)))"

section \<open>Tests\<close>

definition radio_driver_sends_full_greeting_first :: "('b, 'v) heapless \<Rightarrow> 'k \<Rightarrow> ('k \<Rightarrow> nat) \<Rightarrow> bool" where
  "radio_driver_sends_full_greeting_first H broken_pipe kind =
     (let P = radio_test_build H; T = mock_impl kind in
      unwrap_then (new_radio_driver P T (new_mock (dish_greeting @ dish_ready))) (\<lambda>driver.
       (let written = our_bytes (transport driver) in
        length written = 64 \<and> at_is written 0 0xFF \<and> at_is written 9 0x7F \<and> at_is written 10 0x03)))"

definition radio_driver_respects_deadlock_rule :: "('b, 'v) heapless \<Rightarrow> 'k \<Rightarrow> ('k \<Rightarrow> nat) \<Rightarrow> bool" where
  "radio_driver_respects_deadlock_rule H broken_pipe kind =
     (let P = radio_test_build H; T = mock_impl kind in
      unwrap_then (new_radio_driver P T (new_mock (dish_greeting @ dish_ready))) (\<lambda>driver.
       established_within 10 (radio_poll P T) driver (\<lambda>driver.
        state (conn driver) = Established \<and>
        (let written = our_bytes (transport driver) in
         64 + 29 \<le> length written \<and> range_is written 64 (64 + 29) radio_ready))))"

definition radio_driver_publish_returns_zero_without_membership :: "('b, 'v) heapless \<Rightarrow> 'k \<Rightarrow> ('k \<Rightarrow> nat) \<Rightarrow> bool" where
  "radio_driver_publish_returns_zero_without_membership H broken_pipe kind =
     (let P = radio_test_build H; T = mock_impl kind in
      make_established H kind None (\<lambda>driver.
       fst (radio_driver_publish P T driver (ascii ''topic'') (ascii ''payload'')) = Ok 0))"

definition radio_driver_publish_writes_correct_wire_bytes :: "('b, 'v) heapless \<Rightarrow> 'k \<Rightarrow> ('k \<Rightarrow> nat) \<Rightarrow> bool" where
  "radio_driver_publish_writes_correct_wire_bytes H broken_pipe kind =
     (let P = radio_test_build H; T = mock_impl kind in
      make_established H kind (Some (ascii ''foo'')) (\<lambda>driver.
       (case radio_driver_publish P T driver (ascii ''foo'') (ascii ''bar'') of (r, driver) \<Rightarrow> r = Ok 10 \<and>
        drop 93 (our_bytes (transport driver)) = ([0x01, 0x03] @ ascii ''foo'' @ [0x00, 0x03] @ ascii ''bar''))))"

definition radio_driver_publish_requires_exact_match :: "('b, 'v) heapless \<Rightarrow> 'k \<Rightarrow> ('k \<Rightarrow> nat) \<Rightarrow> bool" where
  "radio_driver_publish_requires_exact_match H broken_pipe kind =
     (let P = radio_test_build H; T = mock_impl kind in
      make_established H kind (Some (ascii ''foo'')) (\<lambda>driver.
       (case radio_driver_publish P T driver (ascii ''foobar'') (ascii ''payload'') of (r, driver) \<Rightarrow> r = Ok 0 \<and>
        positive (fst (radio_driver_publish P T driver (ascii ''foo'') (ascii ''payload''))))))"

definition radio_driver_poll_eof_returns_error :: "('b, 'v) heapless \<Rightarrow> 'k \<Rightarrow> ('k \<Rightarrow> nat) \<Rightarrow> bool" where
  "radio_driver_poll_eof_returns_error H broken_pipe kind =
     (let P = radio_test_build H; T = mock_impl kind in
      unwrap_then (new_radio_driver P T (new_mock [])) (\<lambda>driver.
       is_err (fst (radio_poll P T driver))))"

definition radio_driver_poll_transport_read_error_propagates :: "('b, 'v) heapless \<Rightarrow> 'k \<Rightarrow> ('k \<Rightarrow> nat) \<Rightarrow> bool" where
  "radio_driver_poll_transport_read_error_propagates H broken_pipe kind =
     (let P = radio_test_build H; T = read_error_impl broken_pipe kind in
      unwrap_then (new_radio_driver P T ()) (\<lambda>driver.
       is_err (fst (radio_poll P T driver))))"

definition radio_driver_ping_triggers_pong_response :: "('b, 'v) heapless \<Rightarrow> 'k \<Rightarrow> ('k \<Rightarrow> nat) \<Rightarrow> bool" where
  "radio_driver_ping_triggers_pong_response H broken_pipe kind =
     (let P = radio_test_build H; T = mock_impl kind in
      unwrap_then (new_radio_driver P T (new_mock (dish_greeting @ dish_ready @ ping_hi))) (\<lambda>driver.
       until_established (radio_poll P T) driver (\<lambda>driver.
        (let written = our_bytes (transport driver); pong_frame = take 9 (drop 93 written) in
         102 \<le> length written \<and> at_is pong_frame 0 0x04 \<and> at_is pong_frame 1 7 \<and>
         range_is pong_frame 2 7 (0x04 # ascii ''PONG'') \<and> range_is pong_frame 7 9 (ascii ''hi'')))))"

definition radio_driver_feed_error_writes_error_frame_and_returns_err :: "('b, 'v) heapless \<Rightarrow> 'k \<Rightarrow> ('k \<Rightarrow> nat) \<Rightarrow> bool" where
  "radio_driver_feed_error_writes_error_frame_and_returns_err H broken_pipe kind =
     (let P = radio_test_build H; T = mock_impl kind in
      unwrap_then (new_radio_driver P T (new_mock (dish_greeting @ sub_ready))) (\<lambda>driver.
       (case radio_poll P T driver of (r, driver) \<Rightarrow> r = Ok False \<and>
        (case radio_poll P T driver of (r, driver) \<Rightarrow> is_err r \<and>
         (let written = our_bytes (transport driver) in
          93 < length written \<and> at_is written 93 0x04)))))"

definition radio_driver_chunked_read_completes_handshake :: "('b, 'v) heapless \<Rightarrow> 'k \<Rightarrow> ('k \<Rightarrow> nat) \<Rightarrow> bool" where
  "radio_driver_chunked_read_completes_handshake H broken_pipe kind =
     (let P = radio_test_build H; T = chunked_impl kind in
      unwrap_then (new_radio_driver P T (new_chunked (dish_greeting @ dish_ready))) (\<lambda>driver.
       until_established (radio_poll P T) driver (\<lambda>driver.
        state (conn driver) = Established)))"

definition radio_driver_new_greeting_write_error :: "('b, 'v) heapless \<Rightarrow> 'k \<Rightarrow> ('k \<Rightarrow> nat) \<Rightarrow> bool" where
  "radio_driver_new_greeting_write_error H broken_pipe kind =
     (let P = radio_test_build H; T = write_fail_impl broken_pipe kind in
      is_err (new_radio_driver P T (new_write_fail [] 0)))"

definition radio_driver_publish_write_error :: "('b, 'v) heapless \<Rightarrow> 'k \<Rightarrow> ('k \<Rightarrow> nat) \<Rightarrow> bool" where
  "radio_driver_publish_write_error H broken_pipe kind =
     (let P = radio_test_build H; T = write_fail_impl broken_pipe kind in
      unwrap_then (new_radio_driver P T (new_write_fail (dish_greeting @ dish_ready @ dish_join (ascii ''foo'')) 3)) (\<lambda>driver.
       until_established (radio_poll P T) driver (\<lambda>driver.
        is_io (fst (radio_driver_publish P T driver (ascii ''foo'') (ascii ''bar''))))))"

definition radio_driver_drain_buffer_write_rest_error :: "('b, 'v) heapless \<Rightarrow> 'k \<Rightarrow> ('k \<Rightarrow> nat) \<Rightarrow> bool" where
  "radio_driver_drain_buffer_write_rest_error H broken_pipe kind =
     (let P = radio_test_build H; T = write_fail_impl broken_pipe kind in
      unwrap_then (new_radio_driver P T (new_write_fail (dish_greeting @ dish_ready) 1)) (\<lambda>driver.
       is_err (fst (radio_poll P T driver))))"

section \<open>Running the tests\<close>

text \<open>
  All but the tests in which the handshake arrives byte by byte (\<^verbatim>\<open>radio_driver_chunked_read_completes_handshake\<close>): they poll too often for the evaluation in
  the kernel to be practical.
\<close>

lemma radio_driver_tests_pass_1:
  "radio_driver_sends_full_greeting_first list_heapless (32 :: nat) id \<and>
   radio_driver_respects_deadlock_rule list_heapless (32 :: nat) id \<and>
   radio_driver_publish_returns_zero_without_membership list_heapless (32 :: nat) id \<and>
   radio_driver_publish_writes_correct_wire_bytes list_heapless (32 :: nat) id \<and>
   radio_driver_publish_requires_exact_match list_heapless (32 :: nat) id"
  by code_simp

lemma radio_driver_tests_pass_2:
  "radio_driver_poll_eof_returns_error list_heapless (32 :: nat) id \<and>
   radio_driver_poll_transport_read_error_propagates list_heapless (32 :: nat) id \<and>
   radio_driver_ping_triggers_pong_response list_heapless (32 :: nat) id \<and>
   radio_driver_feed_error_writes_error_frame_and_returns_err list_heapless (32 :: nat) id \<and>
   radio_driver_new_greeting_write_error list_heapless (32 :: nat) id"
  by code_simp

lemma radio_driver_tests_pass_3:
  "radio_driver_publish_write_error list_heapless (32 :: nat) id \<and>
   radio_driver_drain_buffer_write_rest_error list_heapless (32 :: nat) id"
  by code_simp

end
