(* ===== verification/Async_Driver_Tests.thy ===== *)
theory Async_Driver_Tests
  imports Driver_Assertions Driver_Tests Driver_Run Driver_Async Mock_Transport
begin

text \<open>
  The unit tests of \<^verbatim>\<open>src/io/async.rs\<close> (modules \<^verbatim>\<open>tests\<close> and \<^verbatim>\<open>plain_driver_tests\<close>), as truth values (see \<^verbatim>\<open>Driver_Assertions\<close>).
\<close>

section \<open>Fixtures\<close>

definition async_read_error_write :: "unit \<Rightarrow> bytes \<Rightarrow> (nat, 'k) outcome awaited \<times> unit" where
  "async_read_error_write t buf = (Completed (Ok (length buf)), t)"

definition async_read_error_impl :: "'k \<Rightarrow> ('k \<Rightarrow> nat) \<Rightarrow> (unit, 'k) async_impl" where
  "async_read_error_impl broken_pipe kind =
     \<lparr>a_read = \<lambda>t buf. (Completed (Err broken_pipe), buf, t),
      a_write_all = async_write_all_of async_read_error_write, a_kind = kind\<rparr>"

text \<open>The transport that the module defines for itself has the fields of the blocking one.\<close>

definition async_chunked_read :: "ChunkedReadTransport \<Rightarrow> bytes \<Rightarrow> (nat, 'k) outcome awaited \<times> bytes \<times> ChunkedReadTransport" where
  "async_chunked_read t buf =
     (if length (c_peer_bytes t) \<le> c_peer_pos t then (Completed (Ok 0), buf, t)
      else if buf = [] then (Completed (Ok 0), buf, t)
      else (Completed (Ok 1), buf[0 := c_peer_bytes t ! c_peer_pos t], t\<lparr>c_peer_pos := c_peer_pos t + 1\<rparr>))"

definition async_chunked_write :: "ChunkedReadTransport \<Rightarrow> bytes \<Rightarrow> (nat, 'k) outcome awaited \<times> ChunkedReadTransport" where
  "async_chunked_write t buf = (Completed (Ok (length buf)), t)"

definition async_chunked_impl :: "('k \<Rightarrow> nat) \<Rightarrow> (ChunkedReadTransport, 'k) async_impl" where
  "async_chunked_impl kind =
     \<lparr>a_read = async_chunked_read, a_write_all = async_write_all_of async_chunked_write, a_kind = kind\<rparr>"

definition make_established :: "('b, 'v) heapless \<Rightarrow> ('k \<Rightarrow> nat) \<Rightarrow> bytes option \<Rightarrow> (('v Connection, AsyncMockTransport) Driver \<Rightarrow> bool) \<Rightarrow> bool" where
  "make_established H kind pfx test =
     (let P = test_build H; T = async_mock_impl kind in
      (let peer = sub_greeting @ sub_ready @ (case pfx of Some p \<Rightarrow> sub_subscribe p | None \<Rightarrow> []) in
       unwrap_then (await_new (async_new P T (async_new_mock peer))) (\<lambda>driver.
        until_established (\<lambda>d. await (async_poll P T d)) driver test)))"

section \<open>Tests\<close>

definition driver_sends_full_greeting_first :: "('b, 'v) heapless \<Rightarrow> 'k \<Rightarrow> ('k \<Rightarrow> nat) \<Rightarrow> bool" where
  "driver_sends_full_greeting_first H broken_pipe kind =
     (let P = test_build H; T = async_mock_impl kind in
      unwrap_then (await_new (async_new P T (async_new_mock (sub_greeting @ sub_ready)))) (\<lambda>driver.
       (let written = our_bytes (transport driver) in
        length written = 64 \<and> at_is written 0 0xFF \<and> at_is written 9 0x7F \<and> at_is written 10 0x03)))"

definition driver_respects_deadlock_rule :: "('b, 'v) heapless \<Rightarrow> 'k \<Rightarrow> ('k \<Rightarrow> nat) \<Rightarrow> bool" where
  "driver_respects_deadlock_rule H broken_pipe kind =
     (let P = test_build H; T = async_mock_impl kind in
      unwrap_then (await_new (async_new P T (async_new_mock (sub_greeting @ sub_ready)))) (\<lambda>driver.
       established_within 10 (\<lambda>d. await (async_poll P T d)) driver (\<lambda>driver.
        state (conn driver) = Established \<and>
        (let written = our_bytes (transport driver) in
         64 + 27 \<le> length written \<and> range_is written 64 (64 + 27) pub_ready))))"

definition driver_publish_returns_zero_without_subscription :: "('b, 'v) heapless \<Rightarrow> 'k \<Rightarrow> ('k \<Rightarrow> nat) \<Rightarrow> bool" where
  "driver_publish_returns_zero_without_subscription H broken_pipe kind =
     (let P = test_build H; T = async_mock_impl kind in
      make_established H kind None (\<lambda>driver.
       fst (await (async_publish P T driver (ascii ''topic'') (ascii ''payload''))) = Ok 0))"

definition driver_publish_writes_correct_wire_bytes :: "('b, 'v) heapless \<Rightarrow> 'k \<Rightarrow> ('k \<Rightarrow> nat) \<Rightarrow> bool" where
  "driver_publish_writes_correct_wire_bytes H broken_pipe kind =
     (let P = test_build H; T = async_mock_impl kind in
      make_established H kind (Some (ascii ''foo'')) (\<lambda>driver.
       (case await (async_publish P T driver (ascii ''foo'') (ascii ''bar'')) of (r, driver) \<Rightarrow> r = Ok 10 \<and>
        drop 91 (our_bytes (transport driver)) = ([0x01, 0x03] @ ascii ''foo'' @ [0x00, 0x03] @ ascii ''bar''))))"

definition driver_publish_filtered_by_prefix :: "('b, 'v) heapless \<Rightarrow> 'k \<Rightarrow> ('k \<Rightarrow> nat) \<Rightarrow> bool" where
  "driver_publish_filtered_by_prefix H broken_pipe kind =
     (let P = test_build H; T = async_mock_impl kind in
      make_established H kind (Some (ascii ''foo'')) (\<lambda>driver.
       (case await (async_publish P T driver (ascii ''bar'') (ascii ''payload'')) of (r, driver) \<Rightarrow> r = Ok 0 \<and>
        positive (fst (await (async_publish P T driver (ascii ''fooX'') (ascii ''payload'')))))))"

definition driver_poll_eof_returns_error :: "('b, 'v) heapless \<Rightarrow> 'k \<Rightarrow> ('k \<Rightarrow> nat) \<Rightarrow> bool" where
  "driver_poll_eof_returns_error H broken_pipe kind =
     (let P = test_build H; T = async_mock_impl kind in
      unwrap_then (await_new (async_new P T (async_new_mock []))) (\<lambda>driver.
       fst (await (async_poll P T driver)) = Err (IoError 0)))"

definition driver_poll_transport_read_error_propagates :: "('b, 'v) heapless \<Rightarrow> 'k \<Rightarrow> ('k \<Rightarrow> nat) \<Rightarrow> bool" where
  "driver_poll_transport_read_error_propagates H broken_pipe kind =
     (let P = test_build H; T = async_read_error_impl broken_pipe kind in
      unwrap_then (await_new (async_new P T ())) (\<lambda>driver.
       is_io (fst (await (async_poll P T driver)))))"

definition driver_ping_triggers_pong_response :: "('b, 'v) heapless \<Rightarrow> 'k \<Rightarrow> ('k \<Rightarrow> nat) \<Rightarrow> bool" where
  "driver_ping_triggers_pong_response H broken_pipe kind =
     (let P = test_build H; T = async_mock_impl kind in
      unwrap_then (await_new (async_new P T (async_new_mock (sub_greeting @ sub_ready @ ping_hi)))) (\<lambda>driver.
       until_established (\<lambda>d. await (async_poll P T d)) driver (\<lambda>driver.
        (let written = our_bytes (transport driver); pong_frame = take 9 (drop 91 written) in
         100 \<le> length written \<and> at_is pong_frame 0 0x04 \<and> at_is pong_frame 1 7 \<and>
         range_is pong_frame 2 7 (0x04 # ascii ''PONG'') \<and> range_is pong_frame 7 9 (ascii ''hi'')))))"

definition driver_feed_error_writes_error_frame_and_returns_err :: "('b, 'v) heapless \<Rightarrow> 'k \<Rightarrow> ('k \<Rightarrow> nat) \<Rightarrow> bool" where
  "driver_feed_error_writes_error_frame_and_returns_err H broken_pipe kind =
     (let P = test_build H; T = async_mock_impl kind in
      unwrap_then (await_new (async_new P T (async_new_mock (sub_greeting @ push_ready)))) (\<lambda>driver.
       (case await (async_poll P T driver) of (r, driver) \<Rightarrow> r = Ok False \<and>
        (case await (async_poll P T driver) of (r, driver) \<Rightarrow> is_err r \<and>
         (let written = our_bytes (transport driver) in
          91 < length written \<and> at_is written 91 0x04)))))"

definition driver_chunked_read_completes_handshake :: "('b, 'v) heapless \<Rightarrow> 'k \<Rightarrow> ('k \<Rightarrow> nat) \<Rightarrow> bool" where
  "driver_chunked_read_completes_handshake H broken_pipe kind =
     (let P = test_build H; T = async_chunked_impl kind in
      unwrap_then (await_new (async_new P T (new_chunked (sub_greeting @ sub_ready)))) (\<lambda>driver.
       until_established (\<lambda>d. await (async_poll P T d)) driver (\<lambda>driver.
        state (conn driver) = Established)))"

section \<open>PLAIN\<close>

definition make_plain_established :: "('b, 'v) heapless \<Rightarrow> ('k \<Rightarrow> nat) \<Rightarrow> bytes option \<Rightarrow> (('v Connection, AsyncMockTransport) Driver \<Rightarrow> bool) \<Rightarrow> bool" where
  "make_plain_established H kind pfx test =
     (let P = test_build H; T = async_mock_impl kind in
      (let peer = plain_sub_greeting @ plain_hello (ascii ''user'') (ascii ''pass'') @ sub_ready @ (case pfx of Some p \<Rightarrow> sub_subscribe p | None \<Rightarrow> []) in
       unwrap_then (await_new (async_new_plain P T (async_new_mock peer) accept_all)) (\<lambda>driver.
        until_established (\<lambda>d. await (async_poll P T d)) driver test)))"

definition plain_driver_writes_full_greeting_on_construction :: "('b, 'v) heapless \<Rightarrow> 'k \<Rightarrow> ('k \<Rightarrow> nat) \<Rightarrow> bool" where
  "plain_driver_writes_full_greeting_on_construction H broken_pipe kind =
     (let P = test_build H; T = async_mock_impl kind in
      unwrap_then (await_new (async_new_plain P T (async_new_mock (plain_sub_greeting @ plain_hello (ascii ''u'') (ascii ''p'') @ sub_ready)) accept_all)) (\<lambda>driver.
       (let written = our_bytes (transport driver) in
        length written = 64 \<and> at_is written 0 0xFF \<and> at_is written 9 0x7F \<and> at_is written 10 0x03)))"

definition plain_driver_completes_handshake :: "('b, 'v) heapless \<Rightarrow> 'k \<Rightarrow> ('k \<Rightarrow> nat) \<Rightarrow> bool" where
  "plain_driver_completes_handshake H broken_pipe kind =
     (let P = test_build H; T = async_mock_impl kind in
      make_plain_established H kind None (\<lambda>driver.
       state (conn driver) = Established))"

definition plain_driver_emits_welcome_then_ready :: "('b, 'v) heapless \<Rightarrow> 'k \<Rightarrow> ('k \<Rightarrow> nat) \<Rightarrow> bool" where
  "plain_driver_emits_welcome_then_ready H broken_pipe kind =
     (let P = test_build H; T = async_mock_impl kind in
      make_plain_established H kind None (\<lambda>driver.
       (let written = our_bytes (transport driver) in
        101 \<le> length written \<and> range_is written 12 17 (ascii ''PLAIN'') \<and> at_is written 32 0x01 \<and>
        at_is written 64 0x04 \<and> at_is written 65 0x08 \<and> at_is written 66 0x07 \<and>
        range_is written 67 74 (ascii ''WELCOME'') \<and> range_is written 74 101 pub_ready)))"

definition plain_driver_publish_returns_zero_without_subscription :: "('b, 'v) heapless \<Rightarrow> 'k \<Rightarrow> ('k \<Rightarrow> nat) \<Rightarrow> bool" where
  "plain_driver_publish_returns_zero_without_subscription H broken_pipe kind =
     (let P = test_build H; T = async_mock_impl kind in
      make_plain_established H kind None (\<lambda>driver.
       fst (await (async_publish P T driver (ascii ''topic'') (ascii ''payload''))) = Ok 0))"

definition plain_driver_publish_writes_correct_wire_bytes :: "('b, 'v) heapless \<Rightarrow> 'k \<Rightarrow> ('k \<Rightarrow> nat) \<Rightarrow> bool" where
  "plain_driver_publish_writes_correct_wire_bytes H broken_pipe kind =
     (let P = test_build H; T = async_mock_impl kind in
      make_plain_established H kind (Some (ascii ''foo'')) (\<lambda>driver.
       (case await (async_publish P T driver (ascii ''foo'') (ascii ''bar'')) of (r, driver) \<Rightarrow> r = Ok 10 \<and>
        drop 101 (our_bytes (transport driver)) = ([0x01, 0x03] @ ascii ''foo'' @ [0x00, 0x03] @ ascii ''bar''))))"

definition plain_driver_rejects_bad_credentials :: "('b, 'v) heapless \<Rightarrow> 'k \<Rightarrow> ('k \<Rightarrow> nat) \<Rightarrow> bool" where
  "plain_driver_rejects_bad_credentials H broken_pipe kind =
     (let P = test_build H; T = async_mock_impl kind in
      unwrap_then (await_new (async_new_plain P T (async_new_mock (plain_sub_greeting @ plain_hello (ascii ''wrong'') (ascii ''creds''))) reject_all)) (\<lambda>driver.
       polls_to_error (\<lambda>d. await (async_poll P T d)) driver = Some True))"

section \<open>Running the tests\<close>

text \<open>
  The tests are those of the blocking driver, over transports that do the same, and so are their results; the one
  with wrong credentials has another transport there.
\<close>

lemma async_read_error_blocking: "blocking (async_read_error_impl broken_pipe kind) (read_error_impl broken_pipe kind)"
proof -
  have w: "async_write_all_of async_read_error_write t bs =
      (case write_all_of read_error_write t bs of (r, t) \<Rightarrow> (Completed r, t))" for t bs
    by (simp add: async_write_all_of.simps [of _ _ bs] write_all_of.simps [of _ _ bs] async_read_error_write_def
        read_error_write_def async_write_all_of.simps [of _ _ "[]"] write_all_of.simps [of _ _ "[]"])
  show ?thesis by (simp add: blocking_def async_read_error_impl_def read_error_impl_def w)
qed

lemma async_chunked_blocking: "blocking (async_chunked_impl kind) (chunked_impl kind)"
proof -
  have w: "async_write_all_of async_chunked_write t bs =
      (case write_all_of chunked_write t bs of (r, t) \<Rightarrow> (Completed r, t))" for t bs
    by (simp add: async_write_all_of.simps [of _ _ bs] write_all_of.simps [of _ _ bs] async_chunked_write_def
        chunked_write_def async_write_all_of.simps [of _ _ "[]"] write_all_of.simps [of _ _ "[]"])
  show ?thesis
    by (simp add: blocking_def async_chunked_impl_def chunked_impl_def async_chunked_read_def chunked_read_def w)
qed

lemmas async_test_blocking = async_blocking [OF async_mock_blocking] async_blocking [OF async_read_error_blocking]
  async_blocking [OF async_chunked_blocking]

lemma make_established_blocking:
  "make_established H kind pfx test = Driver_Tests.make_established H kind pfx test"
  "make_plain_established H kind pfx test = Driver_Tests.make_plain_established H kind pfx test"
  by (simp_all add: make_established_def Driver_Tests.make_established_def make_plain_established_def
      Driver_Tests.make_plain_established_def Let_def async_test_blocking async_new_mock_def new_mock_def)

lemma async_driver_tests_blocking:
  "driver_sends_full_greeting_first H broken_pipe kind = Driver_Tests.driver_sends_full_greeting_first H broken_pipe kind"
  "driver_respects_deadlock_rule H broken_pipe kind = Driver_Tests.driver_respects_deadlock_rule H broken_pipe kind"
  "driver_publish_returns_zero_without_subscription H broken_pipe kind = Driver_Tests.driver_publish_returns_zero_without_subscription H broken_pipe kind"
  "driver_publish_writes_correct_wire_bytes H broken_pipe kind = Driver_Tests.driver_publish_writes_correct_wire_bytes H broken_pipe kind"
  "driver_publish_filtered_by_prefix H broken_pipe kind = Driver_Tests.driver_publish_filtered_by_prefix H broken_pipe kind"
  "driver_poll_eof_returns_error H broken_pipe kind = Driver_Tests.driver_poll_eof_returns_error H broken_pipe kind"
  "driver_poll_transport_read_error_propagates H broken_pipe kind = Driver_Tests.driver_poll_transport_read_error_propagates H broken_pipe kind"
  "driver_ping_triggers_pong_response H broken_pipe kind = Driver_Tests.driver_ping_triggers_pong_response H broken_pipe kind"
  "driver_feed_error_writes_error_frame_and_returns_err H broken_pipe kind = Driver_Tests.driver_feed_error_writes_error_frame_and_returns_err H broken_pipe kind"
  "driver_chunked_read_completes_handshake H broken_pipe kind = Driver_Tests.driver_chunked_read_completes_handshake H broken_pipe kind"
  "plain_driver_writes_full_greeting_on_construction H broken_pipe kind = Driver_Tests.plain_driver_writes_full_greeting_on_construction H broken_pipe kind"
  "plain_driver_completes_handshake H broken_pipe kind = Driver_Tests.plain_driver_completes_handshake H broken_pipe kind"
  "plain_driver_emits_welcome_then_ready H broken_pipe kind = Driver_Tests.plain_driver_emits_welcome_then_ready H broken_pipe kind"
  "plain_driver_publish_returns_zero_without_subscription H broken_pipe kind = Driver_Tests.plain_driver_publish_returns_zero_without_subscription H broken_pipe kind"
  "plain_driver_publish_writes_correct_wire_bytes H broken_pipe kind = Driver_Tests.plain_driver_publish_writes_correct_wire_bytes H broken_pipe kind"
  by (simp_all add: Let_def async_test_blocking make_established_blocking async_new_mock_def new_mock_def
      driver_sends_full_greeting_first_def Driver_Tests.driver_sends_full_greeting_first_def
      driver_respects_deadlock_rule_def Driver_Tests.driver_respects_deadlock_rule_def
      driver_publish_returns_zero_without_subscription_def Driver_Tests.driver_publish_returns_zero_without_subscription_def
      driver_publish_writes_correct_wire_bytes_def Driver_Tests.driver_publish_writes_correct_wire_bytes_def
      driver_publish_filtered_by_prefix_def Driver_Tests.driver_publish_filtered_by_prefix_def
      driver_poll_eof_returns_error_def Driver_Tests.driver_poll_eof_returns_error_def
      driver_poll_transport_read_error_propagates_def Driver_Tests.driver_poll_transport_read_error_propagates_def
      driver_ping_triggers_pong_response_def Driver_Tests.driver_ping_triggers_pong_response_def
      driver_feed_error_writes_error_frame_and_returns_err_def Driver_Tests.driver_feed_error_writes_error_frame_and_returns_err_def
      driver_chunked_read_completes_handshake_def Driver_Tests.driver_chunked_read_completes_handshake_def
      plain_driver_writes_full_greeting_on_construction_def Driver_Tests.plain_driver_writes_full_greeting_on_construction_def
      plain_driver_completes_handshake_def Driver_Tests.plain_driver_completes_handshake_def
      plain_driver_emits_welcome_then_ready_def Driver_Tests.plain_driver_emits_welcome_then_ready_def
      plain_driver_publish_returns_zero_without_subscription_def Driver_Tests.plain_driver_publish_returns_zero_without_subscription_def
      plain_driver_publish_writes_correct_wire_bytes_def Driver_Tests.plain_driver_publish_writes_correct_wire_bytes_def)

lemma async_driver_tests_pass:
  "driver_sends_full_greeting_first list_heapless (32 :: nat) id \<and>
   driver_respects_deadlock_rule list_heapless (32 :: nat) id \<and>
   driver_publish_returns_zero_without_subscription list_heapless (32 :: nat) id \<and>
   driver_publish_writes_correct_wire_bytes list_heapless (32 :: nat) id \<and>
   driver_publish_filtered_by_prefix list_heapless (32 :: nat) id \<and>
   driver_poll_eof_returns_error list_heapless (32 :: nat) id \<and>
   driver_poll_transport_read_error_propagates list_heapless (32 :: nat) id \<and>
   driver_ping_triggers_pong_response list_heapless (32 :: nat) id \<and>
   driver_feed_error_writes_error_frame_and_returns_err list_heapless (32 :: nat) id \<and>
   plain_driver_writes_full_greeting_on_construction list_heapless (32 :: nat) id \<and>
   plain_driver_completes_handshake list_heapless (32 :: nat) id \<and>
   plain_driver_emits_welcome_then_ready list_heapless (32 :: nat) id \<and>
   plain_driver_publish_returns_zero_without_subscription list_heapless (32 :: nat) id \<and>
   plain_driver_publish_writes_correct_wire_bytes list_heapless (32 :: nat) id"
  by (simp only: async_driver_tests_blocking driver_tests_pass_1 driver_tests_pass_2 driver_tests_plain_pass_1
      simp_thms)

lemma async_driver_rejects_pass: "plain_driver_rejects_bad_credentials list_heapless (32 :: nat) id"
  by code_simp

end
