(* ===== verification/Spec2Isabelle.thy ===== *)
theory Spec2Isabelle
  imports Frame_Stream Greeting Auth Plain_Mechanism Null_Mechanism Heapless Peer_Filter Sub_Table Group_Table
    Link Session Peer_Stream Test_Helpers Connection Connection_Spec Connection_Run
    Client Client_Handshake Connection_Properties Connection_Messages
    Radio_Connection Radio_Run Radio_Properties
    Transport Write_All Awaited Mock_Transport Drive Drive_Client Drive_Safe
    Client_Progress Drive_Progress Drive_Failure
    Driver_Sync Driver_Async Driver_Run Driver_Properties
    Radio_Driver_Sync Radio_Driver_Async Radio_Driver_Run Radio_Driver_Properties
    Driver_Dropped Smoltcp_Adapter Fuzz_Targets Examples Smoltcp_Pub Size_Probe
    Assertions Codec_Tests Table_Tests Connection_Tests Radio_Connection_Tests
    Driver_Assertions Driver_Tests Radio_Driver_Tests Async_Driver_Tests Async_Radio_Driver_Tests
begin

text \<open>
  A verification development for \<^verbatim>\<open>mzmq\<close>, a \<^verbatim>\<open>no_std\<close> Rust library for the publishing side of ZMTP 3.1
  (PUB and RADIO sockets). All paths are those of the repository.

  \<^bold>\<open>The program.\<close> A connection (\<^verbatim>\<open>src/connection.rs\<close>, \<^verbatim>\<open>src/radio_connection.rs\<close>) is a state
  machine without I/O: the application feeds it the bytes of the peer and asks it for bytes to send. It parses the
  greeting (\<^verbatim>\<open>src/greeting.rs\<close>), runs the NULL or PLAIN handshake (\<^verbatim>\<open>src/null.rs\<close>, \<^verbatim>\<open>src/plain.rs\<close>,
  \<^verbatim>\<open>src/auth.rs\<close>), then cuts the stream into frames (\<^verbatim>\<open>src/frame.rs\<close>), keeps what the peer subscribes to
  or joins in a bounded table (\<^verbatim>\<open>src/sub_table.rs\<close>, \<^verbatim>\<open>src/group_table.rs\<close>), answers PING, and filters what is
  published. The drivers (\<^verbatim>\<open>src/io/sync.rs\<close>, \<^verbatim>\<open>src/io/async.rs\<close>) put a connection on a transport; the adapter
  (\<^verbatim>\<open>src/io/smoltcp.rs\<close>) makes a TCP socket a transport.

  \<^bold>\<open>How it is modelled.\<close> A Rust function is a HOL function with the same branches in the same
  order. A result is \<^verbatim>\<open>Ok\<close>, \<^verbatim>\<open>Err\<close> or \<^verbatim>\<open>Panic\<close> (theory Prelude), so every slice, index and addition that
  can panic is a branch. Bytes are \<^verbatim>\<open>8 word\<close>; \<^verbatim>\<open>usize\<close> is a natural number, and where its width matters the
  operation takes the target (number of bits, overflow checks on or off). A method with \<^verbatim>\<open>&mut self\<close> returns the new
  state with its result, also when the result is an error. Const generics are fields of a record (\<^verbatim>\<open>conn_build\<close>,
  \<^verbatim>\<open>radio_build\<close>). Code of other crates is a parameter with its documented behaviour as an interface:
  \<^verbatim>\<open>heapless::Vec\<close> (Heapless), the transport (Transport, Awaited), its provided method \<^verbatim>\<open>write_all\<close> (Write_All), the
  smoltcp socket (\<^verbatim>\<open>tcp_contract\<close> in Smoltcp_Pub); the application's authenticator is a parameter too.

  \<^bold>\<open>Theories.\<close>
  \<^item> Prelude: outcomes, slices, \<^verbatim>\<open>usize\<close>, big-endian integers.
  \<^item> Frame, Frame_Stream: \<^verbatim>\<open>src/frame.rs\<close>. The decoder's loop and its specification, a stateless grammar of
    frames: cutting the stream does not matter, encoders and decoder are inverse, errors poison.
  \<^item> Greeting, Auth, Plain_Mechanism, Null_Mechanism: the parsers and encoders of the handshake, each
    characterised by what it accepts.
  \<^item> Heapless, Peer_Filter, Sub_Table, Group_Table: the two tables refine a bounded multiset of prefixes
    and a bounded set of groups.
  \<^item> Link, Connection, Radio_Connection: the two connections, as the common record \<^verbatim>\<open>link\<close> extended by their tables.
  \<^item> Session: applications as sequences of calls, the handshake as a step relation, the interface
    \<^verbatim>\<open>endpoint\<close>. Peer_Stream: what a peer's bytes mean when they are parsed in one go (\<^verbatim>\<open>meaning_of\<close>), the
    specification of the connections.
  \<^item> Connection_Spec, Client, Client_Handshake: the proofs about runs, done once for both connections
    under the interface \<^verbatim>\<open>client\<close>. Connection_Run and Radio_Run show that the two connections satisfy it.
  \<^item> Connection_Properties, Connection_Messages, Radio_Properties: the properties of connections.
  \<^item> Transport, Write_All, Awaited: transports as parameters, the struct of the drivers, operations whose future may be dropped.
    Driver_Sync, Driver_Async, Radio_Driver_Sync, Radio_Driver_Async: the four drivers.
  \<^item> Drive, Drive_Client, Drive_Safe, Client_Progress, Drive_Progress, Drive_Failure: the loop of the drivers over the calls of
    any \<^verbatim>\<open>client\<close> on any byte stream: what is received and sent, no panics, progress with a good
    peer, and what a failed write does, however the greeting arrives. Driver_Run and Radio_Driver_Run show that the four drivers
    are this loop; Driver_Properties and Radio_Driver_Properties hold their properties. Driver_Dropped: the asynchronous
    PUB driver whose futures are dropped, as the blocking one whose reads and writes fail.
  \<^item> Smoltcp_Adapter: \<^verbatim>\<open>src/io/smoltcp.rs\<close>. Fuzz_Targets: \<^verbatim>\<open>fuzz/fuzz_targets\<close>.
  \<^item> Examples, Smoltcp_Pub: \<^verbatim>\<open>examples\<close>, what the applications do with the library. Size_Probe: \<^verbatim>\<open>sizing\<close>.
  \<^item> Test_Helpers, Mock_Transport: \<^verbatim>\<open>src/test_helpers.rs\<close>, the inputs and transports of the witnesses.
  \<^item> Assertions, Codec_Tests, Table_Tests, Connection_Tests, Radio_Connection_Tests, Driver_Assertions, Driver_Tests,
    Radio_Driver_Tests, Async_Driver_Tests, Async_Radio_Driver_Tests: the unit tests of the source files. Each test is
    a truth value; the lemmas \<^verbatim>\<open>\<dots>_tests_pass\<close> evaluate them with lists for \<^verbatim>\<open>heapless::Vec\<close>, a check of the
    definitions against what the authors expect of the code.

  \<^bold>\<open>What the theorems show.\<close> A connection is in the state that the bytes it has consumed mean,
  however they were cut (refinement), follows the handshake and admits a peer only after a HELLO with accepted credentials,
  sends exactly what it should, and its errors are final (except \<^verbatim>\<open>WrongState\<close>, which changes nothing). A driver loses and invents nothing between its transport and its
  application, gets every good stream through, and the asynchronous drivers do what the blocking ones do as long as
  no future is dropped. No operation leaves the well-formed states of a connection. No panics on 64-bit targets:
  decoder, connections, the four drivers, the asynchronous PUB driver also when futures are dropped, and fuzz targets.
  The example \<^verbatim>\<open>pub_hello\<close> does not panic and ends in success only with its message sent; the loop of
  \<^verbatim>\<open>smoltcp_pub\<close> goes on whatever the peer sends, if each pass finds 128 bytes free in the transmit buffer.
  What goes wrong is stated as well: the narrowing of a frame length and the panic of the READY parser on 32-bit
  targets, the driver that loses its place after a failed write or a dropped \<^verbatim>\<open>poll\<close>, over any transport, the adapter
  whose 0 means something else to its callers.

  \<^bold>\<open>Termination and bounds.\<close> Every function is total; loops are recursive functions with a measure (the
  input left, the bytes of the buffer not yet fed). No fuel is used. A loop that need not end (the tests poll until
  something happens) is a partial function whose result is then \<^verbatim>\<open>None\<close>, and a test passes only if it ends. A loop of an example that the clock ends takes the number of its passes as an argument. A driver's receive buffer has the
  512 bytes of the code. Capacities, the 64-bit assumption and the contracts of other crates are hypotheses of
  the theorems that need them, and the witnesses instantiate them.

  \<^bold>\<open>Not modelled.\<close> The integration tests, which start processes and talk to \<^verbatim>\<open>libzmq\<close> over sockets; in the
  examples the arguments, sockets, printing, sleeping and the clock; the sizes that \<^verbatim>\<open>sizing\<close> measures; the
  \<^verbatim>\<open>Display\<close> texts of the error types. Tests of the drivers that deliver a handshake byte by byte are defined but not
  evaluated. The schedule of an asynchronous executor appears only as the places where a future can be dropped.
\<close>

end
